(* ===== verification/Go_Prelude.thy ===== *)
theory Go_Prelude
  imports Main "HOL-Library.Word" "HOL-Library.AList"
begin

unbundle bit_operations_syntax

text \<open>
  The vocabulary the component theories share.

  \<^item> Fixed-width Go integers are words (\<open>u8\<close>, \<open>u16\<close>, \<open>u32\<close>, \<open>u64\<close>).
  \<^item> A Go map is an association list with distinct keys (\<open>gomap\<close>): \<open>map_of\<close> reads it,
    \<open>AList.update\<close> and \<open>AList.delete\<close> write it. A \<open>range\<close> loop visits the keys of a Go
    map in an unspecified order; here it visits them in the order of the list, and the theorems are
    stated for every list, hence for every order the loop may take. A Go map with empty
    struct values is a set of keys, a distinct list with \<open>List.insert\<close> and \<open>removeAll\<close>.
  \<^item> A Go function that returns \<open>(T, error)\<close> has a result of type \<open>'e + 'a\<close>;
    one whose error is only logged returns \<open>'a option\<close>.
  \<^item> A run-time panic (nil dereference, index out of range) is the value \<open>None\<close> of the
    \<open>option\<close> type, where the source can panic, or \<open>Panic\<close> of the type \<open>gores\<close>, where it can also
    return an error.
  \<^item> Byte order conversions of \<open>encoding/binary\<close> are given on lists of bytes.

  The last section states the interface of an identifier allocator, which two unrelated
  components of the program implement (the SMF's lazy reuse pool and the UPF's session table).
\<close>

section \<open>Types\<close>

type_synonym u8 = "8 word"
type_synonym u16 = "16 word"
type_synonym u32 = "32 word"
type_synonym u64 = "64 word"
type_synonym bytes = "u8 list"
type_synonym ('k, 'v) gomap = "('k \<times> 'v) list"

named_theorems go_map "reading a Go map after a write"

section \<open>Go maps\<close>

abbreviation mput :: "'k \<Rightarrow> 'v \<Rightarrow> ('k, 'v) gomap \<Rightarrow> ('k, 'v) gomap" where
  "mput \<equiv> AList.update"

abbreviation mdel :: "'k \<Rightarrow> ('k, 'v) gomap \<Rightarrow> ('k, 'v) gomap" where
  "mdel \<equiv> AList.delete"

abbreviation keys :: "('k, 'v) gomap \<Rightarrow> 'k list" where
  "keys m \<equiv> map fst m"

abbreviation wf_gomap :: "('k, 'v) gomap \<Rightarrow> bool" where
  "wf_gomap m \<equiv> distinct (keys m)"

declare map_of_eq_Some_iff [simp del] Some_eq_map_of_iff [simp del]

lemma map_of_mput [go_map, simp]: "map_of (mput k v m) = (map_of m)(k \<mapsto> v)"
  by (rule update_conv')

lemma map_of_mdel [go_map, simp]: "map_of (mdel k m) = (map_of m)(k := None)"
  by (rule delete_conv')

lemma set_keys_mput [go_map, simp]: "set (keys (mput k v m)) = insert k (set (keys m))"
  by (induction m) auto

lemma set_keys_mdel [go_map, simp]: "set (keys (mdel k m)) = set (keys m) - {k}"
  by (induction m) auto

lemma wf_mput [simp, intro]: "wf_gomap m \<Longrightarrow> wf_gomap (mput k v m)"
  by (rule distinct_update)

lemma wf_mdel [simp, intro]: "wf_gomap m \<Longrightarrow> wf_gomap (mdel k m)"
  by (rule distinct_delete)

lemma set_keys_dom: "set (keys m) = dom (map_of m)"
  by (simp add: dom_map_of_conv_image_fst)

lemma in_keys_iff: "k \<in> set (keys m) \<longleftrightarrow> map_of m k \<noteq> None"
  by (simp only: set_keys_dom dom_def mem_Collect_eq)

lemma fst_image_iff [go_map]: "k \<in> fst ` set m \<longleftrightarrow> map_of m k \<noteq> None"
  by (simp add: map_of_eq_None_iff)

lemma map_of_filter_vals [go_map]:
  assumes "wf_gomap m"
  shows "map_of (filter (\<lambda>(_, v). P v) m) k =
    (case map_of m k of None \<Rightarrow> None | Some v \<Rightarrow> if P v then Some v else None)"
  using assms
proof (induction m)
  case (Cons x m)
  obtain j v where x: "x = (j, v)" by fastforce
  have "map_of m j = None" using Cons.prems x by (simp add: map_of_eq_None_iff)
  then show ?case using Cons x by auto
qed simp

section \<open>Loops over plans\<close>

text \<open>What a loop does to one observation \<open>f\<close> of the state, from what one round does to it.\<close>

lemma fold_same: "(\<And>x s. f (g x s) = f s) \<Longrightarrow> f (fold g xs s) = f s"
  by (induction xs arbitrary: s) simp_all

lemma fold_adds: "(\<And>x s. f (g x s) = insert (h x) (f s)) \<Longrightarrow> f (fold g xs s) = f s \<union> h ` set xs"
  by (induction xs arbitrary: s) auto

lemma fold_dels: "(\<And>x s. f (g x s) = f s - {h x}) \<Longrightarrow> f (fold g xs s) = f s - h ` set xs"
  by (induction xs arbitrary: s) auto

section \<open>Results\<close>

text \<open>Where code both returns errors and can panic, a result is a value, an error or a panic.\<close>

datatype 'a gores = Val 'a | Err | Panic

fun gbind :: "'a gores \<Rightarrow> ('a \<Rightarrow> 'b gores) \<Rightarrow> 'b gores" where
  "gbind (Val a) f = f a"
| "gbind Err f = Err"
| "gbind Panic f = Panic"

text \<open>An error returned by an accessor ends the method (\<open>must\<close>) or only the case of the switch (\<open>may\<close>).\<close>

definition must :: "'a option \<Rightarrow> ('a \<Rightarrow> 'b gores) \<Rightarrow> 'b gores" where
  "must x f = (case x of None \<Rightarrow> Err | Some v \<Rightarrow> f v)"

definition may :: "'a option \<Rightarrow> 'b \<Rightarrow> ('a \<Rightarrow> 'b) \<Rightarrow> 'b gores" where
  "may x s f = Val (case x of None \<Rightarrow> s | Some v \<Rightarrow> f v)"

fun gloop :: "('x \<Rightarrow> 's \<Rightarrow> 's gores) \<Rightarrow> 'x list \<Rightarrow> 's \<Rightarrow> 's gores" where
  "gloop f [] s = Val s"
| "gloop f (x # xs) s = gbind (f x s) (gloop f xs)"

definition gores_option :: "'a gores \<Rightarrow> 'a option" where
  "gores_option r = (case r of Val a \<Rightarrow> Some a | _ \<Rightarrow> None)"

lemma gbind_Panic [simp]: "gbind r f = Panic \<longleftrightarrow> r = Panic \<or> (\<exists>a. r = Val a \<and> f a = Panic)"
  by (cases r) auto

lemma must_Panic [simp]: "must x f = Panic \<longleftrightarrow> (\<exists>a. x = Some a \<and> f a = Panic)"
  by (auto simp: must_def split: option.split)

lemma may_Panic [simp]: "may x s f \<noteq> Panic"
  by (simp add: may_def)

lemma gloop_Panic: "gloop f xs s = Panic \<Longrightarrow> \<exists>x\<in>set xs. \<exists>s. f x s = Panic"
  by (induction xs arbitrary: s) auto

lemma gloop_inv:
  assumes "gloop f xs s = Val t" and "P s" and "\<And>x s t. f x s = Val t \<Longrightarrow> P s \<Longrightarrow> P t"
  shows "P t"
  using assms(1,2)
proof (induction xs arbitrary: s)
  case (Cons x xs)
  then obtain u where "f x s = Val u" "gloop f xs u = Val t" by (cases "f x s") auto
  then show ?case using Cons.IH Cons.prems(2) assms(3) by blast
qed simp

section \<open>Byte order\<close>

definition be16 :: "u16 \<Rightarrow> bytes" where
  "be16 w = [ucast (drop_bit 8 w), ucast w]"

definition be32 :: "u32 \<Rightarrow> bytes" where
  "be32 w = [ucast (drop_bit 24 w), ucast (drop_bit 16 w), ucast (drop_bit 8 w), ucast w]"

definition le32 :: "u32 \<Rightarrow> bytes" where
  "le32 w = [ucast w, ucast (drop_bit 8 w), ucast (drop_bit 16 w), ucast (drop_bit 24 w)]"

definition of_be16 :: "u8 \<Rightarrow> u8 \<Rightarrow> u16" where
  "of_be16 a b = push_bit 8 (ucast a) OR ucast b"

definition of_be32 :: "u8 \<Rightarrow> u8 \<Rightarrow> u8 \<Rightarrow> u8 \<Rightarrow> u32" where
  "of_be32 a b c d =
     push_bit 24 (ucast a) OR push_bit 16 (ucast b) OR push_bit 8 (ucast c) OR ucast d"

definition of_le16 :: "u8 \<Rightarrow> u8 \<Rightarrow> u16" where
  "of_le16 a b = ucast a OR push_bit 8 (ucast b)"

definition of_le32 :: "u8 \<Rightarrow> u8 \<Rightarrow> u8 \<Rightarrow> u8 \<Rightarrow> u32" where
  "of_le32 a b c d =
     ucast a OR push_bit 8 (ucast b) OR push_bit 16 (ucast c) OR push_bit 24 (ucast d)"

lemma length_be16 [simp]: "length (be16 w) = 2"
  by (simp add: be16_def)

lemma length_be32 [simp]: "length (be32 w) = 4"
  by (simp add: be32_def)

lemma length_le32 [simp]: "length (le32 w) = 4"
  by (simp add: le32_def)

lemma ucast_widen [simp]:
  "ucast (ucast (b :: u8) :: u32) = b"
  "ucast (ucast (h :: u16) :: u32) = h"
  by (rule bit_word_eqI, auto simp: bit_ucast_iff)+

lemma unat_join8:
  fixes a b :: u8
  shows "unat (push_bit 8 (ucast a) OR ucast b :: u16) = 256 * unat a + unat b"
proof -
  have lt: "unat a < 256" "unat b < 256"
    using unsigned_less [of a, where 'a = nat] unsigned_less [of b, where 'a = nat] by simp_all
  have u: "unat (ucast a :: u16) = unat a" "unat (ucast b :: u16) = unat b"
    using lt by (simp_all add: unsigned_ucast_eq take_bit_nat_eq_self)
  have p: "unat (push_bit 8 (ucast a :: u16)) = 256 * unat a"
    using lt by (simp add: push_bit_eq_mult unat_word_ariths u mult.commute)
  have "push_bit 8 (ucast a) OR ucast b = push_bit 8 (ucast a) + (ucast b :: u16)"
    by (rule disjunctive_add [symmetric]) (auto simp: bit_push_bit_iff bit_ucast_iff dest: bit_imp_le_length)
  then show ?thesis using lt by (simp add: unat_word_ariths p u)
qed

lemma of_be16_be16: "of_be16 (ucast (drop_bit 8 w)) (ucast w) = w"
  by (rule bit_word_eqI)
    (auto simp: of_be16_def bit_or_iff bit_push_bit_iff bit_ucast_iff bit_drop_bit_eq)

lemma of_be32_be32:
  "of_be32 (ucast (drop_bit 24 w)) (ucast (drop_bit 16 w)) (ucast (drop_bit 8 w)) (ucast w) = w"
proof (rule bit_word_eqI)
  fix n
  assume n: "n < LENGTH(32)"
  consider "n < 8" | "8 \<le> n" "n < 16" | "16 \<le> n" "n < 24" | "24 \<le> n" "n < 32"
    using n by fastforce
  then show "bit (of_be32 (ucast (drop_bit 24 w)) (ucast (drop_bit 16 w))
      (ucast (drop_bit 8 w)) (ucast w)) n = bit w n"
    by cases (auto simp: of_be32_def bit_or_iff bit_push_bit_iff bit_ucast_iff bit_drop_bit_eq)
qed

section \<open>Identifier allocators\<close>

text \<open>
  What a client of an identifier allocator relies on: an allocated identifier was not in use
  and is now, a released identifier is in use no longer, and nothing else changes. The client
  lemma is about whole runs: identifiers handed out and not yet given back are never handed
  out a second time.
\<close>

datatype 'i alloc_event = Alloc | Release 'i

text \<open>
  A run of a client that holds the identifiers \<open>held\<close> (in order of allocation), releases only
  what it holds, and stops when an allocation fails.
\<close>

fun client_run ::
  "('s \<Rightarrow> ('i \<times> 's) option) \<Rightarrow> ('i \<Rightarrow> 's \<Rightarrow> 's) \<Rightarrow> 's \<Rightarrow> 'i list \<Rightarrow> 'i alloc_event list
    \<Rightarrow> ('i list \<times> 's) option" where
  "client_run alloc release s held [] = Some (held, s)"
| "client_run alloc release s held (Alloc # es) =
     (case alloc s of None \<Rightarrow> Some (held, s)
      | Some (i, s') \<Rightarrow> client_run alloc release s' (i # held) es)"
| "client_run alloc release s held (Release i # es) =
     (if i \<in> set held
      then client_run alloc release (release i s) (removeAll i held) es else None)"

locale id_allocator =
  fixes inv :: "'s \<Rightarrow> bool"
    and used :: "'s \<Rightarrow> 'i set"
    and alloc :: "'s \<Rightarrow> ('i \<times> 's) option"
    and release :: "'i \<Rightarrow> 's \<Rightarrow> 's"
  assumes alloc_fresh: "inv s \<Longrightarrow> alloc s = Some (i, s') \<Longrightarrow> i \<notin> used s"
    and alloc_used: "inv s \<Longrightarrow> alloc s = Some (i, s') \<Longrightarrow> used s' = insert i (used s)"
    and alloc_inv: "inv s \<Longrightarrow> alloc s = Some (i, s') \<Longrightarrow> inv s'"
    and release_used: "inv s \<Longrightarrow> i \<in> used s \<Longrightarrow> used (release i s) = used s - {i}"
    and release_inv: "inv s \<Longrightarrow> i \<in> used s \<Longrightarrow> inv (release i s)"
begin

lemma client_run_conserves:
  assumes "client_run alloc release s held es = Some (held', s')"
    and "inv s" and "distinct held" and "set held \<subseteq> used s"
  shows "distinct held' \<and> set held' \<subseteq> used s' \<and> used s' - set held' = used s - set held \<and> inv s'"
  using assms
proof (induction es arbitrary: s held)
  case Nil
  then show ?case by simp
next
  case (Cons e es)
  note inv = \<open>inv s\<close>
  show ?case
  proof (cases e)
    case Alloc
    show ?thesis
    proof (cases "alloc s")
      case None
      with Cons.prems Alloc show ?thesis by simp
    next
      case (Some p)
      then obtain i t where p: "alloc s = Some (i, t)" by (cases p) auto
      note fresh = alloc_fresh [OF inv p] and used = alloc_used [OF inv p]
      have run: "client_run alloc release t (i # held) es = Some (held', s')"
        using Cons.prems(1) Alloc p by simp
      have "distinct (i # held)" and "set (i # held) \<subseteq> used t"
        and same: "used t - set (i # held) = used s - set held"
        using fresh used Cons.prems by auto
      then show ?thesis
        using Cons.IH [OF run alloc_inv [OF inv p]] unfolding same by simp
    qed
  next
    case (Release i)
    then have i: "i \<in> set held" using Cons.prems(1) by (simp split: if_splits)
    have u: "i \<in> used s" using i Cons.prems by auto
    have run: "client_run alloc release (release i s) (removeAll i held) es = Some (held', s')"
      using Cons.prems(1) Release i by simp
    have "set (removeAll i held) \<subseteq> used (release i s)" and "distinct (removeAll i held)"
      and same: "used (release i s) - set (removeAll i held) = used s - set held"
      using Cons.prems release_used [OF inv u] i by (auto simp: distinct_removeAll)
    then show ?thesis
      using Cons.IH [OF run release_inv [OF inv u]] unfolding same by simp
  qed
qed

end

end
