(* ===== verification/Upf_Report.thy ===== *)
theory Upf_Report
  imports Go_Prelude
begin

unbundle bit_operations_syntax

text \<open>
  The UPF's reports, \<open>NFs/upf/internal/report/report.go\<close>: trigger and action flag words and
  their wire form, the usage report, and the information elements a usage report contributes to
  a PFCP message.

  The three families of one-bit accessor methods (\<open>PERIO()\<close>, \<open>VOLTH()\<close>, ... on
  \<open>ReportingTrigger\<close>, \<open>UsageReportTrigger\<close> and \<open>ApplyAction\<close>) are one function each, over an
  enumeration of the bits in the order of the source's \<open>iota\<close> blocks. An information element that
  the source builds with a constructor of the go-pfcp library is a value of \<open>rpt_ie\<close> that records
  the constructor and its arguments. A \<open>time.Time\<close> is an integer.
\<close>

section \<open>Reporting triggers\<close>

datatype rpt_trig =
  R_PERIO | R_VOLTH | R_TIMTH | R_QUHTI | R_START | R_STOPT | R_DROTH | R_LIUSA | R_VOLQU
| R_TIMQU | R_ENVCL | R_MACAR | R_EVETH | R_EVEQU | R_IPMJL | R_QUVTI | R_REEMR | R_UPINT

fun rpt_iota :: "rpt_trig \<Rightarrow> nat" where
  "rpt_iota R_PERIO = 0" | "rpt_iota R_VOLTH = 1" | "rpt_iota R_TIMTH = 2"
| "rpt_iota R_QUHTI = 3" | "rpt_iota R_START = 4" | "rpt_iota R_STOPT = 5"
| "rpt_iota R_DROTH = 6" | "rpt_iota R_LIUSA = 7" | "rpt_iota R_VOLQU = 8"
| "rpt_iota R_TIMQU = 9" | "rpt_iota R_ENVCL = 10" | "rpt_iota R_MACAR = 11"
| "rpt_iota R_EVETH = 12" | "rpt_iota R_EVEQU = 13" | "rpt_iota R_IPMJL = 14"
| "rpt_iota R_QUVTI = 15" | "rpt_iota R_REEMR = 16" | "rpt_iota R_UPINT = 17"

definition RPT_TRIG :: "rpt_trig \<Rightarrow> u32" where
  "RPT_TRIG t = push_bit (rpt_iota t) 1"

record ReportingTrigger =
  rt_Flags :: u32

text \<open>
  \<open>Unmarshal\<close> copies the bytes into a zeroed slice that is two bytes longer and reads its
  first four bytes; \<open>None\<close> is the error for fewer than two bytes.
\<close>

definition ReportingTrigger_Unmarshal :: "bytes \<Rightarrow> ReportingTrigger option" where
  "ReportingTrigger_Unmarshal b =
     (if length b < 2 then None
      else let v = b @ replicate 2 0
           in Some \<lparr>rt_Flags = of_le32 (v ! 0) (v ! 1) (v ! 2) (v ! 3)\<rparr>)"

definition ReportingTrigger_IE :: "ReportingTrigger \<Rightarrow> bytes" where
  "ReportingTrigger_IE r = take 3 (le32 (rt_Flags r))"

definition ReportingTrigger_has :: "ReportingTrigger \<Rightarrow> rpt_trig \<Rightarrow> bool" where
  "ReportingTrigger_has r t \<longleftrightarrow> rt_Flags r AND RPT_TRIG t \<noteq> 0"

section \<open>Usage report triggers\<close>

datatype usar_trig =
  U_PERIO | U_VOLTH | U_TIMTH | U_QUHTI | U_START | U_STOPT | U_DROTH | U_IMMER | U_VOLQU
| U_TIMQU | U_LIUSA | U_TERMR | U_MONIT | U_ENVCL | U_MACAR | U_EVETH | U_EVEQU | U_TEBUR
| U_IPMJL | U_QUVTI | U_EMRRE | U_UPINT

fun usar_iota :: "usar_trig \<Rightarrow> nat" where
  "usar_iota U_PERIO = 0" | "usar_iota U_VOLTH = 1" | "usar_iota U_TIMTH = 2"
| "usar_iota U_QUHTI = 3" | "usar_iota U_START = 4" | "usar_iota U_STOPT = 5"
| "usar_iota U_DROTH = 6" | "usar_iota U_IMMER = 7" | "usar_iota U_VOLQU = 8"
| "usar_iota U_TIMQU = 9" | "usar_iota U_LIUSA = 10" | "usar_iota U_TERMR = 11"
| "usar_iota U_MONIT = 12" | "usar_iota U_ENVCL = 13" | "usar_iota U_MACAR = 14"
| "usar_iota U_EVETH = 15" | "usar_iota U_EVEQU = 16" | "usar_iota U_TEBUR = 17"
| "usar_iota U_IPMJL = 18" | "usar_iota U_QUVTI = 19" | "usar_iota U_EMRRE = 20"
| "usar_iota U_UPINT = 21"

definition USAR_TRIG :: "usar_trig \<Rightarrow> u32" where
  "USAR_TRIG t = push_bit (usar_iota t) 1"

record UsageReportTrigger =
  ut_Flags :: u32

text \<open>The \<open>switch\<close> compares the whole argument with one trigger bit at a time.\<close>

definition SetReportingTrigger :: "u32 \<Rightarrow> UsageReportTrigger \<Rightarrow> UsageReportTrigger" where
  "SetReportingTrigger r t =
     (let add = (\<lambda>u. t\<lparr>ut_Flags := ut_Flags t OR USAR_TRIG u\<rparr>)
      in if r = RPT_TRIG R_PERIO then add U_PERIO
         else if r = RPT_TRIG R_VOLTH then add U_VOLTH
         else if r = RPT_TRIG R_TIMTH then add U_TIMTH
         else if r = RPT_TRIG R_QUHTI then add U_QUHTI
         else if r = RPT_TRIG R_START then add U_START
         else if r = RPT_TRIG R_STOPT then add U_STOPT
         else if r = RPT_TRIG R_DROTH then add U_DROTH
         else if r = RPT_TRIG R_LIUSA then add U_LIUSA
         else if r = RPT_TRIG R_VOLQU then add U_VOLQU
         else if r = RPT_TRIG R_TIMQU then add U_TIMQU
         else if r = RPT_TRIG R_ENVCL then add U_ENVCL
         else if r = RPT_TRIG R_MACAR then add U_MACAR
         else if r = RPT_TRIG R_EVETH then add U_EVETH
         else if r = RPT_TRIG R_EVEQU then add U_EVEQU
         else if r = RPT_TRIG R_IPMJL then add U_IPMJL
         else if r = RPT_TRIG R_QUVTI then add U_QUVTI
         else if r = RPT_TRIG R_UPINT then add U_UPINT
         else t)"

definition UsageReportTrigger_IE :: "UsageReportTrigger \<Rightarrow> bytes" where
  "UsageReportTrigger_IE t = take 3 (le32 (ut_Flags t))"

definition UsageReportTrigger_has :: "UsageReportTrigger \<Rightarrow> usar_trig \<Rightarrow> bool" where
  "UsageReportTrigger_has t u \<longleftrightarrow> ut_Flags t AND USAR_TRIG u \<noteq> 0"

section \<open>Measurements\<close>

record MeasureMethod =
  DURAT :: bool
  VOLUM :: bool
  EVENT :: bool

record MeasureInformation =
  MBQE :: bool
  INAM :: bool
  RADI :: bool
  ISTM :: bool
  MNOP :: bool
  SSPOC :: bool
  ASPOC :: bool
  CIAM :: bool

definition TOVOL :: u8 where "TOVOL = 1"
definition ULVOL :: u8 where "ULVOL = 2"
definition DLVOL :: u8 where "DLVOL = 4"
definition TONOP :: u8 where "TONOP = 8"
definition ULNOP :: u8 where "ULNOP = 16"
definition DLNOP :: u8 where "DLNOP = 32"

record VolumeMeasure =
  vm_Flags :: u8
  TotalVolume :: u64
  UplinkVolume :: u64
  DownlinkVolume :: u64
  TotalPktNum :: u64
  UplinkPktNum :: u64
  DownlinkPktNum :: u64

definition SetFlags :: "bool \<Rightarrow> VolumeMeasure \<Rightarrow> VolumeMeasure" where
  "SetFlags mnop m =
     (let m1 = m\<lparr>vm_Flags := vm_Flags m OR (TOVOL OR ULVOL OR DLVOL)\<rparr>
      in if mnop then m1\<lparr>vm_Flags := vm_Flags m1 OR (TONOP OR ULNOP OR DLNOP)\<rparr> else m1)"

record DurationMeasure =
  DurationValue :: u64

section \<open>Usage reports and their information elements\<close>

record USAReport =
  ur_URRID :: u32
  URSEQN :: u32
  USARTrigger :: UsageReportTrigger
  VolumMeasure :: VolumeMeasure
  DuratMeasure :: DurationMeasure
  QueryUrrRef :: u32
  StartTime :: int
  EndTime :: int

datatype rpt_ie =
  IE_URRID u32
| IE_URSEQN u32
| IE_UsageReportTrigger bytes
| IE_StartTime int
| IE_EndTime int
| IE_VolumeMeasurement u8 u64 u64 u64 u64 u64 u64
| IE_DurationMeasurement u64

definition VolumeMeasure_IE :: "VolumeMeasure \<Rightarrow> rpt_ie" where
  "VolumeMeasure_IE m = IE_VolumeMeasurement (vm_Flags m) (TotalVolume m) (UplinkVolume m)
     (DownlinkVolume m) (TotalPktNum m) (UplinkPktNum m) (DownlinkPktNum m)"

definition DurationMeasure_IE :: "DurationMeasure \<Rightarrow> rpt_ie" where
  "DurationMeasure_IE m = IE_DurationMeasurement (DurationValue m)"

definition IEsWithinSessReportReq ::
  "USAReport \<Rightarrow> MeasureMethod \<Rightarrow> MeasureInformation \<Rightarrow> rpt_ie list" where
  "IEsWithinSessReportReq r mm info =
     [IE_URRID (ur_URRID r), IE_URSEQN (URSEQN r),
      IE_UsageReportTrigger (UsageReportTrigger_IE (USARTrigger r))]
     @ (if \<not> UsageReportTrigger_has (USARTrigger r) U_START
          \<and> \<not> UsageReportTrigger_has (USARTrigger r) U_STOPT
          \<and> \<not> UsageReportTrigger_has (USARTrigger r) U_MACAR
        then [IE_StartTime (StartTime r), IE_EndTime (EndTime r)] else [])
     @ (if VOLUM mm then [VolumeMeasure_IE (SetFlags (MNOP info) (VolumMeasure r))] else [])
     @ (if DURAT mm then [DurationMeasure_IE (DuratMeasure r)] else [])"

definition IEsWithinSessModRsp ::
  "USAReport \<Rightarrow> MeasureMethod \<Rightarrow> MeasureInformation \<Rightarrow> rpt_ie list" where
  "IEsWithinSessModRsp r mm info =
     [IE_URRID (ur_URRID r), IE_URSEQN (URSEQN r),
      IE_UsageReportTrigger (UsageReportTrigger_IE (USARTrigger r))]
     @ (if \<not> UsageReportTrigger_has (USARTrigger r) U_START
          \<and> \<not> UsageReportTrigger_has (USARTrigger r) U_STOPT
          \<and> \<not> UsageReportTrigger_has (USARTrigger r) U_MACAR
        then [IE_StartTime (StartTime r), IE_EndTime (EndTime r)] else [])
     @ (if VOLUM mm then [VolumeMeasure_IE (SetFlags (MNOP info) (VolumMeasure r))] else [])
     @ (if DURAT mm then [DurationMeasure_IE (DuratMeasure r)] else [])"

definition IEsWithinSessDelRsp ::
  "USAReport \<Rightarrow> MeasureMethod \<Rightarrow> MeasureInformation \<Rightarrow> rpt_ie list" where
  "IEsWithinSessDelRsp r mm info =
     [IE_URRID (ur_URRID r), IE_URSEQN (URSEQN r),
      IE_UsageReportTrigger (UsageReportTrigger_IE (USARTrigger r))]
     @ (if \<not> UsageReportTrigger_has (USARTrigger r) U_START
          \<and> \<not> UsageReportTrigger_has (USARTrigger r) U_STOPT
          \<and> \<not> UsageReportTrigger_has (USARTrigger r) U_MACAR
        then [IE_StartTime (StartTime r), IE_EndTime (EndTime r)] else [])
     @ (if VOLUM mm then [VolumeMeasure_IE (SetFlags (MNOP info) (VolumMeasure r))] else [])
     @ (if DURAT mm then [DurationMeasure_IE (DuratMeasure r)] else [])"

section \<open>Apply actions\<close>

datatype apply_act =
  A_DROP | A_FORW | A_BUFF | A_NOCP | A_DUPL | A_IPMA | A_IPMD | A_DFRT | A_EDRT | A_BDPN
| A_DDPN | A_FSSM | A_MBSU

fun act_iota :: "apply_act \<Rightarrow> nat" where
  "act_iota A_DROP = 0" | "act_iota A_FORW = 1" | "act_iota A_BUFF = 2"
| "act_iota A_NOCP = 3" | "act_iota A_DUPL = 4" | "act_iota A_IPMA = 5"
| "act_iota A_IPMD = 6" | "act_iota A_DFRT = 7" | "act_iota A_EDRT = 8"
| "act_iota A_BDPN = 9" | "act_iota A_DDPN = 10" | "act_iota A_FSSM = 11"
| "act_iota A_MBSU = 12"

definition APPLY_ACT :: "apply_act \<Rightarrow> u16" where
  "APPLY_ACT a = push_bit (act_iota a) 1"

record ApplyAction =
  aa_Flags :: u16

definition ApplyAction_Unmarshal :: "bytes \<Rightarrow> ApplyAction option" where
  "ApplyAction_Unmarshal b =
     (if length b < 1 then None
      else let v = b @ replicate (max 2 (length b) - length b) 0
           in Some \<lparr>aa_Flags = of_le16 (v ! 0) (v ! 1)\<rparr>)"

definition ApplyAction_has :: "ApplyAction \<Rightarrow> apply_act \<Rightarrow> bool" where
  "ApplyAction_has a t \<longleftrightarrow> aa_Flags a AND APPLY_ACT t \<noteq> 0"

section \<open>Session reports\<close>

record DLDReport =
  dl_PDRID :: u16
  dl_Action :: u16
  BufPkt :: bytes

text \<open>
  The interface \<open>Report\<close>: its two implementations in the source, and any other (the \<open>default\<close>
  branch of a type switch).
\<close>

datatype Report = DLD DLDReport | USA USAReport | OtherReport nat

record SessReport =
  sr_SEID :: nat
  Reports :: "Report list"

section \<open>One-bit words\<close>

lemma rpt_has_bit: "ReportingTrigger_has r t \<longleftrightarrow> bit (rt_Flags r) (rpt_iota t)"
  by (simp add: ReportingTrigger_has_def RPT_TRIG_def and_exp_eq_0_iff_not_bit)

lemma usar_has_bit: "UsageReportTrigger_has u t \<longleftrightarrow> bit (ut_Flags u) (usar_iota t)"
  by (simp add: UsageReportTrigger_has_def USAR_TRIG_def and_exp_eq_0_iff_not_bit)

lemma act_has_bit: "ApplyAction_has a t \<longleftrightarrow> bit (aa_Flags a) (act_iota t)"
  by (simp add: ApplyAction_has_def APPLY_ACT_def and_exp_eq_0_iff_not_bit)

lemma rpt_iota_less: "rpt_iota t < 18"
  by (cases t) simp_all

lemma usar_iota_less: "usar_iota t < 22"
  by (cases t) simp_all

lemma usar_iota_inj: "usar_iota t = usar_iota u \<longleftrightarrow> t = u"
  by (cases t; cases u) simp_all

lemma pow2_inj:
  assumes "2 ^ m = (2 ^ n :: u32)" and "m < 32" and "n < 32"
  shows "m = n"
proof -
  have "bit (2 ^ m :: u32) n" using assms by (simp add: bit_exp_iff)
  then show ?thesis by (simp add: bit_exp_iff)
qed

lemma RPT_TRIG_inj: "RPT_TRIG t = RPT_TRIG u \<longleftrightarrow> t = u"
proof -
  have "rpt_iota t = rpt_iota u \<longleftrightarrow> t = u" by (cases t; cases u) simp_all
  then show ?thesis
    using pow2_inj [of "rpt_iota t" "rpt_iota u"] rpt_iota_less [of t] rpt_iota_less [of u]
    by (auto simp: RPT_TRIG_def)
qed

lemma bit_or_USAR_TRIG:
  "bit (w OR USAR_TRIG u) (usar_iota t) \<longleftrightarrow> bit w (usar_iota t) \<or> t = u"
  using usar_iota_less [of t]
  by (auto simp: USAR_TRIG_def bit_or_iff bit_exp_iff usar_iota_inj)

lemma of_le32_bit:
  assumes "n < 32"
  shows "bit (of_le32 a b c d) n \<longleftrightarrow>
    (if n < 8 then bit a n else if n < 16 then bit b (n - 8)
     else if n < 24 then bit c (n - 16) else bit d (n - 24))"
proof -
  have "\<not> bit x m" if "8 \<le> m" for x :: u8 and m
    using that bit_imp_le_length [of x m] by auto
  with assms show ?thesis
    by (auto simp: of_le32_def bit_or_iff bit_push_bit_iff bit_ucast_iff)
qed

lemma le32_of_le32:
  "le32 (of_le32 a b c d) = [a, b, c, d]"
proof -
  have "ucast (of_le32 a b c d) = a"
    by (rule bit_word_eqI) (auto simp: bit_ucast_iff of_le32_bit)
  moreover have "ucast (drop_bit 8 (of_le32 a b c d)) = b"
    by (rule bit_word_eqI) (auto simp: bit_ucast_iff bit_drop_bit_eq of_le32_bit)
  moreover have "ucast (drop_bit 16 (of_le32 a b c d)) = c"
    by (rule bit_word_eqI) (auto simp: bit_ucast_iff bit_drop_bit_eq of_le32_bit)
  moreover have "ucast (drop_bit 24 (of_le32 a b c d)) = d"
    by (rule bit_word_eqI) (auto simp: bit_ucast_iff bit_drop_bit_eq of_le32_bit)
  ultimately show ?thesis by (simp add: le32_def)
qed

text \<open>The usage report trigger that the switch of \<open>SetReportingTrigger\<close> has for a trigger.\<close>

fun usar_of :: "rpt_trig \<Rightarrow> usar_trig option" where
  "usar_of R_PERIO = Some U_PERIO" | "usar_of R_VOLTH = Some U_VOLTH"
| "usar_of R_TIMTH = Some U_TIMTH" | "usar_of R_QUHTI = Some U_QUHTI"
| "usar_of R_START = Some U_START" | "usar_of R_STOPT = Some U_STOPT"
| "usar_of R_DROTH = Some U_DROTH" | "usar_of R_LIUSA = Some U_LIUSA"
| "usar_of R_VOLQU = Some U_VOLQU" | "usar_of R_TIMQU = Some U_TIMQU"
| "usar_of R_ENVCL = Some U_ENVCL" | "usar_of R_MACAR = Some U_MACAR"
| "usar_of R_EVETH = Some U_EVETH" | "usar_of R_EVEQU = Some U_EVEQU"
| "usar_of R_IPMJL = Some U_IPMJL" | "usar_of R_QUVTI = Some U_QUVTI"
| "usar_of R_REEMR = None" | "usar_of R_UPINT = Some U_UPINT"

lemma SetReportingTrigger_single:
  "ut_Flags (SetReportingTrigger (RPT_TRIG t) u) =
    (case usar_of t of None \<Rightarrow> ut_Flags u | Some x \<Rightarrow> ut_Flags u OR USAR_TRIG x)"
  by (cases t) (simp_all add: SetReportingTrigger_def RPT_TRIG_inj)

lemma SetReportingTrigger_other:
  "(\<And>t. r \<noteq> RPT_TRIG t) \<Longrightarrow> SetReportingTrigger r u = u"
  by (simp add: SetReportingTrigger_def)

section \<open>Properties\<close>

text \<open>
  The wire form of reporting triggers: the two or three bytes of the information element
  are decoded so that trigger bit number \<open>i\<close> is bit \<open>i mod 8\<close> of byte \<open>i div 8\<close> (absent bytes
  are zero), encoding what was decoded gives the bytes back, padded to three, and fewer than
  two bytes are an error.
\<close>

theorem ReportingTrigger_roundtrip:
  assumes "length b \<le> 3"
  shows "if length b < 2 then ReportingTrigger_Unmarshal b = None
    else \<exists>r. ReportingTrigger_Unmarshal b = Some r
      \<and> ReportingTrigger_IE r = b @ replicate (3 - length b) 0
      \<and> (\<forall>t. ReportingTrigger_has r t \<longleftrightarrow>
           rpt_iota t div 8 < length b \<and> bit (b ! (rpt_iota t div 8)) (rpt_iota t mod 8))"
proof -
  consider "length b < 2" | x y where "b = [x, y]" | x y z where "b = [x, y, z]"
    using assms by (cases b; cases "tl b"; cases "tl (tl b)") auto
  then show ?thesis
  proof cases
    case 1
    then show ?thesis by (simp add: ReportingTrigger_Unmarshal_def)
  next
    case 2
    have "bit (of_le32 x y 0 0) (rpt_iota t) \<longleftrightarrow>
        rpt_iota t div 8 < 2 \<and> bit ([x, y] ! (rpt_iota t div 8)) (rpt_iota t mod 8)" for t
      by (cases t) (simp_all add: of_le32_bit)
    with 2 show ?thesis
      by (simp add: ReportingTrigger_Unmarshal_def ReportingTrigger_IE_def le32_of_le32
          rpt_has_bit numeral_2_eq_2)
  next
    case 3
    have "bit (of_le32 x y z 0) (rpt_iota t) \<longleftrightarrow>
        rpt_iota t div 8 < 3 \<and> bit ([x, y, z] ! (rpt_iota t div 8)) (rpt_iota t mod 8)" for t
      by (cases t) (simp_all add: of_le32_bit)
    with 3 show ?thesis
      by (simp add: ReportingTrigger_Unmarshal_def ReportingTrigger_IE_def le32_of_le32
          rpt_has_bit numeral_3_eq_3 numeral_2_eq_2)
  qed
qed

theorem ReportingTrigger_roundtrip_witness:
  "\<exists>r. ReportingTrigger_Unmarshal [1, 2] = Some r \<and> ReportingTrigger_IE r = [1, 2, 0]
    \<and> ReportingTrigger_has r R_PERIO \<and> ReportingTrigger_has r R_TIMQU
    \<and> \<not> ReportingTrigger_has r R_VOLTH"
  using ReportingTrigger_roundtrip [of "[1, 2]"]
  by (auto simp: bit_1_iff numeral_2_eq_2 bit_word_iff_drop_bit_and)

text \<open>
  A reporting trigger reported by the data plane sets, in the usage report, the trigger
  of the same name and no other (the two words number them differently); the one exception is
  \<open>REEMR\<close>, which sets none, and a value that is not a single trigger bit sets none either.
\<close>

theorem SetReportingTrigger_by_name:
  "UsageReportTrigger_has (SetReportingTrigger r u) x \<longleftrightarrow>
     UsageReportTrigger_has u x \<or> (\<exists>t. r = RPT_TRIG t \<and> usar_of t = Some x)"
proof (cases "\<exists>t. r = RPT_TRIG t")
  case True
  then obtain t where t: "r = RPT_TRIG t" by blast
  show ?thesis
    by (cases "usar_of t")
      (auto simp: t usar_has_bit SetReportingTrigger_single bit_or_USAR_TRIG RPT_TRIG_inj)
next
  case False
  then have "SetReportingTrigger r u = u" by (intro SetReportingTrigger_other) auto
  with False show ?thesis by auto
qed

end
