(* ===== verification/Upf_Plan.thy ===== *)
theory Upf_Plan
  imports Upf_Report
begin

text \<open>
  The plans a PFCP request is turned into before anything is executed,
  \<open>NFs/upf/internal/forwarder/plan.go\<close>, the interface of the forwarding driver,
  \<open>forwarder/driver.go\<close>, and its empty implementation, \<open>forwarder/empty.go\<close>.

  An information element of a received request (\<open>*ie.IE\<close> of the go-pfcp library) is a value of a
  type parameter \<open>'ie\<close>; the accessors and constructors of go-pfcp that the UPF calls are fields of
  the record \<open>ie_api\<close>, a parameter of every definition that uses one. A nil pointer is \<open>None\<close>. A
  netlink attribute names its type by the constant of go-gtp5gnl the source uses. A SEID is a
  natural number: the code only compares SEIDs, converts slice lengths to them, and subtracts one
  from a SEID it has checked to be positive, so no \<open>uint64\<close> arithmetic here wraps.

  The driver is a record of functions over a driver state \<open>'d\<close> (the kernel's tables and the
  periodic timers for \<open>Gtp5g\<close>, nothing for \<open>Empty\<close>). The \<open>Build*\<close> methods of both drivers of the
  source read no state, so they are functions of their arguments. An error is \<open>None\<close>; the PFCP
  server only distinguishes nil from non-nil there.
\<close>

section \<open>Information elements\<close>

datatype ie_type =
  T_PDRID | T_Precedence | T_PDI | T_OuterHeaderRemoval | T_FARID | T_QERID | T_URRID
| T_SourceInterface | T_FTEID | T_NetworkInstance | T_UEIPAddress | T_SDFFilter | T_ApplicationID
| T_ApplyAction | T_ForwardingParameters | T_UpdateForwardingParameters | T_BARID
| T_DestinationInterface | T_OuterHeaderCreation | T_ForwardingPolicy | T_PFCPSMReqFlags
| T_QERCorrelationID | T_GateStatus | T_MBR | T_GBR | T_QFI | T_RQI | T_PagingPolicyIndicator
| T_MeasurementMethod | T_ReportingTriggers | T_MeasurementPeriod | T_MeasurementInformation
| T_VolumeThreshold | T_VolumeQuota | T_DownlinkDataNotificationDelay
| T_SuggestedBufferingPacketsCount | T_Other nat

record 'ie ie_api =
  ie_empty :: 'ie
  ie_Type :: "'ie \<Rightarrow> ie_type"
  ie_NodeID :: "'ie \<Rightarrow> string option"
  ie_FSEID :: "'ie \<Rightarrow> nat option"
  ie_RecoveryTimeStamp :: "'ie \<Rightarrow> int option"
  ie_CreatePDR :: "'ie option \<Rightarrow> 'ie list option"
  ie_PDI :: "'ie \<Rightarrow> 'ie list option"
  ie_UEIPAddress :: "'ie \<Rightarrow> bytes option"
  ie_PDRID :: "'ie \<Rightarrow> u16 option"
  ie_FARID :: "'ie \<Rightarrow> u32 option"
  ie_QERID :: "'ie \<Rightarrow> u32 option"
  ie_URRID :: "'ie \<Rightarrow> u32 option"
  ie_BARID :: "'ie \<Rightarrow> u8 option"
  ie_MeasureMethod :: "'ie option \<Rightarrow> MeasureMethod"
  ie_MeasureInfo :: "'ie \<Rightarrow> MeasureInformation"
  NewRemoveFAR :: "u32 \<Rightarrow> 'ie"
  NewRemoveQER :: "u32 \<Rightarrow> 'ie"
  NewRemoveURR :: "u32 \<Rightarrow> 'ie"
  NewRemoveBAR :: "u8 \<Rightarrow> 'ie"
  NewRemovePDR :: "u16 \<Rightarrow> 'ie"

text \<open>
  \<open>ie_MeasureMethod i\<close> is the triple \<open>i.HasDURAT()\<close>, \<open>i.HasVOLUM()\<close>, \<open>i.HasEVENT()\<close>, and
  \<open>ie_MeasureInfo i\<close> the flags \<open>i.HasMBQE()\<close>, ..., \<open>i.HasMNOP()\<close>, the only ones the source reads.
  \<open>ie_MeasureMethod\<close> and \<open>ie_CreatePDR\<close> are called on the pointer \<open>OriginalIE\<close> of a plan, which the
  source does not compare with nil, and so take an \<open>option\<close>.
\<close>

section \<open>Plans\<close>

datatype OpType = OpCreate | OpUpdate | OpRemove

datatype attr_value =
  AttrU8 u8 | AttrU16 u16 | AttrU32 u32 | AttrU64 u64 | AttrBytes bytes | AttrString string
| AttrList "(string \<times> attr_value) list"

type_synonym attrs = "(string \<times> attr_value) list"

record 'ie PDRPlan =
  pp_Op :: OpType
  pp_OID :: "nat list"
  pp_Attrs :: attrs
  pp_OriginalIE :: "'ie option"
  pp_PDRID :: u16
  pp_URRIDs :: "u32 list"

record 'ie FARPlan =
  fp_Op :: OpType
  fp_OID :: "nat list"
  fp_Attrs :: attrs
  fp_OriginalIE :: "'ie option"
  fp_FARID :: u32
  fp_ApplyAction :: "ApplyAction option"

record 'ie QERPlan =
  qp_Op :: OpType
  qp_OID :: "nat list"
  qp_Attrs :: attrs
  qp_OriginalIE :: "'ie option"
  qp_QERID :: u32

record 'ie URRPlan =
  up_Op :: OpType
  up_OID :: "nat list"
  up_Attrs :: attrs
  up_OriginalIE :: "'ie option"
  up_URRID :: u32
  up_MeasureMethod :: u8
  up_ReportingTrigger :: ReportingTrigger
  up_MeasurePeriod :: int
  up_MeasureInfoIE :: "'ie option"
  up_QueryURRID :: u32

record 'ie BARPlan =
  bp_Op :: OpType
  bp_OID :: "nat list"
  bp_Attrs :: attrs
  bp_OriginalIE :: "'ie option"
  bp_BARID :: u8

record 'ie ModificationPlan =
  mp_SEID :: nat
  CreateFARs :: "'ie FARPlan list"
  CreateQERs :: "'ie QERPlan list"
  CreateURRs :: "'ie URRPlan list"
  CreateBARs :: "'ie BARPlan list"
  CreatePDRs :: "'ie PDRPlan list"
  RemovePDRs :: "'ie PDRPlan list"
  RemoveBARs :: "'ie BARPlan list"
  RemoveURRs :: "'ie URRPlan list"
  RemoveQERs :: "'ie QERPlan list"
  RemoveFARs :: "'ie FARPlan list"
  UpdateFARs :: "'ie FARPlan list"
  UpdateQERs :: "'ie QERPlan list"
  UpdateURRs :: "'ie URRPlan list"
  UpdateBARs :: "'ie BARPlan list"
  UpdatePDRs :: "'ie PDRPlan list"
  QueryURRs :: "'ie URRPlan list"

definition NewModificationPlan :: "nat \<Rightarrow> 'ie ModificationPlan" where
  "NewModificationPlan seid =
     \<lparr>mp_SEID = seid,
      CreateFARs = [], CreateQERs = [], CreateURRs = [], CreateBARs = [], CreatePDRs = [],
      RemovePDRs = [], RemoveBARs = [], RemoveURRs = [], RemoveQERs = [], RemoveFARs = [],
      UpdateFARs = [], UpdateQERs = [], UpdateURRs = [], UpdateBARs = [], UpdatePDRs = [],
      QueryURRs = []\<rparr>"

definition HasCreateFAR :: "'ie ModificationPlan \<Rightarrow> u32 \<Rightarrow> bool" where
  "HasCreateFAR p farid = list_ex (\<lambda>f. fp_FARID f = farid) (CreateFARs p)"

definition HasCreateQER :: "'ie ModificationPlan \<Rightarrow> u32 \<Rightarrow> bool" where
  "HasCreateQER p qerid = list_ex (\<lambda>q. qp_QERID q = qerid) (CreateQERs p)"

definition HasCreateURR :: "'ie ModificationPlan \<Rightarrow> u32 \<Rightarrow> bool" where
  "HasCreateURR p urrid = list_ex (\<lambda>u. up_URRID u = urrid) (CreateURRs p)"

definition HasCreateBAR :: "'ie ModificationPlan \<Rightarrow> u8 \<Rightarrow> bool" where
  "HasCreateBAR p barid = list_ex (\<lambda>b. bp_BARID b = barid) (CreateBARs p)"

definition HasCreatePDR :: "'ie ModificationPlan \<Rightarrow> u16 \<Rightarrow> bool" where
  "HasCreatePDR p pdrid = list_ex (\<lambda>d. pp_PDRID d = pdrid) (CreatePDRs p)"

section \<open>The driver interface\<close>

text \<open>
  Executing a modification may empty packet queues of the session: when a FAR stops buffering, the
  driver pops the packets of its PDRs through \<open>PopBufPkt\<close> until a queue is empty. The queues are an
  argument of \<open>ExecuteModificationPlan\<close>, and the PDRs whose queues it empties are part of its result.
\<close>

record ('d, 'ie) Driver =
  QueryURR :: "'d \<Rightarrow> nat \<Rightarrow> u32 \<Rightarrow> USAReport list option \<times> 'd"
  BuildCreatePDRPlan :: "nat \<Rightarrow> 'ie \<Rightarrow> 'ie PDRPlan option"
  BuildUpdatePDRPlan :: "nat \<Rightarrow> 'ie \<Rightarrow> 'ie PDRPlan option"
  BuildRemovePDRPlan :: "nat \<Rightarrow> 'ie \<Rightarrow> 'ie PDRPlan option"
  BuildCreateFARPlan :: "nat \<Rightarrow> 'ie \<Rightarrow> 'ie FARPlan option"
  BuildUpdateFARPlan :: "nat \<Rightarrow> 'ie \<Rightarrow> 'ie FARPlan option"
  BuildRemoveFARPlan :: "nat \<Rightarrow> 'ie \<Rightarrow> 'ie FARPlan option"
  BuildCreateQERPlan :: "nat \<Rightarrow> 'ie \<Rightarrow> 'ie QERPlan option"
  BuildUpdateQERPlan :: "nat \<Rightarrow> 'ie \<Rightarrow> 'ie QERPlan option"
  BuildRemoveQERPlan :: "nat \<Rightarrow> 'ie \<Rightarrow> 'ie QERPlan option"
  BuildCreateURRPlan :: "nat \<Rightarrow> 'ie \<Rightarrow> 'ie URRPlan option"
  BuildUpdateURRPlan :: "nat \<Rightarrow> 'ie \<Rightarrow> 'ie URRPlan option"
  BuildRemoveURRPlan :: "nat \<Rightarrow> 'ie \<Rightarrow> 'ie URRPlan option"
  BuildQueryURRPlan :: "nat \<Rightarrow> 'ie \<Rightarrow> 'ie URRPlan option"
  BuildCreateBARPlan :: "nat \<Rightarrow> 'ie \<Rightarrow> 'ie BARPlan option"
  BuildUpdateBARPlan :: "nat \<Rightarrow> 'ie \<Rightarrow> 'ie BARPlan option"
  BuildRemoveBARPlan :: "nat \<Rightarrow> 'ie \<Rightarrow> 'ie BARPlan option"
  ExecuteModificationPlan :: "'d \<Rightarrow> 'ie ModificationPlan \<Rightarrow> (u16 \<Rightarrow> bytes list)
    \<Rightarrow> USAReport list option \<times> u16 list \<times> 'd"
  ExecuteEstablishmentPlan :: "'d \<Rightarrow> 'ie ModificationPlan \<Rightarrow> USAReport list option \<times> 'd"

section \<open>The empty driver\<close>

definition zero_PDRPlan :: "'ie PDRPlan" where
  "zero_PDRPlan = \<lparr>pp_Op = OpCreate, pp_OID = [], pp_Attrs = [], pp_OriginalIE = None,
     pp_PDRID = 0, pp_URRIDs = []\<rparr>"

definition zero_FARPlan :: "'ie FARPlan" where
  "zero_FARPlan = \<lparr>fp_Op = OpCreate, fp_OID = [], fp_Attrs = [], fp_OriginalIE = None,
     fp_FARID = 0, fp_ApplyAction = None\<rparr>"

definition zero_QERPlan :: "'ie QERPlan" where
  "zero_QERPlan = \<lparr>qp_Op = OpCreate, qp_OID = [], qp_Attrs = [], qp_OriginalIE = None, qp_QERID = 0\<rparr>"

definition zero_URRPlan :: "'ie URRPlan" where
  "zero_URRPlan = \<lparr>up_Op = OpCreate, up_OID = [], up_Attrs = [], up_OriginalIE = None, up_URRID = 0,
     up_MeasureMethod = 0, up_ReportingTrigger = \<lparr>rt_Flags = 0\<rparr>, up_MeasurePeriod = 0,
     up_MeasureInfoIE = None, up_QueryURRID = 0\<rparr>"

definition zero_BARPlan :: "'ie BARPlan" where
  "zero_BARPlan = \<lparr>bp_Op = OpCreate, bp_OID = [], bp_Attrs = [], bp_OriginalIE = None, bp_BARID = 0\<rparr>"

definition NewExecutionResult :: "USAReport list" where
  "NewExecutionResult = []"

definition Empty :: "(unit, 'ie) Driver" where
  "Empty =
     \<lparr>QueryURR = (\<lambda>d _ _. (Some [], d)),
      BuildCreatePDRPlan = (\<lambda>_ _. Some zero_PDRPlan),
      BuildUpdatePDRPlan = (\<lambda>_ _. Some zero_PDRPlan),
      BuildRemovePDRPlan = (\<lambda>_ _. Some zero_PDRPlan),
      BuildCreateFARPlan = (\<lambda>_ _. Some zero_FARPlan),
      BuildUpdateFARPlan = (\<lambda>_ _. Some zero_FARPlan),
      BuildRemoveFARPlan = (\<lambda>_ _. Some zero_FARPlan),
      BuildCreateQERPlan = (\<lambda>_ _. Some zero_QERPlan),
      BuildUpdateQERPlan = (\<lambda>_ _. Some zero_QERPlan),
      BuildRemoveQERPlan = (\<lambda>_ _. Some zero_QERPlan),
      BuildCreateURRPlan = (\<lambda>_ _. Some zero_URRPlan),
      BuildUpdateURRPlan = (\<lambda>_ _. Some zero_URRPlan),
      BuildRemoveURRPlan = (\<lambda>_ _. Some zero_URRPlan),
      BuildQueryURRPlan = (\<lambda>_ _. Some zero_URRPlan),
      BuildCreateBARPlan = (\<lambda>_ _. Some zero_BARPlan),
      BuildUpdateBARPlan = (\<lambda>_ _. Some zero_BARPlan),
      BuildRemoveBARPlan = (\<lambda>_ _. Some zero_BARPlan),
      ExecuteModificationPlan = (\<lambda>d _ _. (Some NewExecutionResult, [], d)),
      ExecuteEstablishmentPlan = (\<lambda>d _. (Some NewExecutionResult, d))\<rparr>"

lemma HasCreate_iff [simp]:
  "HasCreateFAR p i \<longleftrightarrow> i \<in> fp_FARID ` set (CreateFARs p)"
  "HasCreateQER p i \<longleftrightarrow> i \<in> qp_QERID ` set (CreateQERs p)"
  "HasCreateURR p i \<longleftrightarrow> i \<in> up_URRID ` set (CreateURRs p)"
  "HasCreateBAR p j \<longleftrightarrow> j \<in> bp_BARID ` set (CreateBARs p)"
  "HasCreatePDR p k \<longleftrightarrow> k \<in> pp_PDRID ` set (CreatePDRs p)"
  by (auto simp: HasCreateFAR_def HasCreateQER_def HasCreateURR_def HasCreateBAR_def
      HasCreatePDR_def list_ex_iff)

end
