(* ===== verification/Upf_Plain_Driver.thy ===== *)
theory Upf_Plain_Driver
  imports Upf_Plan
begin

text \<open>
  A small concrete forwarder over a small concrete set of information elements. It instantiates the
  two parameters of the UPF model (the go-pfcp accessors and the \<open>Driver\<close>) where a theorem about the
  UPF is applied to an example: a rule element carries the identifier of the rule and the URRs it
  names, the driver state is the list of the URRs queried so far, and a query returns one report. An
  update of a FAR empties the packet queue of the PDR with the same identifier.

  \<open>remove_plans_ok\<close> is what the clean-up of a session needs of a driver: the plan built from a
  \<open>Remove*\<close> element that the session has made itself is for the identifier in that element.
\<close>

datatype plain_ie =
  RuleIE u32 "u32 list" | NodeIE string | SeidIE nat | TimeIE int | EmptyIE

definition plain_api :: "plain_ie ie_api" where
  "plain_api =
     \<lparr>ie_empty = EmptyIE,
      ie_Type = (\<lambda>_. T_Other 0),
      ie_NodeID = (\<lambda>i. case i of NodeIE n \<Rightarrow> Some n | _ \<Rightarrow> None),
      ie_FSEID = (\<lambda>i. case i of SeidIE n \<Rightarrow> Some n | _ \<Rightarrow> None),
      ie_RecoveryTimeStamp = (\<lambda>i. case i of TimeIE t \<Rightarrow> Some t | _ \<Rightarrow> None),
      ie_CreatePDR = (\<lambda>_. None), ie_PDI = (\<lambda>_. None), ie_UEIPAddress = (\<lambda>_. None),
      ie_PDRID = (\<lambda>i. case i of RuleIE r _ \<Rightarrow> Some (ucast r) | _ \<Rightarrow> None),
      ie_FARID = (\<lambda>i. case i of RuleIE r _ \<Rightarrow> Some r | _ \<Rightarrow> None),
      ie_QERID = (\<lambda>i. case i of RuleIE r _ \<Rightarrow> Some r | _ \<Rightarrow> None),
      ie_URRID = (\<lambda>i. case i of RuleIE r _ \<Rightarrow> Some r | _ \<Rightarrow> None),
      ie_BARID = (\<lambda>i. case i of RuleIE r _ \<Rightarrow> Some (ucast r) | _ \<Rightarrow> None),
      ie_MeasureMethod = (\<lambda>_. \<lparr>DURAT = False, VOLUM = True, EVENT = False\<rparr>),
      ie_MeasureInfo = (\<lambda>_. \<lparr>MBQE = False, INAM = False, RADI = False, ISTM = False, MNOP = True,
        SSPOC = False, ASPOC = False, CIAM = False\<rparr>),
      NewRemoveFAR = (\<lambda>i. RuleIE i []), NewRemoveQER = (\<lambda>i. RuleIE i []),
      NewRemoveURR = (\<lambda>i. RuleIE i []), NewRemoveBAR = (\<lambda>i. RuleIE (ucast i) []),
      NewRemovePDR = (\<lambda>i. RuleIE (ucast i) [])\<rparr>"

definition plain_usar :: "u32 \<Rightarrow> USAReport" where
  "plain_usar u =
     \<lparr>ur_URRID = u, URSEQN = 0, USARTrigger = \<lparr>ut_Flags = 0\<rparr>,
      VolumMeasure = \<lparr>vm_Flags = 0, TotalVolume = 0, UplinkVolume = 0, DownlinkVolume = 0,
        TotalPktNum = 0, UplinkPktNum = 0, DownlinkPktNum = 0\<rparr>,
      DuratMeasure = \<lparr>DurationValue = 0\<rparr>, QueryUrrRef = 0, StartTime = 0, EndTime = 0\<rparr>"

definition plain_pdr :: "nat \<Rightarrow> plain_ie \<Rightarrow> plain_ie PDRPlan option" where
  "plain_pdr seid i = (case i of RuleIE r us \<Rightarrow>
     Some (zero_PDRPlan\<lparr>pp_PDRID := ucast r, pp_URRIDs := us, pp_OriginalIE := Some i\<rparr>) | _ \<Rightarrow> None)"

definition plain_far :: "nat \<Rightarrow> plain_ie \<Rightarrow> plain_ie FARPlan option" where
  "plain_far seid i = (case i of RuleIE r us \<Rightarrow> Some (zero_FARPlan\<lparr>fp_FARID := r\<rparr>) | _ \<Rightarrow> None)"

definition plain_qer :: "nat \<Rightarrow> plain_ie \<Rightarrow> plain_ie QERPlan option" where
  "plain_qer seid i = (case i of RuleIE r us \<Rightarrow> Some (zero_QERPlan\<lparr>qp_QERID := r\<rparr>) | _ \<Rightarrow> None)"

definition plain_urr :: "nat \<Rightarrow> plain_ie \<Rightarrow> plain_ie URRPlan option" where
  "plain_urr seid i = (case i of RuleIE r us \<Rightarrow>
     Some (zero_URRPlan\<lparr>up_URRID := r, up_QueryURRID := r\<rparr>) | _ \<Rightarrow> None)"

definition plain_bar :: "nat \<Rightarrow> plain_ie \<Rightarrow> plain_ie BARPlan option" where
  "plain_bar seid i = (case i of RuleIE r us \<Rightarrow> Some (zero_BARPlan\<lparr>bp_BARID := ucast r\<rparr>) | _ \<Rightarrow> None)"

definition plain_driver :: "(u32 list, plain_ie) Driver" where
  "plain_driver =
     \<lparr>QueryURR = (\<lambda>d _ u. (Some [plain_usar u], u # d)),
      BuildCreatePDRPlan = plain_pdr, BuildUpdatePDRPlan = plain_pdr, BuildRemovePDRPlan = plain_pdr,
      BuildCreateFARPlan = plain_far, BuildUpdateFARPlan = plain_far, BuildRemoveFARPlan = plain_far,
      BuildCreateQERPlan = plain_qer, BuildUpdateQERPlan = plain_qer, BuildRemoveQERPlan = plain_qer,
      BuildCreateURRPlan = plain_urr, BuildUpdateURRPlan = plain_urr, BuildRemoveURRPlan = plain_urr,
      BuildQueryURRPlan = plain_urr,
      BuildCreateBARPlan = plain_bar, BuildUpdateBARPlan = plain_bar, BuildRemoveBARPlan = plain_bar,
      ExecuteModificationPlan = (\<lambda>d plan bufs. (Some (map (\<lambda>p. plain_usar (up_URRID p)) (RemoveURRs plan)),
        map (\<lambda>p. ucast (fp_FARID p)) (UpdateFARs plan), d)),
      ExecuteEstablishmentPlan = (\<lambda>d plan. (Some [], d))\<rparr>"

lemmas plain_defs = plain_api_def plain_driver_def plain_pdr_def plain_far_def plain_qer_def
  plain_urr_def plain_bar_def zero_PDRPlan_def zero_FARPlan_def zero_QERPlan_def zero_URRPlan_def
  zero_BARPlan_def

definition remove_plans_ok :: "('d, 'ie) Driver \<Rightarrow> 'ie ie_api \<Rightarrow> bool" where
  "remove_plans_ok drv api \<longleftrightarrow>
     (\<forall>seid i. map_option fp_FARID (BuildRemoveFARPlan drv seid (NewRemoveFAR api i)) = Some i)
   \<and> (\<forall>seid i. map_option qp_QERID (BuildRemoveQERPlan drv seid (NewRemoveQER api i)) = Some i)
   \<and> (\<forall>seid i. map_option up_URRID (BuildRemoveURRPlan drv seid (NewRemoveURR api i)) = Some i)
   \<and> (\<forall>seid i. map_option bp_BARID (BuildRemoveBARPlan drv seid (NewRemoveBAR api i)) = Some i)
   \<and> (\<forall>seid i. map_option pp_PDRID (BuildRemovePDRPlan drv seid (NewRemovePDR api i)) = Some i)"

lemma plain_remove_plans_ok: "remove_plans_ok plain_driver plain_api"
  by (simp add: remove_plans_ok_def plain_defs)

end
