(* ===== verification/Upf_Session.thy ===== *)
theory Upf_Session
  imports Upf_Plain_Driver
begin

unbundle bit_operations_syntax

text \<open>
  A PFCP session of the UPF, the type \<open>Sess\<close> of \<open>NFs/upf/internal/pfcp/node.go\<close>: the rule
  identifiers it holds, the reference counts that tie usage reporting rules (URRs) to packet
  detection rules (PDRs), and the queues of buffered packets.

  The methods are functions that return the changed session; those that call the driver also
  take and return the driver state. \<open>Validate*\<close> return \<open>Inl\<close> with the source's error value. A
  channel is the list of its packets with a flag that it is closed; a send on a closed channel
  panics (\<open>None\<close>). The loops over \<open>RelatedURRIDs\<close> and the rule maps follow the convention of
  \<open>Go_Prelude\<close> for \<open>range\<close>.

  \<open>s_rnode\<close> is the address of the session's remote node (\<open>None\<close> is nil). Every remote node has the
  same driver, so the driver is an argument and not a field.

  \<open>refs_ok\<close> is the invariant behind the final usage report: the counter of a URR is the number of
  PDRs that name it.
\<close>

section \<open>State\<close>

record PDRInfo =
  RelatedURRIDs :: "u32 list"

record URRInfo =
  removed :: bool
  SEQN :: u32
  ui_Method :: MeasureMethod
  ui_Info :: MeasureInformation
  refPdrNum :: u16

type_synonym chan = "bytes list \<times> bool"

record Sess =
  s_rnode :: "nat option"
  LocalID :: nat
  RemoteID :: nat
  PDRIDs :: "(u16, PDRInfo) gomap"
  FARIDs :: "u32 list"
  QERIDs :: "u32 list"
  URRIDs :: "(u32, URRInfo) gomap"
  BARIDs :: "u8 list"
  s_q :: "(u16, chan) gomap"
  s_qlen :: nat

datatype pfcp_error =
  ErrMissingMandatoryIE | ErrMissingConditionalIE | ErrRuleNotFound
| ErrRuleCreationModificationFailed | ErrMutualExclusionConflict

definition BUFFQ_LEN :: nat where
  "BUFFQ_LEN = 512"

text \<open>The literal \<open>&Sess{...}\<close> of \<open>LocalNode.NewSess\<close>.\<close>

definition empty_sess :: "nat option \<Rightarrow> nat \<Rightarrow> nat \<Rightarrow> nat \<Rightarrow> Sess" where
  "empty_sess rnode lid rid qlen =
     \<lparr>s_rnode = rnode, LocalID = lid, RemoteID = rid, PDRIDs = [], FARIDs = [], QERIDs = [],
      URRIDs = [], BARIDs = [], s_q = [], s_qlen = qlen\<rparr>"

section \<open>Usage reports of a session\<close>

definition set_trigger :: "usar_trig \<Rightarrow> USAReport \<Rightarrow> USAReport" where
  "set_trigger t r =
     r\<lparr>USARTrigger := \<lparr>ut_Flags = ut_Flags (USARTrigger r) OR USAR_TRIG t\<rparr>\<rparr>"

definition diassociateURR ::
  "('d, 'ie) Driver \<Rightarrow> u32 \<Rightarrow> Sess \<Rightarrow> 'd \<Rightarrow> USAReport list \<times> Sess \<times> 'd" where
  "diassociateURR drv urrid s d =
     (case map_of (URRIDs s) urrid of
        None \<Rightarrow> ([], s, d)
      | Some info \<Rightarrow>
          if refPdrNum info > 0 then
            let info' = info\<lparr>refPdrNum := refPdrNum info - 1\<rparr>;
                s' = s\<lparr>URRIDs := mput urrid info' (URRIDs s)\<rparr>
            in if refPdrNum info' = 0 then
                 (case QueryURR drv d (LocalID s) urrid of
                    (None, d') \<Rightarrow> ([], s', d')
                  | (Some usars, d') \<Rightarrow> (map (set_trigger U_TERMR) usars, s', d'))
               else ([], s', d)
          else ([], s, d))"

fun diassociate_all ::
  "('d, 'ie) Driver \<Rightarrow> u32 list \<Rightarrow> Sess \<Rightarrow> 'd \<Rightarrow> USAReport list \<times> Sess \<times> 'd" where
  "diassociate_all drv [] s d = ([], s, d)"
| "diassociate_all drv (u # us) s d =
     (let (r, s1, d1) = diassociateURR drv u s d;
          (rs, s2, d2) = diassociate_all drv us s1 d1
      in (r @ rs, s2, d2))"

definition URRSeq :: "u32 \<Rightarrow> Sess \<Rightarrow> u32 \<times> Sess" where
  "URRSeq urrid s =
     (case map_of (URRIDs s) urrid of
        None \<Rightarrow> (0, s)
      | Some info \<Rightarrow>
          (SEQN info, s\<lparr>URRIDs := mput urrid (info\<lparr>SEQN := SEQN info + 1\<rparr>) (URRIDs s)\<rparr>))"

section \<open>Buffered packets\<close>

definition Push :: "u16 \<Rightarrow> bytes \<Rightarrow> Sess \<Rightarrow> Sess option" where
  "Push pdrid p s =
     (let s1 = (if map_of (s_q s) pdrid = None
                then s\<lparr>s_q := mput pdrid ([], False) (s_q s)\<rparr> else s)
      in case map_of (s_q s1) pdrid of
           None \<Rightarrow> None
         | Some (ps, closed) \<Rightarrow>
             if closed then None
             else if length ps < s_qlen s1
             then Some (s1\<lparr>s_q := mput pdrid (ps @ [p], False) (s_q s1)\<rparr>)
             else Some s1)"

definition Len :: "u16 \<Rightarrow> Sess \<Rightarrow> nat" where
  "Len pdrid s = (case map_of (s_q s) pdrid of None \<Rightarrow> 0 | Some (ps, _) \<Rightarrow> length ps)"

definition Pop :: "u16 \<Rightarrow> Sess \<Rightarrow> (bytes \<times> bool) \<times> Sess" where
  "Pop pdrid s =
     (case map_of (s_q s) pdrid of
        None \<Rightarrow> (([], False), s)
      | Some (p # ps, closed) \<Rightarrow> ((p, True), s\<lparr>s_q := mput pdrid (ps, closed) (s_q s)\<rparr>)
      | Some ([], closed) \<Rightarrow> (([], closed), s))"

text \<open>
  The packets of a queue, and popping all packets of the queues that the driver empties: the loop
  \<open>for { pkt, ok := Pop(pdrid); if !ok { break } }\<close> of the driver, which ends with the queue empty (\<open>drain_q_Pop\<close>).
\<close>

definition q_items :: "u16 \<Rightarrow> Sess \<Rightarrow> bytes list" where
  "q_items pdrid s = (case map_of (s_q s) pdrid of None \<Rightarrow> [] | Some (ps, _) \<Rightarrow> ps)"

definition drain_q :: "u16 \<Rightarrow> Sess \<Rightarrow> Sess" where
  "drain_q pdrid s =
     (case map_of (s_q s) pdrid of
        None \<Rightarrow> s
      | Some (ps, closed) \<Rightarrow> s\<lparr>s_q := mput pdrid ([], closed) (s_q s)\<rparr>)"

section \<open>Validation\<close>

definition ValidateCreatePDR ::
  "('d, 'ie) Driver \<Rightarrow> Sess \<Rightarrow> 'ie \<Rightarrow> 'ie ModificationPlan \<Rightarrow> pfcp_error + 'ie PDRPlan" where
  "ValidateCreatePDR drv s req modPlan =
     (case BuildCreatePDRPlan drv (LocalID s) req of
        None \<Rightarrow> Inl ErrRuleCreationModificationFailed
      | Some plan \<Rightarrow>
          if list_ex (\<lambda>u. map_of (URRIDs s) u = None \<and> \<not> HasCreateURR modPlan u) (pp_URRIDs plan)
          then Inl ErrRuleCreationModificationFailed else Inr plan)"

definition ValidateUpdatePDR ::
  "('d, 'ie) Driver \<Rightarrow> Sess \<Rightarrow> 'ie \<Rightarrow> 'ie ModificationPlan \<Rightarrow> pfcp_error + 'ie PDRPlan" where
  "ValidateUpdatePDR drv s req modPlan =
     (case BuildUpdatePDRPlan drv (LocalID s) req of
        None \<Rightarrow> Inl ErrMissingMandatoryIE
      | Some plan \<Rightarrow>
          if map_of (PDRIDs s) (pp_PDRID plan) = None \<and> \<not> HasCreatePDR modPlan (pp_PDRID plan)
          then Inl ErrRuleNotFound else Inr plan)"

definition ValidateRemovePDR ::
  "('d, 'ie) Driver \<Rightarrow> Sess \<Rightarrow> 'ie \<Rightarrow> 'ie ModificationPlan \<Rightarrow> pfcp_error + 'ie PDRPlan" where
  "ValidateRemovePDR drv s req modPlan =
     (case BuildRemovePDRPlan drv (LocalID s) req of
        None \<Rightarrow> Inl ErrMissingMandatoryIE
      | Some plan \<Rightarrow>
          if map_of (PDRIDs s) (pp_PDRID plan) = None \<and> \<not> HasCreatePDR modPlan (pp_PDRID plan)
          then Inl ErrRuleNotFound else Inr plan)"

definition ValidateCreateFAR ::
  "('d, 'ie) Driver \<Rightarrow> Sess \<Rightarrow> 'ie \<Rightarrow> pfcp_error + 'ie FARPlan" where
  "ValidateCreateFAR drv s req =
     (case BuildCreateFARPlan drv (LocalID s) req of
        None \<Rightarrow> Inl ErrMissingMandatoryIE | Some plan \<Rightarrow> Inr plan)"

definition ValidateUpdateFAR ::
  "('d, 'ie) Driver \<Rightarrow> Sess \<Rightarrow> 'ie \<Rightarrow> 'ie ModificationPlan \<Rightarrow> pfcp_error + 'ie FARPlan" where
  "ValidateUpdateFAR drv s req modPlan =
     (case BuildUpdateFARPlan drv (LocalID s) req of
        None \<Rightarrow> Inl ErrMissingMandatoryIE
      | Some plan \<Rightarrow>
          if fp_FARID plan \<notin> set (FARIDs s) \<and> \<not> HasCreateFAR modPlan (fp_FARID plan)
          then Inl ErrRuleNotFound else Inr plan)"

definition ValidateRemoveFAR ::
  "('d, 'ie) Driver \<Rightarrow> Sess \<Rightarrow> 'ie \<Rightarrow> 'ie ModificationPlan \<Rightarrow> pfcp_error + 'ie FARPlan" where
  "ValidateRemoveFAR drv s req modPlan =
     (case BuildRemoveFARPlan drv (LocalID s) req of
        None \<Rightarrow> Inl ErrMissingMandatoryIE
      | Some plan \<Rightarrow>
          if fp_FARID plan \<notin> set (FARIDs s) \<and> \<not> HasCreateFAR modPlan (fp_FARID plan)
          then Inl ErrRuleNotFound else Inr plan)"

definition ValidateCreateQER ::
  "('d, 'ie) Driver \<Rightarrow> Sess \<Rightarrow> 'ie \<Rightarrow> pfcp_error + 'ie QERPlan" where
  "ValidateCreateQER drv s req =
     (case BuildCreateQERPlan drv (LocalID s) req of
        None \<Rightarrow> Inl ErrMissingMandatoryIE | Some plan \<Rightarrow> Inr plan)"

definition ValidateUpdateQER ::
  "('d, 'ie) Driver \<Rightarrow> Sess \<Rightarrow> 'ie \<Rightarrow> 'ie ModificationPlan \<Rightarrow> pfcp_error + 'ie QERPlan" where
  "ValidateUpdateQER drv s req modPlan =
     (case BuildUpdateQERPlan drv (LocalID s) req of
        None \<Rightarrow> Inl ErrMissingMandatoryIE
      | Some plan \<Rightarrow>
          if qp_QERID plan \<notin> set (QERIDs s) \<and> \<not> HasCreateQER modPlan (qp_QERID plan)
          then Inl ErrRuleNotFound else Inr plan)"

definition ValidateRemoveQER ::
  "('d, 'ie) Driver \<Rightarrow> Sess \<Rightarrow> 'ie \<Rightarrow> 'ie ModificationPlan \<Rightarrow> pfcp_error + 'ie QERPlan" where
  "ValidateRemoveQER drv s req modPlan =
     (case BuildRemoveQERPlan drv (LocalID s) req of
        None \<Rightarrow> Inl ErrMissingMandatoryIE
      | Some plan \<Rightarrow>
          if qp_QERID plan \<notin> set (QERIDs s) \<and> \<not> HasCreateQER modPlan (qp_QERID plan)
          then Inl ErrRuleNotFound else Inr plan)"

definition ValidateCreateURR ::
  "('d, 'ie) Driver \<Rightarrow> Sess \<Rightarrow> 'ie \<Rightarrow> pfcp_error + 'ie URRPlan" where
  "ValidateCreateURR drv s req =
     (case BuildCreateURRPlan drv (LocalID s) req of
        None \<Rightarrow> Inl ErrMissingMandatoryIE | Some plan \<Rightarrow> Inr plan)"

definition ValidateUpdateURR ::
  "('d, 'ie) Driver \<Rightarrow> Sess \<Rightarrow> 'ie \<Rightarrow> 'ie ModificationPlan \<Rightarrow> pfcp_error + 'ie URRPlan" where
  "ValidateUpdateURR drv s req modPlan =
     (case BuildUpdateURRPlan drv (LocalID s) req of
        None \<Rightarrow> Inl ErrMissingMandatoryIE
      | Some plan \<Rightarrow>
          if map_of (URRIDs s) (up_URRID plan) = None \<and> \<not> HasCreateURR modPlan (up_URRID plan)
          then Inl ErrRuleNotFound else Inr plan)"

definition ValidateRemoveURR ::
  "('d, 'ie) Driver \<Rightarrow> Sess \<Rightarrow> 'ie \<Rightarrow> 'ie ModificationPlan \<Rightarrow> pfcp_error + 'ie URRPlan" where
  "ValidateRemoveURR drv s req modPlan =
     (case BuildRemoveURRPlan drv (LocalID s) req of
        None \<Rightarrow> Inl ErrMissingMandatoryIE
      | Some plan \<Rightarrow>
          if map_of (URRIDs s) (up_URRID plan) = None \<and> \<not> HasCreateURR modPlan (up_URRID plan)
          then Inl ErrRuleNotFound else Inr plan)"

definition ValidateQueryURR ::
  "('d, 'ie) Driver \<Rightarrow> Sess \<Rightarrow> 'ie \<Rightarrow> 'ie ModificationPlan \<Rightarrow> pfcp_error + 'ie URRPlan" where
  "ValidateQueryURR drv s req modPlan =
     (case BuildQueryURRPlan drv (LocalID s) req of
        None \<Rightarrow> Inl ErrMissingMandatoryIE
      | Some plan \<Rightarrow>
          if map_of (URRIDs s) (up_QueryURRID plan) = None
             \<and> \<not> HasCreateURR modPlan (up_QueryURRID plan)
          then Inl ErrRuleNotFound else Inr plan)"

definition ValidateCreateBAR ::
  "('d, 'ie) Driver \<Rightarrow> Sess \<Rightarrow> 'ie \<Rightarrow> pfcp_error + 'ie BARPlan" where
  "ValidateCreateBAR drv s req =
     (case BuildCreateBARPlan drv (LocalID s) req of
        None \<Rightarrow> Inl ErrMissingMandatoryIE | Some plan \<Rightarrow> Inr plan)"

definition ValidateUpdateBAR ::
  "('d, 'ie) Driver \<Rightarrow> Sess \<Rightarrow> 'ie \<Rightarrow> 'ie ModificationPlan \<Rightarrow> pfcp_error + 'ie BARPlan" where
  "ValidateUpdateBAR drv s req modPlan =
     (case BuildUpdateBARPlan drv (LocalID s) req of
        None \<Rightarrow> Inl ErrMissingMandatoryIE
      | Some plan \<Rightarrow>
          if bp_BARID plan \<notin> set (BARIDs s) \<and> \<not> HasCreateBAR modPlan (bp_BARID plan)
          then Inl ErrRuleNotFound else Inr plan)"

definition ValidateRemoveBAR ::
  "('d, 'ie) Driver \<Rightarrow> Sess \<Rightarrow> 'ie \<Rightarrow> 'ie ModificationPlan \<Rightarrow> pfcp_error + 'ie BARPlan" where
  "ValidateRemoveBAR drv s req modPlan =
     (case BuildRemoveBARPlan drv (LocalID s) req of
        None \<Rightarrow> Inl ErrMissingMandatoryIE
      | Some plan \<Rightarrow>
          if bp_BARID plan \<notin> set (BARIDs s) \<and> \<not> HasCreateBAR modPlan (bp_BARID plan)
          then Inl ErrRuleNotFound else Inr plan)"

section \<open>Applying a plan\<close>

text \<open>The loop of \<open>ApplyCreatePDR\<close>: the set of URRs and the incremented counters.\<close>

fun bump_refs :: "u32 list \<Rightarrow> u32 list \<Rightarrow> (u32, URRInfo) gomap \<Rightarrow> u32 list \<times> (u32, URRInfo) gomap" where
  "bump_refs [] urrids m = (urrids, m)"
| "bump_refs (u # us) urrids m =
     bump_refs us (List.insert u urrids)
       (case map_of m u of
          None \<Rightarrow> m
        | Some info \<Rightarrow> mput u (info\<lparr>refPdrNum := refPdrNum info + 1\<rparr>) m)"

definition ApplyCreatePDR :: "'ie PDRPlan \<Rightarrow> Sess \<Rightarrow> Sess" where
  "ApplyCreatePDR plan s =
     (let (urrids, m) = bump_refs (pp_URRIDs plan) [] (URRIDs s)
      in s\<lparr>URRIDs := m, PDRIDs := mput (pp_PDRID plan) \<lparr>RelatedURRIDs = urrids\<rparr> (PDRIDs s)\<rparr>)"

definition ApplyUpdatePDR ::
  "('d, 'ie) Driver \<Rightarrow> 'ie PDRPlan \<Rightarrow> Sess \<Rightarrow> 'd \<Rightarrow> USAReport list \<times> Sess \<times> 'd" where
  "ApplyUpdatePDR drv plan s d =
     (case map_of (PDRIDs s) (pp_PDRID plan) of
        None \<Rightarrow> ([], s, d)
      | Some pdrInfo \<Rightarrow>
          let newUrrids = fold List.insert (pp_URRIDs plan) [];
              gone = filter (\<lambda>u. u \<notin> set newUrrids) (RelatedURRIDs pdrInfo);
              (usars, s1, d1) = diassociate_all drv gone s d
          in (usars,
              s1\<lparr>PDRIDs := mput (pp_PDRID plan) (pdrInfo\<lparr>RelatedURRIDs := newUrrids\<rparr>) (PDRIDs s1)\<rparr>,
              d1))"

definition ApplyRemovePDR ::
  "('d, 'ie) Driver \<Rightarrow> 'ie PDRPlan \<Rightarrow> Sess \<Rightarrow> 'd \<Rightarrow> USAReport list \<times> Sess \<times> 'd" where
  "ApplyRemovePDR drv plan s d =
     (case map_of (PDRIDs s) (pp_PDRID plan) of
        None \<Rightarrow> ([], s, d)
      | Some pdrInfo \<Rightarrow>
          let (usars, s1, d1) = diassociate_all drv (RelatedURRIDs pdrInfo) s d
          in (usars, s1\<lparr>PDRIDs := mdel (pp_PDRID plan) (PDRIDs s1)\<rparr>, d1))"

definition ApplyCreateFAR :: "'ie FARPlan \<Rightarrow> Sess \<Rightarrow> Sess" where
  "ApplyCreateFAR plan s = s\<lparr>FARIDs := List.insert (fp_FARID plan) (FARIDs s)\<rparr>"

definition ApplyRemoveFAR :: "'ie FARPlan \<Rightarrow> Sess \<Rightarrow> Sess" where
  "ApplyRemoveFAR plan s = s\<lparr>FARIDs := removeAll (fp_FARID plan) (FARIDs s)\<rparr>"

definition ApplyCreateQER :: "'ie QERPlan \<Rightarrow> Sess \<Rightarrow> Sess" where
  "ApplyCreateQER plan s = s\<lparr>QERIDs := List.insert (qp_QERID plan) (QERIDs s)\<rparr>"

definition ApplyRemoveQER :: "'ie QERPlan \<Rightarrow> Sess \<Rightarrow> Sess" where
  "ApplyRemoveQER plan s = s\<lparr>QERIDs := removeAll (qp_QERID plan) (QERIDs s)\<rparr>"

definition ApplyCreateURR :: "'ie ie_api \<Rightarrow> 'ie URRPlan \<Rightarrow> Sess \<Rightarrow> Sess" where
  "ApplyCreateURR api plan s =
     (let mInfo = (case up_MeasureInfoIE plan of None \<Rightarrow> ie_empty api | Some i \<Rightarrow> i);
          fl = ie_MeasureInfo api mInfo
      in s\<lparr>URRIDs := mput (up_URRID plan)
            \<lparr>removed = False, SEQN = 0,
             ui_Method = ie_MeasureMethod api (up_OriginalIE plan),
             ui_Info = \<lparr>MBQE = MBQE fl, INAM = INAM fl, RADI = RADI fl, ISTM = ISTM fl,
                        MNOP = MNOP fl, SSPOC = False, ASPOC = False, CIAM = False\<rparr>,
             refPdrNum = 0\<rparr> (URRIDs s)\<rparr>)"

definition ApplyUpdateURR :: "'ie ie_api \<Rightarrow> 'ie URRPlan \<Rightarrow> Sess \<Rightarrow> Sess" where
  "ApplyUpdateURR api plan s =
     (case map_of (URRIDs s) (up_URRID plan) of
        None \<Rightarrow> s
      | Some info \<Rightarrow>
          let info1 = (if up_MeasureMethod plan \<noteq> 0
                then info\<lparr>ui_Method :=
                  \<lparr>DURAT = up_MeasureMethod plan AND 1 \<noteq> 0,
                   VOLUM = up_MeasureMethod plan AND 2 \<noteq> 0,
                   EVENT = up_MeasureMethod plan AND 4 \<noteq> 0\<rparr>\<rparr>
                else info);
              info2 = (case up_MeasureInfoIE plan of
                  None \<Rightarrow> info1
                | Some i \<Rightarrow>
                    let fl = ie_MeasureInfo api i
                    in info1\<lparr>ui_Info := (ui_Info info1)\<lparr>MBQE := MBQE fl, INAM := INAM fl,
                         RADI := RADI fl, ISTM := ISTM fl, MNOP := MNOP fl\<rparr>\<rparr>)
          in s\<lparr>URRIDs := mput (up_URRID plan) info2 (URRIDs s)\<rparr>)"

definition ApplyRemoveURR :: "'ie URRPlan \<Rightarrow> Sess \<Rightarrow> Sess" where
  "ApplyRemoveURR plan s =
     (case map_of (URRIDs s) (up_URRID plan) of
        None \<Rightarrow> s
      | Some info \<Rightarrow> s\<lparr>URRIDs := mput (up_URRID plan) (info\<lparr>removed := True\<rparr>) (URRIDs s)\<rparr>)"

definition ApplyCreateBAR :: "'ie BARPlan \<Rightarrow> Sess \<Rightarrow> Sess" where
  "ApplyCreateBAR plan s = s\<lparr>BARIDs := List.insert (bp_BARID plan) (BARIDs s)\<rparr>"

definition ApplyRemoveBAR :: "'ie BARPlan \<Rightarrow> Sess \<Rightarrow> Sess" where
  "ApplyRemoveBAR plan s = s\<lparr>BARIDs := removeAll (bp_BARID plan) (BARIDs s)\<rparr>"

definition CleanupRemovedURRs :: "Sess \<Rightarrow> Sess" where
  "CleanupRemovedURRs s = s\<lparr>URRIDs := filter (\<lambda>(_, info). \<not> removed info) (URRIDs s)\<rparr>"

text \<open>The loops that collect the reports of \<open>ApplyUpdatePDR\<close> and \<open>ApplyRemovePDR\<close>.\<close>

fun ApplyUpdatePDRs ::
  "('d, 'ie) Driver \<Rightarrow> 'ie PDRPlan list \<Rightarrow> Sess \<Rightarrow> 'd \<Rightarrow> USAReport list \<times> Sess \<times> 'd" where
  "ApplyUpdatePDRs drv [] s d = ([], s, d)"
| "ApplyUpdatePDRs drv (p # ps) s d =
     (let (r, s1, d1) = ApplyUpdatePDR drv p s d;
          (rs, s2, d2) = ApplyUpdatePDRs drv ps s1 d1
      in (r @ rs, s2, d2))"

fun ApplyRemovePDRs ::
  "('d, 'ie) Driver \<Rightarrow> 'ie PDRPlan list \<Rightarrow> Sess \<Rightarrow> 'd \<Rightarrow> USAReport list \<times> Sess \<times> 'd" where
  "ApplyRemovePDRs drv [] s d = ([], s, d)"
| "ApplyRemovePDRs drv (p # ps) s d =
     (let (r, s1, d1) = ApplyRemovePDR drv p s d;
          (rs, s2, d2) = ApplyRemovePDRs drv ps s1 d1
      in (r @ rs, s2, d2))"

section \<open>Closing a session\<close>

definition close_plan :: "('d, 'ie) Driver \<Rightarrow> 'ie ie_api \<Rightarrow> Sess \<Rightarrow> 'ie ModificationPlan" where
  "close_plan drv api s =
     (NewModificationPlan (LocalID s))
       \<lparr>RemoveFARs :=
          List.map_filter (\<lambda>i. BuildRemoveFARPlan drv (LocalID s) (NewRemoveFAR api i)) (FARIDs s),
        RemoveQERs :=
          List.map_filter (\<lambda>i. BuildRemoveQERPlan drv (LocalID s) (NewRemoveQER api i)) (QERIDs s),
        RemoveURRs :=
          List.map_filter (\<lambda>i. BuildRemoveURRPlan drv (LocalID s) (NewRemoveURR api i))
            (keys (URRIDs s)),
        RemoveBARs :=
          List.map_filter (\<lambda>i. BuildRemoveBARPlan drv (LocalID s) (NewRemoveBAR api i)) (BARIDs s),
        RemovePDRs :=
          List.map_filter (\<lambda>i. BuildRemovePDRPlan drv (LocalID s) (NewRemovePDR api i))
            (keys (PDRIDs s))\<rparr>"

definition Close ::
  "('d, 'ie) Driver \<Rightarrow> 'ie ie_api \<Rightarrow> Sess \<Rightarrow> 'd \<Rightarrow> USAReport list \<times> Sess \<times> 'd" where
  "Close drv api s d =
     (let plan = close_plan drv api s;
          (execResult, drained, d1) = ExecuteModificationPlan drv d plan (\<lambda>k. q_items k s);
          (usars, s1, d2) = ApplyRemovePDRs drv (RemovePDRs plan) (fold drain_q drained s) d1;
          s2 = fold ApplyRemoveBAR (RemoveBARs plan) s1;
          s3 = fold ApplyRemoveURR (RemoveURRs plan) s2;
          s4 = fold ApplyRemoveQER (RemoveQERs plan) s3;
          s5 = fold ApplyRemoveFAR (RemoveFARs plan) s4;
          usars' = usars @ (case execResult of
              None \<Rightarrow> [] | Some rs \<Rightarrow> map (set_trigger U_TERMR) rs)
      in (usars', s5\<lparr>s_q := map (\<lambda>(k, ps, _). (k, ps, True)) (s_q s5)\<rparr>, d2))"

section \<open>Packet queues\<close>

text \<open>
  The contract of a bounded drop-tail queue, as the report handlers use the session's buffers:
  runs of pushes and of pops over any implementation, and the locale that states its laws.
\<close>

fun push_all :: "('a \<Rightarrow> 's \<Rightarrow> 's option) \<Rightarrow> 'a list \<Rightarrow> 's \<Rightarrow> 's option" where
  "push_all push [] s = Some s"
| "push_all push (x # xs) s = (case push x s of None \<Rightarrow> None | Some s' \<Rightarrow> push_all push xs s')"

fun drain :: "('s \<Rightarrow> 'a option \<times> 's) \<Rightarrow> nat \<Rightarrow> 's \<Rightarrow> 'a list \<times> 's" where
  "drain pop 0 s = ([], s)"
| "drain pop (Suc n) s =
     (case pop s of
        (None, s') \<Rightarrow> ([], s')
      | (Some x, s') \<Rightarrow> (let (xs, s'') = drain pop n s' in (x # xs, s'')))"

locale bounded_fifo =
  fixes inv :: "'s \<Rightarrow> bool"
    and items :: "'s \<Rightarrow> 'a list"
    and cap :: "'s \<Rightarrow> nat"
    and push :: "'a \<Rightarrow> 's \<Rightarrow> 's option"
    and pop :: "'s \<Rightarrow> 'a option \<times> 's"
  assumes push_law: "inv s \<Longrightarrow> \<exists>s'. push x s = Some s' \<and> inv s' \<and> cap s' = cap s
      \<and> items s' = (if length (items s) < cap s then items s @ [x] else items s)"
    and pop_empty: "inv s \<Longrightarrow> items s = [] \<Longrightarrow> pop s = (None, s)"
    and pop_cons: "inv s \<Longrightarrow> items s = x # xs \<Longrightarrow>
      \<exists>s'. pop s = (Some x, s') \<and> inv s' \<and> cap s' = cap s \<and> items s' = xs"
begin

lemma push_all_items:
  assumes "inv s" and "length (items s) \<le> cap s"
  shows "\<exists>s'. push_all push xs s = Some s' \<and> inv s' \<and> cap s' = cap s
    \<and> items s' = take (cap s) (items s @ xs)"
  using assms
proof (induction xs arbitrary: s)
  case Nil
  then show ?case by simp
next
  case (Cons x xs)
  obtain t where t: "push x s = Some t" "inv t" "cap t = cap s"
    "items t = (if length (items s) < cap s then items s @ [x] else items s)"
    using push_law [OF Cons.prems(1), of x] by blast
  have "length (items t) \<le> cap t" using Cons.prems(2) t(3,4) by simp
  from Cons.IH [OF t(2) this] obtain s' where s': "push_all push xs t = Some s'" "inv s'"
    "cap s' = cap t" "items s' = take (cap t) (items t @ xs)" by blast
  have "take (cap t) (items t @ xs) = take (cap s) (items s @ x # xs)"
    using Cons.prems(2) t(3,4) by (simp add: take_Cons')
  then show ?case using s' t by simp
qed

lemma drain_items:
  assumes "inv s" and "length (items s) \<le> n"
  shows "fst (drain pop n s) = items s \<and> items (snd (drain pop n s)) = []"
  using assms
proof (induction n arbitrary: s)
  case 0
  then show ?case by simp
next
  case (Suc n)
  show ?case
  proof (cases "items s")
    case Nil
    then show ?thesis using pop_empty [OF Suc.prems(1)] by simp
  next
    case (Cons x xs)
    then obtain t where t: "pop s = (Some x, t)" "inv t" "items t = xs"
      using pop_cons [OF Suc.prems(1)] by blast
    have "length (items t) \<le> n" using Suc.prems(2) Cons t(3) by simp
    from Suc.IH [OF t(2) this] show ?thesis
      using t Cons by (simp add: case_prod_beta)
  qed
qed

end

definition queue_open :: "u16 \<Rightarrow> Sess \<Rightarrow> bool" where
  "queue_open pdrid s = (case map_of (s_q s) pdrid of None \<Rightarrow> True | Some (_, closed) \<Rightarrow> \<not> closed)"

definition buf_pop :: "u16 \<Rightarrow> Sess \<Rightarrow> bytes option \<times> Sess" where
  "buf_pop pdrid s = (case Pop pdrid s of ((p, ok), s') \<Rightarrow> (if ok then Some p else None, s'))"

lemma Len_items: "Len pdrid s = length (q_items pdrid s)"
  by (simp add: Len_def q_items_def split: option.splits prod.splits)

lemma Push_other:
  "Push pdrid p s = Some s' \<Longrightarrow> k \<noteq> pdrid \<Longrightarrow> map_of (s_q s') k = map_of (s_q s) k"
  by (auto simp: Push_def Let_def split: option.splits if_splits)

lemma push_all_other:
  "push_all (Push pdrid) ps s = Some s' \<Longrightarrow> k \<noteq> pdrid \<Longrightarrow> map_of (s_q s') k = map_of (s_q s) k"
  by (induction ps arbitrary: s) (auto split: option.splits simp: Push_other)

interpretation sess_queue: bounded_fifo "queue_open pdrid" "q_items pdrid" s_qlen "Push pdrid"
  "buf_pop pdrid" for pdrid
proof unfold_locales
  show "queue_open pdrid s \<Longrightarrow> \<exists>s'. Push pdrid x s = Some s' \<and> queue_open pdrid s'
      \<and> s_qlen s' = s_qlen s
      \<and> q_items pdrid s' = (if length (q_items pdrid s) < s_qlen s
          then q_items pdrid s @ [x] else q_items pdrid s)" for s x
    by (auto simp: Push_def queue_open_def q_items_def Let_def split: option.splits prod.splits)
  show "queue_open pdrid s \<Longrightarrow> q_items pdrid s = [] \<Longrightarrow> buf_pop pdrid s = (None, s)" for s
    by (auto simp: Pop_def buf_pop_def queue_open_def q_items_def split: option.splits)
  show "queue_open pdrid s \<Longrightarrow> q_items pdrid s = x # xs \<Longrightarrow>
      \<exists>s'. buf_pop pdrid s = (Some x, s') \<and> queue_open pdrid s' \<and> s_qlen s' = s_qlen s
        \<and> q_items pdrid s' = xs" for s x xs
    by (auto simp: Pop_def buf_pop_def queue_open_def q_items_def split: option.splits prod.splits)
qed

lemma mput_same: "map_of m k = Some v \<Longrightarrow> mput k v m = m"
  by (induction m) (auto split: if_splits)

lemma mput_twice: "mput k v (mput k w m) = mput k v m"
  by (induction m) auto

lemma drain_q_Pop:
  "queue_open pdrid s \<Longrightarrow> Len pdrid s \<le> n \<Longrightarrow> snd (drain (buf_pop pdrid) n s) = drain_q pdrid s"
proof (induction n arbitrary: s)
  case 0
  then show ?case by (auto simp: Len_def drain_q_def mput_same split: option.splits)
next
  case (Suc n)
  show ?case
  proof (cases "map_of (s_q s) pdrid")
    case None
    then show ?thesis by (simp add: buf_pop_def Pop_def drain_q_def)
  next
    case (Some pc)
    then obtain ps where ps: "map_of (s_q s) pdrid = Some (ps, False)"
      using Suc.prems(1) by (cases pc) (auto simp: queue_open_def)
    show ?thesis
    proof (cases ps)
      case Nil
      then show ?thesis using ps by (simp add: buf_pop_def Pop_def drain_q_def mput_same)
    next
      case (Cons p ps')
      let ?t = "s\<lparr>s_q := mput pdrid (ps', False) (s_q s)\<rparr>"
      have "snd (drain (buf_pop pdrid) n ?t) = drain_q pdrid ?t"
        using Suc.IH [of ?t] Suc.prems(2) ps Cons by (simp add: queue_open_def Len_def)
      moreover have "buf_pop pdrid s = (Some p, ?t)" using ps Cons by (simp add: buf_pop_def Pop_def)
      ultimately show ?thesis using ps by (simp add: drain_q_def mput_twice case_prod_beta)
    qed
  qed
qed

lemma drain_frame: "\<exists>q. fold drain_q ks s = s\<lparr>s_q := q\<rparr>"
proof (induction ks arbitrary: s)
  case (Cons k ks)
  obtain q where "drain_q k s = s\<lparr>s_q := q\<rparr>"
    by (cases "map_of (s_q s) k") (auto simp: drain_q_def intro: that [of "s_q s"])
  with Cons.IH [of "s\<lparr>s_q := q\<rparr>"] show ?case by auto
next
  case Nil
  show ?case by (rule exI [of _ "s_q s"]) simp
qed

lemma drain_keeps [simp]:
  "s_rnode (fold drain_q ks s) = s_rnode s" "LocalID (fold drain_q ks s) = LocalID s"
  "RemoteID (fold drain_q ks s) = RemoteID s" "s_qlen (fold drain_q ks s) = s_qlen s"
  using drain_frame [of ks s] by auto

lemma q_items_drain_q: "q_items k (drain_q j s) = (if k = j then [] else q_items k s)"
  by (auto simp: q_items_def drain_q_def split: option.splits)

lemma q_items_drain: "q_items k (fold drain_q ks s) = (if k \<in> set ks then [] else q_items k s)"
  by (induction ks arbitrary: s) (auto simp: q_items_drain_q)

text \<open>A buffered flow is a bounded first-in first-out queue. After any packets \<open>ps\<close> are pushed
  for a PDR whose queue is open and empty, the queue holds the first \<open>qlen\<close> of them (later ones are
  dropped), popping until the queue is empty returns exactly these in order, and the queues of the
  other PDRs are untouched.\<close>

theorem buffer_fifo:
  assumes "queue_open pdrid s" and "Len pdrid s = 0"
  shows "\<exists>s'. push_all (Push pdrid) ps s = Some s'
    \<and> Len pdrid s' = min (length ps) (s_qlen s)
    \<and> fst (drain (buf_pop pdrid) (Len pdrid s') s') = take (s_qlen s) ps
    \<and> Len pdrid (snd (drain (buf_pop pdrid) (Len pdrid s') s')) = 0
    \<and> (\<forall>k. k \<noteq> pdrid \<longrightarrow> map_of (s_q s') k = map_of (s_q s) k)"
proof -
  have e: "q_items pdrid s = []" using assms(2) by (simp add: Len_items)
  then have "length (q_items pdrid s) \<le> s_qlen s" by simp
  from sess_queue.push_all_items [OF assms(1) this, of ps] e
  obtain s' where s': "push_all (Push pdrid) ps s = Some s'" "queue_open pdrid s'"
    "q_items pdrid s' = take (s_qlen s) ps" by auto
  have "length (q_items pdrid s') \<le> Len pdrid s'" by (simp add: Len_items)
  from sess_queue.drain_items [OF s'(2) this] show ?thesis
    using s' push_all_other [OF s'(1)] by (simp add: Len_items min.commute)
qed

theorem buffer_fifo_witness:
  "queue_open 7 (empty_sess (Some 0) 1 2 2) \<and> Len 7 (empty_sess (Some 0) 1 2 2) = 0
   \<and> (\<exists>s'. push_all (Push 7) [[1], [2], [3]] (empty_sess (Some 0) 1 2 2) = Some s'
        \<and> fst (drain (buf_pop 7) (Len 7 s') s') = [[1], [2]])"
proof -
  have a: "queue_open 7 (empty_sess (Some 0) 1 2 2)" "Len 7 (empty_sess (Some 0) 1 2 2) = 0"
    by (simp_all add: queue_open_def Len_def empty_sess_def)
  show ?thesis using a buffer_fifo [OF a, of "[[1], [2], [3]]"] by (auto simp: empty_sess_def)
qed

section \<open>Sequence numbers of usage reports\<close>

fun URRSeqs :: "nat \<Rightarrow> u32 \<Rightarrow> Sess \<Rightarrow> u32 list \<times> Sess" where
  "URRSeqs 0 urrid s = ([], s)"
| "URRSeqs (Suc n) urrid s =
     (let (q, s1) = URRSeq urrid s; (qs, s2) = URRSeqs n urrid s1 in (q # qs, s2))"

lemma URRSeqs_from:
  "map_of (URRIDs s) urrid = Some info \<Longrightarrow>
    fst (URRSeqs n urrid s) = map (\<lambda>i. SEQN info + of_nat i) [0..<n]
    \<and> map_of (URRIDs (snd (URRSeqs n urrid s))) urrid
        = Some (info\<lparr>SEQN := SEQN info + of_nat n\<rparr>)"
proof (induction n arbitrary: s info)
  case 0
  then show ?case by simp
next
  case (Suc n)
  define t where "t = snd (URRSeq urrid s)"
  have t: "map_of (URRIDs t) urrid = Some (info\<lparr>SEQN := SEQN info + 1\<rparr>)"
    using Suc.prems by (simp add: t_def URRSeq_def)
  have q: "URRSeq urrid s = (SEQN info, t)" using Suc.prems by (simp add: t_def URRSeq_def)
  have "[0..<Suc n] = 0 # map Suc [0..<n]" by (simp only: map_Suc_upt upt_conv_Cons zero_less_Suc)
  then show ?case using Suc.IH [OF t] q by (simp add: case_prod_beta add.assoc)
qed

text \<open>The usage reports of a URR are numbered consecutively. Every \<open>n\<close> calls of \<open>URRSeq\<close> after
  the URR has been created return 0, 1, ..., n-1 (modulo \<open>2^32\<close>), whatever the session held before.\<close>

theorem URRSeq_consecutive:
  "fst (URRSeqs n (up_URRID plan) (ApplyCreateURR api plan s)) = map of_nat [0..<n]"
proof -
  obtain info where info: "map_of (URRIDs (ApplyCreateURR api plan s)) (up_URRID plan) = Some info"
    "SEQN info = 0"
    by (simp add: ApplyCreateURR_def Let_def)
  show ?thesis using URRSeqs_from [OF info(1), of n] info(2) by simp
qed

section \<open>Reference counts\<close>

definition related :: "Sess \<Rightarrow> u16 \<Rightarrow> u32 list" where
  "related s p = (case map_of (PDRIDs s) p of None \<Rightarrow> [] | Some pi \<Rightarrow> RelatedURRIDs pi)"

definition relating :: "Sess \<Rightarrow> u32 \<Rightarrow> u16 set" where
  "relating s u = set (filter (\<lambda>p. u \<in> set (related s p)) (keys (PDRIDs s)))"

definition refs_ok :: "Sess \<Rightarrow> bool" where
  "refs_ok s \<longleftrightarrow> wf_gomap (PDRIDs s) \<and> wf_gomap (URRIDs s)
     \<and> list_all (\<lambda>p. distinct (related s p)) (keys (PDRIDs s))
     \<and> list_all (\<lambda>(u, info). unat (refPdrNum info) = card (relating s u)) (URRIDs s)"

definition query_term ::
  "('d, 'ie) Driver \<Rightarrow> nat \<Rightarrow> u32 \<Rightarrow> 'd \<Rightarrow> USAReport list \<times> 'd" where
  "query_term drv seid u d =
     (case QueryURR drv d seid u of
        (None, d') \<Rightarrow> ([], d') | (Some rs, d') \<Rightarrow> (map (set_trigger U_TERMR) rs, d'))"

fun query_all ::
  "('d, 'ie) Driver \<Rightarrow> nat \<Rightarrow> u32 list \<Rightarrow> 'd \<Rightarrow> USAReport list \<times> 'd" where
  "query_all drv seid [] d = ([], d)"
| "query_all drv seid (u # us) d =
     (let (r, d1) = query_term drv seid u d; (rs, d2) = query_all drv seid us d1 in (r @ rs, d2))"

definition dec_ref :: "u32 \<Rightarrow> (u32, URRInfo) gomap \<Rightarrow> (u32, URRInfo) gomap" where
  "dec_ref u m =
     (case map_of m u of
        None \<Rightarrow> m
      | Some i \<Rightarrow> if refPdrNum i > 0 then mput u (i\<lparr>refPdrNum := refPdrNum i - 1\<rparr>) m else m)"

definition last_ref :: "Sess \<Rightarrow> u32 \<Rightarrow> bool" where
  "last_ref s u = (case map_of (URRIDs s) u of None \<Rightarrow> False | Some i \<Rightarrow> refPdrNum i = 1)"

lemma in_relating_iff [simp]: "p \<in> relating s u \<longleftrightarrow> u \<in> set (related s p)"
  by (cases "map_of (PDRIDs s) p") (simp_all add: relating_def related_def fst_image_iff)

lemma finite_relating [simp]: "finite (relating s u)"
  by (simp add: relating_def)

lemma refs_ok_iff:
  "refs_ok s \<longleftrightarrow> wf_gomap (PDRIDs s) \<and> wf_gomap (URRIDs s) \<and> (\<forall>p. distinct (related s p))
     \<and> (\<forall>u i. map_of (URRIDs s) u = Some i \<longrightarrow> unat (refPdrNum i) = card (relating s u))"
proof -
  have "distinct (related s p)" if "p \<notin> set (keys (PDRIDs s))" for p
    using that by (simp add: related_def fst_image_iff)
  then have "list_all (\<lambda>p. distinct (related s p)) (keys (PDRIDs s))
      \<longleftrightarrow> (\<forall>p. distinct (related s p))"
    unfolding list_all_iff by blast
  moreover have "wf_gomap (URRIDs s) \<Longrightarrow>
      list_all (\<lambda>(u, i). unat (refPdrNum i) = card (relating s u)) (URRIDs s)
      \<longleftrightarrow> (\<forall>u i. map_of (URRIDs s) u = Some i \<longrightarrow> unat (refPdrNum i) = card (relating s u))"
    by (auto simp: list_all_iff dest: map_of_SomeD)
  ultimately show ?thesis unfolding refs_ok_def by blast
qed

lemma diassociateURR_split:
  "diassociateURR drv u s d =
     (let (rs, d') = (if last_ref s u then query_term drv (LocalID s) u d else ([], d))
      in (rs, s\<lparr>URRIDs := dec_ref u (URRIDs s)\<rparr>, d'))"
proof (cases "map_of (URRIDs s) u")
  case None
  then show ?thesis by (simp add: diassociateURR_def last_ref_def dec_ref_def)
next
  case (Some i)
  have "refPdrNum i > 0 \<Longrightarrow> refPdrNum i - 1 = 0 \<longleftrightarrow> refPdrNum i = 1" by simp
  then show ?thesis using Some
    by (auto simp: diassociateURR_def last_ref_def dec_ref_def query_term_def Let_def
        split: prod.splits option.splits)
qed

lemma map_of_dec_ref:
  "map_of (dec_ref u m) v =
     (if v = u then map_option (\<lambda>i. if refPdrNum i > 0 then i\<lparr>refPdrNum := refPdrNum i - 1\<rparr> else i)
        (map_of m u) else map_of m v)"
  by (simp add: dec_ref_def split: option.splits)

lemma wf_dec_ref [simp]: "wf_gomap m \<Longrightarrow> wf_gomap (dec_ref u m)"
  by (simp add: dec_ref_def split: option.splits)

lemma diassociate_all_split:
  "distinct us \<Longrightarrow> diassociate_all drv us s d =
     (let (rs, d') = query_all drv (LocalID s) (filter (last_ref s) us) d
      in (rs, s\<lparr>URRIDs := fold dec_ref us (URRIDs s)\<rparr>, d'))"
proof (induction us arbitrary: s d)
  case Nil
  then show ?case by simp
next
  case (Cons u us)
  let ?s = "s\<lparr>URRIDs := dec_ref u (URRIDs s)\<rparr>"
  have "filter (last_ref ?s) us = filter (last_ref s) us"
    using Cons.prems by (intro filter_cong) (auto simp: last_ref_def map_of_dec_ref)
  then show ?case
    using Cons by (simp add: diassociateURR_split case_prod_beta Let_def)
qed

lemma map_of_fold_dec_ref:
  "distinct us \<Longrightarrow> map_of (fold dec_ref us m) v =
     (if v \<in> set us
      then map_option (\<lambda>i. if refPdrNum i > 0 then i\<lparr>refPdrNum := refPdrNum i - 1\<rparr> else i) (map_of m v)
      else map_of m v)"
  by (induction us arbitrary: m) (auto simp: map_of_dec_ref)

lemma wf_fold_dec_ref [simp]: "wf_gomap m \<Longrightarrow> wf_gomap (fold dec_ref us m)"
  by (induction us arbitrary: m) auto

text \<open>Dropping the URRs \<open>us\<close> from PDR \<open>p\<close>: the counters follow the relation.\<close>

lemma refs_ok_drop:
  assumes ok: "refs_ok s" and d: "distinct us" and us: "set us \<subseteq> set (related s p)"
    and t: "wf_gomap (PDRIDs t)" "URRIDs t = fold dec_ref us (URRIDs s)"
    and rel: "\<And>q. q \<noteq> p \<Longrightarrow> related t q = related s q"
    and relp: "distinct (related t p)" "set (related t p) = set (related s p) - set us"
  shows "refs_ok t"
proof -
  have r: "relating t u = (if u \<in> set us then relating s u - {p} else relating s u)" for u
    using rel relp us by (auto simp: set_eq_iff) metis+
  have "unat (refPdrNum j) = card (relating t u)" if j: "map_of (URRIDs t) u = Some j" for u j
  proof (cases "u \<in> set us")
    case False
    then show ?thesis using ok j t(2) d r by (simp add: refs_ok_iff map_of_fold_dec_ref)
  next
    case True
    then obtain i where i: "map_of (URRIDs s) u = Some i"
      "j = (if refPdrNum i > 0 then i\<lparr>refPdrNum := refPdrNum i - 1\<rparr> else i)"
      using j t(2) d by (auto simp: map_of_fold_dec_ref)
    have p: "p \<in> relating s u" using True us by auto
    have c: "unat (refPdrNum i) = card (relating s u)" using ok i(1) by (simp add: refs_ok_iff)
    have pos: "card (relating s u) > 0" using p card_gt_0_iff finite_relating by blast
    then have "refPdrNum i > 0" using c by (simp add: word_gt_0 unat_gt_0 [symmetric])
    then have "unat (refPdrNum j) = unat (refPdrNum i) - 1" using i(2) by (simp add: unat_minus_one word_gt_0)
    then show ?thesis using c r True p by (simp add: card_Diff_singleton)
  qed
  moreover have "distinct (related t q)" for q
    using ok rel relp(1) by (cases "q = p") (simp_all add: refs_ok_iff)
  ultimately show ?thesis using ok t by (simp add: refs_ok_iff)
qed

lemma last_ref_iff:
  assumes "refs_ok s" and "u \<in> set (related s p)"
  shows "last_ref s u \<longleftrightarrow> map_of (URRIDs s) u \<noteq> None \<and> relating s u = {p}"
proof (cases "map_of (URRIDs s) u")
  case None
  then show ?thesis by (simp add: last_ref_def)
next
  case (Some i)
  have c: "unat (refPdrNum i) = card (relating s u)" using assms(1) Some by (simp add: refs_ok_iff)
  have "p \<in> relating s u" using assms(2) by simp
  then have "card (relating s u) = 1 \<longleftrightarrow> relating s u = {p}"
    by (metis card_1_singletonE is_singletonI is_singleton_altdef singletonD)
  moreover have "refPdrNum i = 1 \<longleftrightarrow> unat (refPdrNum i) = 1"
    by (metis unat_1 word_unat_eq_iff)
  ultimately show ?thesis using Some c by (simp add: last_ref_def)
qed

lemma related_mput:
  "related (s\<lparr>PDRIDs := mput p \<lparr>RelatedURRIDs = us\<rparr> m, URRIDs := x\<rparr>) q
     = (if q = p then us else case map_of m q of None \<Rightarrow> [] | Some pi \<Rightarrow> RelatedURRIDs pi)"
  by (simp add: related_def)

lemma ApplyRemovePDR_split:
  assumes "refs_ok s" and "map_of (PDRIDs s) (pp_PDRID plan) = Some pi"
  shows "ApplyRemovePDR drv plan s d =
     (let (rs, d') = query_all drv (LocalID s)
            (filter (\<lambda>u. map_of (URRIDs s) u \<noteq> None \<and> relating s u = {pp_PDRID plan})
              (RelatedURRIDs pi)) d
      in (rs, s\<lparr>URRIDs := fold dec_ref (RelatedURRIDs pi) (URRIDs s),
               PDRIDs := mdel (pp_PDRID plan) (PDRIDs s)\<rparr>, d'))"
proof -
  have r: "related s (pp_PDRID plan) = RelatedURRIDs pi" using assms(2) by (simp add: related_def)
  then have "distinct (RelatedURRIDs pi)" using assms(1) by (metis refs_ok_iff)
  moreover have "filter (last_ref s) (RelatedURRIDs pi) =
      filter (\<lambda>u. map_of (URRIDs s) u \<noteq> None \<and> relating s u = {pp_PDRID plan}) (RelatedURRIDs pi)"
    using last_ref_iff [OF assms(1), of _ "pp_PDRID plan"] r by (intro filter_cong) auto
  ultimately show ?thesis
    using assms(2) by (simp add: ApplyRemovePDR_def diassociate_all_split case_prod_beta Let_def)
qed

lemma refs_ok_remove:
  assumes "refs_ok s" and pi: "map_of (PDRIDs s) p = Some pi"
  shows "refs_ok (s\<lparr>URRIDs := fold dec_ref (RelatedURRIDs pi) (URRIDs s), PDRIDs := mdel p (PDRIDs s)\<rparr>)"
proof (rule refs_ok_drop [OF assms(1), where us = "RelatedURRIDs pi" and p = p])
  have r: "related s p = RelatedURRIDs pi" using pi by (simp add: related_def)
  then show "set (RelatedURRIDs pi) \<subseteq> set (related s p)" by simp
  show "distinct (RelatedURRIDs pi)" using assms(1) r by (metis refs_ok_iff)
qed (use assms in \<open>auto simp: refs_ok_iff related_def\<close>)

text \<open>Removing a PDR closes the accounts of its URRs. In a session whose counters agree with its
  PDRs, \<open>ApplyRemovePDR\<close> queries exactly those URRs of the PDR that no other PDR of the session names,
  one after the other, and returns their usage reports marked with the termination trigger; the PDR is
  gone, the other PDRs are unchanged, and the counters agree again.\<close>

theorem ApplyRemovePDR_reports:
  assumes "refs_ok s" and "map_of (PDRIDs s) (pp_PDRID plan) = Some pi"
    and "ApplyRemovePDR drv plan s d = (rs, s', d')"
  shows "(rs, d') = query_all drv (LocalID s)
        (filter (\<lambda>u. map_of (URRIDs s) u \<noteq> None \<and> relating s u = {pp_PDRID plan})
          (RelatedURRIDs pi)) d
    \<and> refs_ok s' \<and> map_of (PDRIDs s') = (map_of (PDRIDs s))(pp_PDRID plan := None)"
proof -
  have "s' = s\<lparr>URRIDs := fold dec_ref (RelatedURRIDs pi) (URRIDs s),
      PDRIDs := mdel (pp_PDRID plan) (PDRIDs s)\<rparr>"
    using assms(3) ApplyRemovePDR_split [OF assms(1,2), of drv d] by (simp add: case_prod_beta Let_def)
  then show ?thesis
    using assms(3) ApplyRemovePDR_split [OF assms(1,2), of drv d] refs_ok_remove [OF assms(1,2)]
    by (auto simp: case_prod_beta Let_def prod_eq_iff)
qed

theorem ApplyRemovePDR_reports_witness:
  "let s = (empty_sess (Some 0) 1 2 3)
         \<lparr>URRIDs := [(5, \<lparr>removed = False, SEQN = 0, ui_Method = ie_MeasureMethod plain_api None,
            ui_Info = ie_MeasureInfo plain_api EmptyIE, refPdrNum = 1\<rparr>)],
          PDRIDs := [(9, \<lparr>RelatedURRIDs = [5]\<rparr>)]\<rparr>;
       plan = (zero_PDRPlan :: plain_ie PDRPlan)\<lparr>pp_PDRID := 9\<rparr>
   in refs_ok s \<and> map_of (PDRIDs s) (pp_PDRID plan) = Some \<lparr>RelatedURRIDs = [5]\<rparr>
     \<and> fst (ApplyRemovePDR plain_driver plan s []) = [set_trigger U_TERMR (plain_usar 5)]"
proof -
  define s where "s = (empty_sess (Some 0) 1 2 3)
         \<lparr>URRIDs := [(5, \<lparr>removed = False, SEQN = 0, ui_Method = ie_MeasureMethod plain_api None,
            ui_Info = ie_MeasureInfo plain_api EmptyIE, refPdrNum = 1\<rparr>)],
          PDRIDs := [(9, \<lparr>RelatedURRIDs = [5]\<rparr>)]\<rparr>"
  define plan where "plan = (zero_PDRPlan :: plain_ie PDRPlan)\<lparr>pp_PDRID := 9\<rparr>"
  have rel: "relating s 5 = {9}" by (simp add: relating_def related_def s_def)
  have ok: "refs_ok s" using rel by (simp add: refs_ok_def related_def s_def)
  have m: "map_of (PDRIDs s) (pp_PDRID plan) = Some \<lparr>RelatedURRIDs = [5]\<rparr>"
    by (simp add: s_def plan_def)
  obtain rs s' d' where run: "ApplyRemovePDR plain_driver plan s [] = (rs, s', d')"
    by (metis prod_cases3)
  have "rs = [set_trigger U_TERMR (plain_usar 5)]"
    using ApplyRemovePDR_reports [OF ok m run] rel
    by (simp add: s_def plan_def query_term_def plain_driver_def)
  then show ?thesis
    using ok m run unfolding Let_def s_def [symmetric] plan_def [symmetric] by simp
qed

lemma bump_refs_ids:
  "bump_refs us acc m = (ids, m') \<Longrightarrow> set ids = set acc \<union> set us \<and> (distinct acc \<longrightarrow> distinct ids)"
proof (induction us arbitrary: acc m)
  case Nil
  then show ?case by simp
next
  case (Cons u us)
  from Cons.IH [OF Cons.prems [unfolded bump_refs.simps]] show ?case by auto
qed

lemma bump_refs_urrs:
  "bump_refs us acc m = (ids, m') \<Longrightarrow> distinct us \<Longrightarrow>
    (wf_gomap m \<longrightarrow> wf_gomap m') \<and> map_of m' u = (if u \<in> set us
      then map_option (\<lambda>i. i\<lparr>refPdrNum := refPdrNum i + 1\<rparr>) (map_of m u) else map_of m u)"
proof (induction us arbitrary: acc m)
  case Nil
  then show ?case by simp
next
  case (Cons v us)
  from Cons.IH [OF Cons.prems(1) [unfolded bump_refs.simps]] Cons.prems(2) show ?case
    by (auto split: option.splits)
qed

lemma refs_ok_create:
  assumes ok: "refs_ok s" and new: "map_of (PDRIDs s) (pp_PDRID plan) = None"
    and d: "distinct (pp_URRIDs plan)" and room: "length (PDRIDs s) < 65535"
  shows "refs_ok (ApplyCreatePDR plan s)"
proof -
  let ?p = "pp_PDRID plan"
  obtain ids m where b: "bump_refs (pp_URRIDs plan) [] (URRIDs s) = (ids, m)" by fastforce
  note ids = bump_refs_ids [OF b] and urrs = bump_refs_urrs [OF b d]
  let ?t = "ApplyCreatePDR plan s"
  have t: "?t = s\<lparr>URRIDs := m, PDRIDs := mput ?p \<lparr>RelatedURRIDs = ids\<rparr> (PDRIDs s)\<rparr>"
    by (simp add: ApplyCreatePDR_def b)
  have rel: "related ?t q = (if q = ?p then ids else related s q)" for q
    by (simp add: t related_def)
  have old: "related s ?p = []" using new by (simp add: related_def)
  have r: "relating ?t u = (if u \<in> set (pp_URRIDs plan) then insert ?p (relating s u) else relating s u)" for u
    using rel old ids by (auto simp: set_eq_iff)
  have small: "card (relating s u) < 65535" for u
    using room card_length [of "filter (\<lambda>p. u \<in> set (related s p)) (keys (PDRIDs s))"]
      length_filter_le [of "\<lambda>p. u \<in> set (related s p)" "keys (PDRIDs s)"]
    by (simp only: relating_def length_map)
  have "unat (refPdrNum j) = card (relating ?t u)" if j: "map_of (URRIDs ?t) u = Some j" for u j
  proof (cases "u \<in> set (pp_URRIDs plan)")
    case False
    then show ?thesis using ok j r by (simp add: refs_ok_iff t urrs)
  next
    case True
    then obtain i where i: "map_of (URRIDs s) u = Some i" "j = i\<lparr>refPdrNum := refPdrNum i + 1\<rparr>"
      using j by (auto simp: t urrs)
    have c: "unat (refPdrNum i) = card (relating s u)" using ok i(1) by (simp add: refs_ok_iff)
    then have "unat (refPdrNum i + 1) = unat (refPdrNum i) + 1"
      using small [of u] by (simp add: unat_word_ariths)
    moreover have "?p \<notin> relating s u" using old by simp
    ultimately show ?thesis using c i(2) r True by simp
  qed
  then show ?thesis using ok ids urrs rel by (simp add: refs_ok_iff t)
qed

lemma fold_insert_set:
  "set (fold List.insert us acc) = set us \<union> set acc
    \<and> (distinct acc \<longrightarrow> distinct (fold List.insert us acc))"
  by (induction us arbitrary: acc) auto

lemma ApplyUpdatePDR_split:
  assumes ok: "refs_ok s" and pi: "map_of (PDRIDs s) (pp_PDRID plan) = Some pi"
  shows "ApplyUpdatePDR drv plan s d =
     (let gone = filter (\<lambda>u. u \<notin> set (pp_URRIDs plan)) (RelatedURRIDs pi);
          (rs, d') = query_all drv (LocalID s) (filter (last_ref s) gone) d
      in (rs, s\<lparr>URRIDs := fold dec_ref gone (URRIDs s),
               PDRIDs := mput (pp_PDRID plan)
                 (pi\<lparr>RelatedURRIDs := fold List.insert (pp_URRIDs plan) []\<rparr>) (PDRIDs s)\<rparr>, d'))"
proof -
  have "related s (pp_PDRID plan) = RelatedURRIDs pi" using pi by (simp add: related_def)
  then have "distinct (RelatedURRIDs pi)" using ok by (metis refs_ok_iff)
  then show ?thesis
    using pi by (simp add: ApplyUpdatePDR_def diassociate_all_split fold_insert_set case_prod_beta
        Let_def)
qed

lemma refs_ok_update:
  assumes ok: "refs_ok s" and sub: "set (pp_URRIDs plan) \<subseteq> set (related s (pp_PDRID plan))"
  shows "refs_ok (fst (snd (ApplyUpdatePDR drv plan s d)))"
proof (cases "map_of (PDRIDs s) (pp_PDRID plan)")
  case None
  then show ?thesis using ok by (simp add: ApplyUpdatePDR_def)
next
  case (Some pi)
  let ?p = "pp_PDRID plan"
  let ?gone = "filter (\<lambda>u. u \<notin> set (pp_URRIDs plan)) (RelatedURRIDs pi)"
  have r: "related s ?p = RelatedURRIDs pi" using Some by (simp add: related_def)
  have d: "distinct (RelatedURRIDs pi)" using ok r by (metis refs_ok_iff)
  show ?thesis
  proof (rule refs_ok_drop [OF ok, where us = ?gone and p = ?p])
    show "distinct ?gone" using d by simp
    show "set ?gone \<subseteq> set (related s ?p)" using r by auto
  qed (use ok Some d r sub fold_insert_set [of "pp_URRIDs plan" "[]"] in
    \<open>auto simp: ApplyUpdatePDR_split [OF ok Some] refs_ok_iff related_def case_prod_beta Let_def\<close>)
qed

lemma refs_ok_put_urr:
  assumes ok: "refs_ok s" and j: "unat (refPdrNum j) = card (relating s u)"
  shows "refs_ok (s\<lparr>URRIDs := mput u j (URRIDs s)\<rparr>)"
proof -
  have "relating (s\<lparr>URRIDs := x\<rparr>) v = relating s v" "related (s\<lparr>URRIDs := x\<rparr>) p = related s p" for x v p
    by (simp_all add: relating_def related_def)
  then show ?thesis using ok j by (simp add: refs_ok_iff)
qed

lemma refs_ok_same_urr:
  assumes "refs_ok s" and "map_of (URRIDs s) u = Some i" and "refPdrNum j = refPdrNum i"
  shows "refs_ok (s\<lparr>URRIDs := mput u j (URRIDs s)\<rparr>)"
  using assms by (intro refs_ok_put_urr) (simp_all add: refs_ok_iff)

lemma refs_ok_createURR:
  "refs_ok s \<Longrightarrow> relating s (up_URRID plan) = {} \<Longrightarrow> refs_ok (ApplyCreateURR api plan s)"
  unfolding ApplyCreateURR_def Let_def by (rule refs_ok_put_urr) simp_all

lemma refs_ok_updateURR: "refs_ok s \<Longrightarrow> refs_ok (ApplyUpdateURR api plan s)"
  by (auto simp: ApplyUpdateURR_def Let_def split: option.splits intro!: refs_ok_same_urr)

lemma refs_ok_removeURR: "refs_ok s \<Longrightarrow> refs_ok (ApplyRemoveURR plan s)"
  by (auto simp: ApplyRemoveURR_def split: option.splits intro!: refs_ok_same_urr)

lemma refs_ok_URRSeq: "refs_ok s \<Longrightarrow> refs_ok (snd (URRSeq u s))"
  by (auto simp: URRSeq_def split: option.splits intro!: refs_ok_same_urr)

lemma refs_ok_cleanup: "refs_ok s \<Longrightarrow> refs_ok (CleanupRemovedURRs s)"
  by (auto simp: refs_ok_def CleanupRemovedURRs_def relating_def related_def list_all_iff
      distinct_map_filter)

lemma refs_ok_removePDR: "refs_ok s \<Longrightarrow> refs_ok (fst (snd (ApplyRemovePDR drv plan s d)))"
proof (cases "map_of (PDRIDs s) (pp_PDRID plan)")
  case None
  then show "refs_ok s \<Longrightarrow> ?thesis" by (simp add: ApplyRemovePDR_def)
next
  case (Some pi)
  assume ok: "refs_ok s"
  show ?thesis using refs_ok_remove [OF ok Some]
    by (simp add: ApplyRemovePDR_split [OF ok Some] case_prod_beta Let_def)
qed

lemmas refs_ok_intros = refs_ok_create refs_ok_update refs_ok_removePDR refs_ok_createURR
  refs_ok_updateURR refs_ok_removeURR refs_ok_cleanup refs_ok_URRSeq

text \<open>
  Runs of the operations that touch PDRs and URRs. \<open>op_ok\<close> is what the counters need of a request:
  a PDR is created once, names a URR at most once, an update only drops URRs, and a URR is not
  created while a PDR names its identifier.
\<close>

datatype 'ie sess_op =
  CreatePDR_op "'ie PDRPlan" | UpdatePDR_op "'ie PDRPlan" | RemovePDR_op "'ie PDRPlan"
| CreateURR_op "'ie URRPlan" | UpdateURR_op "'ie URRPlan" | RemoveURR_op "'ie URRPlan"
| Cleanup_op | Report_op u32

fun op_ok :: "'ie sess_op \<Rightarrow> Sess \<Rightarrow> bool" where
  "op_ok (CreatePDR_op plan) s \<longleftrightarrow> map_of (PDRIDs s) (pp_PDRID plan) = None
     \<and> distinct (pp_URRIDs plan) \<and> length (PDRIDs s) < 65535"
| "op_ok (UpdatePDR_op plan) s \<longleftrightarrow> set (pp_URRIDs plan) \<subseteq> set (related s (pp_PDRID plan))"
| "op_ok (CreateURR_op plan) s \<longleftrightarrow> relating s (up_URRID plan) = {}"
| "op_ok _ s \<longleftrightarrow> True"

fun op_run :: "('d, 'ie) Driver \<Rightarrow> 'ie ie_api \<Rightarrow> 'ie sess_op \<Rightarrow> Sess \<Rightarrow> 'd \<Rightarrow> Sess \<times> 'd" where
  "op_run drv api (CreatePDR_op plan) s d = (ApplyCreatePDR plan s, d)"
| "op_run drv api (UpdatePDR_op plan) s d = snd (ApplyUpdatePDR drv plan s d)"
| "op_run drv api (RemovePDR_op plan) s d = snd (ApplyRemovePDR drv plan s d)"
| "op_run drv api (CreateURR_op plan) s d = (ApplyCreateURR api plan s, d)"
| "op_run drv api (UpdateURR_op plan) s d = (ApplyUpdateURR api plan s, d)"
| "op_run drv api (RemoveURR_op plan) s d = (ApplyRemoveURR plan s, d)"
| "op_run drv api Cleanup_op s d = (CleanupRemovedURRs s, d)"
| "op_run drv api (Report_op u) s d = (snd (URRSeq u s), d)"

fun ops_run ::
  "('d, 'ie) Driver \<Rightarrow> 'ie ie_api \<Rightarrow> 'ie sess_op list \<Rightarrow> Sess \<Rightarrow> 'd \<Rightarrow> (Sess \<times> 'd) option" where
  "ops_run drv api [] s d = Some (s, d)"
| "ops_run drv api (x # xs) s d =
     (if op_ok x s then (let (s', d') = op_run drv api x s d in ops_run drv api xs s' d') else None)"

lemma op_run_refs_ok: "refs_ok s \<Longrightarrow> op_ok x s \<Longrightarrow> refs_ok (fst (op_run drv api x s d))"
  by (cases x) (auto intro: refs_ok_intros)

lemma ops_run_refs_ok:
  "ops_run drv api xs s d = Some (s', d') \<Longrightarrow> refs_ok s \<Longrightarrow> refs_ok s'"
proof (induction xs arbitrary: s d)
  case Nil
  then show ?case by simp
next
  case (Cons x xs)
  have ok: "op_ok x s" using Cons.prems(1) by (simp split: if_splits)
  have "ops_run drv api xs (fst (op_run drv api x s d)) (snd (op_run drv api x s d)) = Some (s', d')"
    using Cons.prems(1) ok by (simp add: case_prod_beta)
  from Cons.IH [OF this op_run_refs_ok [OF Cons.prems(2) ok]] show ?case .
qed


definition plain_ops :: "plain_ie sess_op list" where
  "plain_ops = [CreateURR_op (zero_URRPlan\<lparr>up_URRID := 5\<rparr>),
     CreatePDR_op (zero_PDRPlan\<lparr>pp_PDRID := 1, pp_URRIDs := [5]\<rparr>),
     CreatePDR_op (zero_PDRPlan\<lparr>pp_PDRID := 2, pp_URRIDs := [5]\<rparr>),
     UpdatePDR_op (zero_PDRPlan\<lparr>pp_PDRID := 1, pp_URRIDs := []\<rparr>), Report_op 5,
     RemovePDR_op (zero_PDRPlan\<lparr>pp_PDRID := 2\<rparr>)]"



section \<open>Closing\<close>

lemma remove_FAR_loop:
  "fold ApplyRemoveFAR ps s = s\<lparr>FARIDs := filter (\<lambda>i. i \<notin> fp_FARID ` set ps) (FARIDs s)\<rparr>"
  by (induction ps arbitrary: s)
    (auto simp: ApplyRemoveFAR_def removeAll_filter_not_eq intro!: Sess.equality filter_cong)

lemma remove_QER_loop:
  "fold ApplyRemoveQER ps s = s\<lparr>QERIDs := filter (\<lambda>i. i \<notin> qp_QERID ` set ps) (QERIDs s)\<rparr>"
  by (induction ps arbitrary: s)
    (auto simp: ApplyRemoveQER_def removeAll_filter_not_eq intro!: Sess.equality filter_cong)

lemma remove_BAR_loop:
  "fold ApplyRemoveBAR ps s = s\<lparr>BARIDs := filter (\<lambda>i. i \<notin> bp_BARID ` set ps) (BARIDs s)\<rparr>"
  by (induction ps arbitrary: s)
    (auto simp: ApplyRemoveBAR_def removeAll_filter_not_eq intro!: Sess.equality filter_cong)

lemma remove_URR_loop:
  "\<exists>m. fold ApplyRemoveURR ps s = s\<lparr>URRIDs := m\<rparr> \<and> (\<forall>u. map_of m u =
     map_option (\<lambda>i. if u \<in> up_URRID ` set ps then i\<lparr>removed := True\<rparr> else i) (map_of (URRIDs s) u))"
proof (induction ps arbitrary: s)
  case Nil
  show ?case by (rule exI [of _ "URRIDs s"]) (simp add: option.map_ident)
next
  case (Cons p ps)
  obtain n where n: "ApplyRemoveURR p s = s\<lparr>URRIDs := n\<rparr>"
    "\<And>u. map_of n u = map_option (\<lambda>i. if u = up_URRID p then i\<lparr>removed := True\<rparr> else i) (map_of (URRIDs s) u)"
  proof (cases "map_of (URRIDs s) (up_URRID p)")
    case None
    then have "map_of (URRIDs s) u =
        map_option (\<lambda>i. if u = up_URRID p then i\<lparr>removed := True\<rparr> else i) (map_of (URRIDs s) u)" for u
      by (cases "map_of (URRIDs s) u") auto
    with None show ?thesis by (intro that [of "URRIDs s"]) (simp_all add: ApplyRemoveURR_def)
  next
    case (Some i)
    then show ?thesis
      by (intro that [of "mput (up_URRID p) (i\<lparr>removed := True\<rparr>) (URRIDs s)"])
        (auto simp: ApplyRemoveURR_def option.map_ident)
  qed
  obtain m where m: "fold ApplyRemoveURR ps (s\<lparr>URRIDs := n\<rparr>) = s\<lparr>URRIDs := m\<rparr>"
    "\<And>u. map_of m u =
       map_option (\<lambda>i. if u \<in> up_URRID ` set ps then i\<lparr>removed := True\<rparr> else i) (map_of n u)"
    using Cons.IH [of "s\<lparr>URRIDs := n\<rparr>"] by auto
  show ?case
    by (rule exI [of _ m]) (auto simp: n m option.map_comp intro!: option.map_cong0)
qed

lemma diassociate_all_frame:
  "fst (snd (diassociate_all drv us s d)) = s\<lparr>URRIDs := fold dec_ref us (URRIDs s)\<rparr>"
  by (induction us arbitrary: s d) (simp_all add: diassociateURR_split case_prod_beta Let_def)

lemma dom_fold_dec_ref: "dom (map_of (fold dec_ref us m)) = dom (map_of m)"
proof (induction us arbitrary: m)
  case (Cons u us)
  have "dom (map_of (dec_ref u m)) = dom (map_of m)" by (auto simp: dec_ref_def split: option.splits)
  with Cons show ?case by simp
qed simp

lemma ApplyRemovePDR_frame:
  "\<exists>m. fst (snd (ApplyRemovePDR drv plan s d))
       = s\<lparr>URRIDs := m, PDRIDs := mdel (pp_PDRID plan) (PDRIDs s)\<rparr>
     \<and> dom (map_of m) = dom (map_of (URRIDs s))"
proof (cases "map_of (PDRIDs s) (pp_PDRID plan)")
  case None
  then have "mdel (pp_PDRID plan) (PDRIDs s) = PDRIDs s"
    by (simp add: map_of_eq_None_iff delete_id)
  then show ?thesis using None by (intro exI [of _ "URRIDs s"]) (simp add: ApplyRemovePDR_def)
next
  case (Some pi)
  then show ?thesis
    by (intro exI [of _ "fold dec_ref (RelatedURRIDs pi) (URRIDs s)"])
      (simp add: ApplyRemovePDR_def case_prod_beta Let_def diassociate_all_frame dom_fold_dec_ref)
qed

lemma ApplyRemovePDRs_frame:
  "\<exists>m. fst (snd (ApplyRemovePDRs drv ps s d))
       = s\<lparr>URRIDs := m, PDRIDs := filter (\<lambda>x. fst x \<notin> pp_PDRID ` set ps) (PDRIDs s)\<rparr>
     \<and> dom (map_of m) = dom (map_of (URRIDs s))"
proof (induction ps arbitrary: s d)
  case Nil
  show ?case by (rule exI [of _ "URRIDs s"]) simp
next
  case (Cons p ps)
  obtain m where m: "fst (snd (ApplyRemovePDR drv p s d))
       = s\<lparr>URRIDs := m, PDRIDs := mdel (pp_PDRID p) (PDRIDs s)\<rparr>" "dom (map_of m) = dom (map_of (URRIDs s))"
    using ApplyRemovePDR_frame [of drv p s d] by (elim exE conjE) (rule that)
  have f: "filter (\<lambda>x. fst x \<notin> pp_PDRID ` set ps) (mdel (pp_PDRID p) (PDRIDs s))
      = filter (\<lambda>x. fst x \<notin> pp_PDRID ` set (p # ps)) (PDRIDs s)"
    by (simp add: AList.delete_eq case_prod_beta) (intro filter_cong; auto)
  show ?case
    using Cons.IH [of "s\<lparr>URRIDs := m, PDRIDs := mdel (pp_PDRID p) (PDRIDs s)\<rparr>"
        "snd (snd (ApplyRemovePDR drv p s d))"] m f
    by (simp add: case_prod_beta Let_def)
qed

lemma map_filter_ids:
  assumes "\<And>i. map_option g (f i) = Some i"
  shows "g ` set (List.map_filter f xs) = set xs"
proof (induction xs)
  case Nil
  show ?case by (simp add: map_filter_simps)
next
  case (Cons x xs)
  obtain y where "f x = Some y" and "g y = x" using assms [of x] by auto
  with Cons show ?case by (simp add: map_filter_simps)
qed

lemma filter_no_keys: "filter (\<lambda>x. fst x \<notin> set (keys m)) m = []"
  by (simp add: filter_empty_conv)

text \<open>C18: Closing a session releases everything it holds. With a driver whose remove plans are for the
  identifiers they are built from, \<open>Close\<close> leaves no PDR, FAR, QER or BAR, marks every URR of the
  session as removed (it drops none, so the deletion response can still report them), closes every
  packet queue, and keeps the session's identifiers; this holds for every outcome of the driver.\<close>

theorem Close_releases_all:
  assumes "remove_plans_ok drv api" and "Close drv api s d = (rs, s', d')"
  shows "PDRIDs s' = [] \<and> FARIDs s' = [] \<and> QERIDs s' = [] \<and> BARIDs s' = []
    \<and> dom (map_of (URRIDs s')) = dom (map_of (URRIDs s))
    \<and> (\<forall>u i. map_of (URRIDs s') u = Some i \<longrightarrow> removed i)
    \<and> list_all (\<lambda>(_, _, closed). closed) (s_q s')
    \<and> LocalID s' = LocalID s \<and> RemoteID s' = RemoteID s \<and> s_rnode s' = s_rnode s"
proof -
  let ?plan = "close_plan drv api s"
  have ids: "pp_PDRID ` set (RemovePDRs ?plan) = set (keys (PDRIDs s))"
    "fp_FARID ` set (RemoveFARs ?plan) = set (FARIDs s)"
    "qp_QERID ` set (RemoveQERs ?plan) = set (QERIDs s)"
    "bp_BARID ` set (RemoveBARs ?plan) = set (BARIDs s)"
    "up_URRID ` set (RemoveURRs ?plan) = set (keys (URRIDs s))"
    using assms(1) unfolding close_plan_def remove_plans_ok_def
    by (simp_all only: ModificationPlan.simps NewModificationPlan_def map_filter_ids)
  obtain x ks d1 where d1: "ExecuteModificationPlan drv d ?plan (\<lambda>k. q_items k s) = (x, ks, d1)"
    by (metis prod_cases3)
  obtain q where q: "fold drain_q ks s = s\<lparr>s_q := q\<rparr>" using drain_frame [of ks s] by blast
  let ?drained = "s\<lparr>s_q := q\<rparr>"
  have e: "PDRIDs ?drained = PDRIDs s" "URRIDs ?drained = URRIDs s" by simp_all
  obtain m where m: "fst (snd (ApplyRemovePDRs drv (RemovePDRs ?plan) ?drained d1))
      = ?drained\<lparr>URRIDs := m, PDRIDs := []\<rparr>" "dom (map_of m) = dom (map_of (URRIDs s))"
    using ApplyRemovePDRs_frame [of drv "RemovePDRs ?plan" ?drained d1]
    unfolding e ids(1) filter_no_keys by (elim exE conjE) (rule that)
  let ?s1 = "?drained\<lparr>URRIDs := m, PDRIDs := []\<rparr>"
  have b: "fold ApplyRemoveBAR (RemoveBARs ?plan) ?s1 = ?s1\<lparr>BARIDs := []\<rparr>"
    using ids(4) by (simp add: remove_BAR_loop)
  obtain n where n: "fold ApplyRemoveURR (RemoveURRs ?plan) (?s1\<lparr>BARIDs := []\<rparr>)
      = ?s1\<lparr>BARIDs := [], URRIDs := n\<rparr>"
    "\<And>u. map_of n u = map_option
       (\<lambda>i. if u \<in> up_URRID ` set (RemoveURRs ?plan) then i\<lparr>removed := True\<rparr> else i) (map_of m u)"
    using remove_URR_loop [of "RemoveURRs ?plan" "?s1\<lparr>BARIDs := []\<rparr>"] by auto
  have s': "s' = ?s1\<lparr>BARIDs := [], URRIDs := n, QERIDs := [], FARIDs := [],
      s_q := map (\<lambda>(k, ps, _). (k, ps, True)) q\<rparr>"
    using assms(2) d1 q m(1) b n(1) ids(2,3)
    by (auto simp: Close_def Let_def case_prod_beta remove_QER_loop remove_FAR_loop)
  have "removed i" if "map_of n u = Some i" for u i
  proof -
    from that have "u \<in> dom (map_of m)" by (auto simp: n(2))
    then have "u \<in> up_URRID ` set (RemoveURRs ?plan)" by (simp only: m(2) ids(5) set_keys_dom)
    then show ?thesis using that by (auto simp: n(2))
  qed
  moreover have "dom (map_of n) = dom (map_of (URRIDs s))" using m(2) by (auto simp: n(2) dom_def)
  ultimately show ?thesis by (auto simp: s' list_all_iff)
qed

theorem Close_releases_all_witness:
  "let s = (empty_sess (Some 0) 1 2 3)\<lparr>PDRIDs := [(9, \<lparr>RelatedURRIDs = []\<rparr>)], FARIDs := [4],
       s_q := [(9, [[1]], False)]\<rparr>
   in remove_plans_ok plain_driver plain_api
      \<and> PDRIDs (fst (snd (Close plain_driver plain_api s []))) = []"
proof -
  obtain rs s' d' where "Close plain_driver plain_api ((empty_sess (Some 0) 1 2 3)
       \<lparr>PDRIDs := [(9, \<lparr>RelatedURRIDs = []\<rparr>)], FARIDs := [4], s_q := [(9, [[1]], False)]\<rparr>) []
       = (rs, s', d')"
    by (metis prod_cases3)
  then show ?thesis
    using plain_remove_plans_ok Close_releases_all [OF plain_remove_plans_ok] unfolding Let_def by force
qed

section \<open>What no operation changes\<close>

definition sess_hdr :: "Sess \<Rightarrow> nat option \<times> nat \<times> nat \<times> (u16, chan) gomap \<times> nat" where
  "sess_hdr s = (s_rnode s, LocalID s, RemoteID s, s_q s, s_qlen s)"

lemma sess_hdr_apply [simp]:
  "sess_hdr (ApplyCreatePDR p s) = sess_hdr s"
  "sess_hdr (ApplyCreateFAR f s) = sess_hdr s"
  "sess_hdr (ApplyRemoveFAR f s) = sess_hdr s"
  "sess_hdr (ApplyCreateQER q s) = sess_hdr s"
  "sess_hdr (ApplyRemoveQER q s) = sess_hdr s"
  "sess_hdr (ApplyCreateURR api u s) = sess_hdr s"
  "sess_hdr (ApplyUpdateURR api u s) = sess_hdr s"
  "sess_hdr (ApplyRemoveURR u s) = sess_hdr s"
  "sess_hdr (ApplyCreateBAR b s) = sess_hdr s"
  "sess_hdr (ApplyRemoveBAR b s) = sess_hdr s"
  "sess_hdr (CleanupRemovedURRs s) = sess_hdr s"
  by (simp_all add: sess_hdr_def ApplyCreatePDR_def ApplyCreateFAR_def ApplyRemoveFAR_def
      ApplyCreateQER_def ApplyRemoveQER_def ApplyCreateURR_def ApplyUpdateURR_def ApplyRemoveURR_def
      ApplyCreateBAR_def ApplyRemoveBAR_def CleanupRemovedURRs_def Let_def case_prod_beta
      split: option.splits)

lemma sess_hdr_reports [simp]:
  "sess_hdr (snd (URRSeq u s)) = sess_hdr s"
  "sess_hdr (fst (snd (ApplyUpdatePDR drv p s d))) = sess_hdr s"
  "sess_hdr (fst (snd (ApplyRemovePDR drv p s d))) = sess_hdr s"
  by (simp_all add: sess_hdr_def URRSeq_def ApplyUpdatePDR_def ApplyRemovePDR_def Let_def
      case_prod_beta diassociate_all_frame split: option.splits)

section \<open>Which rules a session holds\<close>

text \<open>The URRs of a session, each with its flag \<open>removed\<close>.\<close>

definition urr_flags :: "Sess \<Rightarrow> u32 \<Rightarrow> bool option" where
  "urr_flags s u = map_option removed (map_of (URRIDs s) u)"

lemma urr_flags_same:
  "map_of m = map_of (URRIDs s) \<Longrightarrow> urr_flags (s\<lparr>URRIDs := m\<rparr>) = urr_flags s"
  by (simp add: urr_flags_def fun_eq_iff)

lemma urr_flags_put:
  "urr_flags (s\<lparr>URRIDs := mput u i (URRIDs s)\<rparr>) = (urr_flags s)(u \<mapsto> removed i)"
  by (simp add: urr_flags_def fun_eq_iff)

lemma urr_flags_dec: "map_option removed (map_of (fold dec_ref us m) u) = map_option removed (map_of m u)"
proof (induction us arbitrary: m)
  case (Cons v us)
  have "map_option removed (map_of (dec_ref v m) u) = map_option removed (map_of m u)"
    by (simp add: dec_ref_def split: option.splits)
  with Cons show ?case by simp
qed simp

lemma urr_flags_bump:
  "bump_refs us acc m = (ids, m') \<Longrightarrow> map_option removed (map_of m' u) = map_option removed (map_of m u)"
proof (induction us arbitrary: acc m)
  case (Cons v us)
  let ?n = "case map_of m v of None \<Rightarrow> m | Some i \<Rightarrow> mput v (i\<lparr>refPdrNum := refPdrNum i + 1\<rparr>) m"
  have "map_option removed (map_of ?n u) = map_option removed (map_of m u)"
    by (auto split: option.splits)
  with Cons.IH [OF Cons.prems [unfolded bump_refs.simps]] show ?case by simp
qed simp

lemma urr_flags_pdr [simp]:
  "urr_flags (ApplyCreatePDR p s) = urr_flags s"
  "urr_flags (fst (snd (ApplyUpdatePDR drv p s d))) = urr_flags s"
  "urr_flags (fst (snd (ApplyRemovePDR drv p s d))) = urr_flags s"
  by (auto simp: urr_flags_def fun_eq_iff ApplyCreatePDR_def ApplyUpdatePDR_def ApplyRemovePDR_def
      Let_def case_prod_beta diassociate_all_frame urr_flags_dec split: option.splits
      intro!: urr_flags_bump [of _ "[]" _ "fst (bump_refs (pp_URRIDs p) [] (URRIDs s))"])

lemma urr_flags_urr [simp]:
  "urr_flags (ApplyCreateURR api u s) = (urr_flags s)(up_URRID u \<mapsto> False)"
  "urr_flags (ApplyUpdateURR api u s) = urr_flags s"
  "urr_flags (ApplyRemoveURR u s) =
     (if urr_flags s (up_URRID u) = None then urr_flags s else (urr_flags s)(up_URRID u \<mapsto> True))"
  "urr_flags (snd (URRSeq k s)) = urr_flags s"
  by (auto simp: urr_flags_def fun_eq_iff ApplyCreateURR_def ApplyUpdateURR_def ApplyRemoveURR_def
      URRSeq_def Let_def split: option.splits)

lemma urr_flags_other [simp]:
  "urr_flags (ApplyCreateFAR f s) = urr_flags s" "urr_flags (ApplyRemoveFAR f s) = urr_flags s"
  "urr_flags (ApplyCreateQER q s) = urr_flags s" "urr_flags (ApplyRemoveQER q s) = urr_flags s"
  "urr_flags (ApplyCreateBAR b s) = urr_flags s" "urr_flags (ApplyRemoveBAR b s) = urr_flags s"
  by (simp_all add: urr_flags_def fun_eq_iff ApplyCreateFAR_def ApplyRemoveFAR_def ApplyCreateQER_def
      ApplyRemoveQER_def ApplyCreateBAR_def ApplyRemoveBAR_def)

lemma urr_flags_cleanup:
  "wf_gomap (URRIDs s) \<Longrightarrow>
    urr_flags (CleanupRemovedURRs s) u = (if urr_flags s u = Some False then Some False else None)"
  by (auto simp: urr_flags_def CleanupRemovedURRs_def map_of_filter_vals split: option.splits)

text \<open>The identifiers of the other rules, and what each operation does to them.\<close>

definition far_ids :: "Sess \<Rightarrow> u32 set" where "far_ids s = set (FARIDs s)"
definition qer_ids :: "Sess \<Rightarrow> u32 set" where "qer_ids s = set (QERIDs s)"
definition bar_ids :: "Sess \<Rightarrow> u8 set" where "bar_ids s = set (BARIDs s)"
definition pdr_ids :: "Sess \<Rightarrow> u16 set" where "pdr_ids s = set (keys (PDRIDs s))"

lemmas ids_defs = far_ids_def qer_ids_def bar_ids_def pdr_ids_def

lemma diassociate_ids [simp]:
  "PDRIDs (fst (snd (diassociate_all drv us s d))) = PDRIDs s"
  "FARIDs (fst (snd (diassociate_all drv us s d))) = FARIDs s"
  "QERIDs (fst (snd (diassociate_all drv us s d))) = QERIDs s"
  "BARIDs (fst (snd (diassociate_all drv us s d))) = BARIDs s"
  by (simp_all add: diassociate_all_frame)

lemma far_ids_op [simp]:
  "far_ids (ApplyCreateFAR f s) = insert (fp_FARID f) (far_ids s)"
  "far_ids (ApplyRemoveFAR f s) = far_ids s - {fp_FARID f}"
  "far_ids (ApplyCreateQER q s) = far_ids s" "far_ids (ApplyRemoveQER q s) = far_ids s"
  "far_ids (ApplyCreateBAR b s) = far_ids s" "far_ids (ApplyRemoveBAR b s) = far_ids s"
  "far_ids (ApplyCreateURR api u s) = far_ids s" "far_ids (ApplyUpdateURR api u s) = far_ids s"
  "far_ids (ApplyRemoveURR u s) = far_ids s" "far_ids (ApplyCreatePDR p s) = far_ids s"
  "far_ids (fst (snd (ApplyUpdatePDR drv p s d))) = far_ids s"
  "far_ids (fst (snd (ApplyRemovePDR drv p s d))) = far_ids s"
  "far_ids (CleanupRemovedURRs s) = far_ids s" "far_ids (snd (URRSeq k s)) = far_ids s"
  by (simp_all add: ids_defs ApplyCreateFAR_def ApplyRemoveFAR_def ApplyCreateQER_def ApplyRemoveQER_def
      ApplyCreateBAR_def ApplyRemoveBAR_def ApplyCreateURR_def ApplyUpdateURR_def ApplyRemoveURR_def
      ApplyCreatePDR_def ApplyUpdatePDR_def ApplyRemovePDR_def CleanupRemovedURRs_def URRSeq_def Let_def
      case_prod_beta split: option.splits)

lemma qer_ids_op [simp]:
  "qer_ids (ApplyCreateFAR f s) = qer_ids s" "qer_ids (ApplyRemoveFAR f s) = qer_ids s"
  "qer_ids (ApplyCreateQER q s) = insert (qp_QERID q) (qer_ids s)"
  "qer_ids (ApplyRemoveQER q s) = qer_ids s - {qp_QERID q}"
  "qer_ids (ApplyCreateBAR b s) = qer_ids s" "qer_ids (ApplyRemoveBAR b s) = qer_ids s"
  "qer_ids (ApplyCreateURR api u s) = qer_ids s" "qer_ids (ApplyUpdateURR api u s) = qer_ids s"
  "qer_ids (ApplyRemoveURR u s) = qer_ids s" "qer_ids (ApplyCreatePDR p s) = qer_ids s"
  "qer_ids (fst (snd (ApplyUpdatePDR drv p s d))) = qer_ids s"
  "qer_ids (fst (snd (ApplyRemovePDR drv p s d))) = qer_ids s"
  "qer_ids (CleanupRemovedURRs s) = qer_ids s" "qer_ids (snd (URRSeq k s)) = qer_ids s"
  by (simp_all add: ids_defs ApplyCreateFAR_def ApplyRemoveFAR_def ApplyCreateQER_def ApplyRemoveQER_def
      ApplyCreateBAR_def ApplyRemoveBAR_def ApplyCreateURR_def ApplyUpdateURR_def ApplyRemoveURR_def
      ApplyCreatePDR_def ApplyUpdatePDR_def ApplyRemovePDR_def CleanupRemovedURRs_def URRSeq_def Let_def
      case_prod_beta split: option.splits)

lemma bar_ids_op [simp]:
  "bar_ids (ApplyCreateFAR f s) = bar_ids s" "bar_ids (ApplyRemoveFAR f s) = bar_ids s"
  "bar_ids (ApplyCreateQER q s) = bar_ids s" "bar_ids (ApplyRemoveQER q s) = bar_ids s"
  "bar_ids (ApplyCreateBAR b s) = insert (bp_BARID b) (bar_ids s)"
  "bar_ids (ApplyRemoveBAR b s) = bar_ids s - {bp_BARID b}"
  "bar_ids (ApplyCreateURR api u s) = bar_ids s" "bar_ids (ApplyUpdateURR api u s) = bar_ids s"
  "bar_ids (ApplyRemoveURR u s) = bar_ids s" "bar_ids (ApplyCreatePDR p s) = bar_ids s"
  "bar_ids (fst (snd (ApplyUpdatePDR drv p s d))) = bar_ids s"
  "bar_ids (fst (snd (ApplyRemovePDR drv p s d))) = bar_ids s"
  "bar_ids (CleanupRemovedURRs s) = bar_ids s" "bar_ids (snd (URRSeq k s)) = bar_ids s"
  by (simp_all add: ids_defs ApplyCreateFAR_def ApplyRemoveFAR_def ApplyCreateQER_def ApplyRemoveQER_def
      ApplyCreateBAR_def ApplyRemoveBAR_def ApplyCreateURR_def ApplyUpdateURR_def ApplyRemoveURR_def
      ApplyCreatePDR_def ApplyUpdatePDR_def ApplyRemovePDR_def CleanupRemovedURRs_def URRSeq_def Let_def
      case_prod_beta split: option.splits)

lemma pdr_ids_op [simp]:
  "pdr_ids (ApplyCreateFAR f s) = pdr_ids s" "pdr_ids (ApplyRemoveFAR f s) = pdr_ids s"
  "pdr_ids (ApplyCreateQER q s) = pdr_ids s" "pdr_ids (ApplyRemoveQER q s) = pdr_ids s"
  "pdr_ids (ApplyCreateBAR b s) = pdr_ids s" "pdr_ids (ApplyRemoveBAR b s) = pdr_ids s"
  "pdr_ids (ApplyCreateURR api u s) = pdr_ids s" "pdr_ids (ApplyUpdateURR api u s) = pdr_ids s"
  "pdr_ids (ApplyRemoveURR u s) = pdr_ids s"
  "pdr_ids (ApplyCreatePDR p s) = insert (pp_PDRID p) (pdr_ids s)"
  "pdr_ids (fst (snd (ApplyUpdatePDR drv p s d))) = pdr_ids s"
  "pdr_ids (fst (snd (ApplyRemovePDR drv p s d))) = pdr_ids s - {pp_PDRID p}"
  "pdr_ids (CleanupRemovedURRs s) = pdr_ids s" "pdr_ids (snd (URRSeq k s)) = pdr_ids s"
  by (auto simp: pdr_ids_def fst_image_iff set_keys_dom ApplyCreateFAR_def ApplyRemoveFAR_def
      ApplyCreateQER_def ApplyRemoveQER_def ApplyCreateBAR_def ApplyRemoveBAR_def ApplyCreateURR_def
      ApplyUpdateURR_def ApplyRemoveURR_def ApplyCreatePDR_def ApplyUpdatePDR_def ApplyRemovePDR_def
      CleanupRemovedURRs_def URRSeq_def Let_def case_prod_beta simp del: set_map
      split: option.splits)

text \<open>An observation that one \<open>ApplyUpdatePDR\<close> keeps is kept by the loop; one from which one
  \<open>ApplyRemovePDR\<close> takes \<open>h p\<close> loses all of them in the loop.\<close>

lemma ApplyUpdatePDRs_same:
  "(\<And>p s d. f (fst (snd (ApplyUpdatePDR drv p s d))) = f s) \<Longrightarrow>
    f (fst (snd (ApplyUpdatePDRs drv ps s d))) = f s"
  by (induction ps arbitrary: s d) (simp_all add: case_prod_beta Let_def)

lemma ApplyRemovePDRs_same:
  "(\<And>p s d. f (fst (snd (ApplyRemovePDR drv p s d))) = f s) \<Longrightarrow>
    f (fst (snd (ApplyRemovePDRs drv ps s d))) = f s"
  by (induction ps arbitrary: s d) (simp_all add: case_prod_beta Let_def)

lemma pdr_ids_removes: "pdr_ids (fst (snd (ApplyRemovePDRs drv ps s d))) = pdr_ids s - pp_PDRID ` set ps"
  by (induction ps arbitrary: s d) (auto simp: case_prod_beta Let_def)

section \<open>Well-formed sessions\<close>

text \<open>
  What holds of a session between two handlers: its queues are open, the URR map has distinct keys,
  and no URR is flagged as removed (a handler drops the flagged ones before it ends).
\<close>

definition sess_open :: "Sess \<Rightarrow> bool" where
  "sess_open s \<longleftrightarrow> list_all (\<lambda>(_, _, closed). \<not> closed) (s_q s)"

definition urrs_ok :: "Sess \<Rightarrow> bool" where
  "urrs_ok s \<longleftrightarrow> wf_gomap (URRIDs s) \<and> (\<forall>u. urr_flags s u \<noteq> Some True)"

definition sess_ok :: "Sess \<Rightarrow> bool" where
  "sess_ok s \<longleftrightarrow> sess_open s \<and> urrs_ok s"

lemma sess_ok_empty [simp]: "sess_ok (empty_sess a i r q)"
  by (simp add: sess_ok_def sess_open_def urrs_ok_def urr_flags_def empty_sess_def)

lemma sess_open_hdr: "sess_hdr s = sess_hdr t \<Longrightarrow> sess_open s = sess_open t"
  by (simp add: sess_hdr_def sess_open_def)

lemma wf_bump: "bump_refs us acc m = (ids, m') \<Longrightarrow> wf_gomap m \<Longrightarrow> wf_gomap m'"
proof (induction us arbitrary: acc m)
  case (Cons u us)
  show ?case
    by (rule Cons.IH [OF Cons.prems(1) [unfolded bump_refs.simps]])
      (use Cons.prems(2) in \<open>auto split: option.splits\<close>)
qed simp

lemma wf_urrs_op [simp]:
  "wf_gomap (URRIDs s) \<Longrightarrow> wf_gomap (URRIDs (ApplyCreateURR api u s))"
  "wf_gomap (URRIDs s) \<Longrightarrow> wf_gomap (URRIDs (ApplyUpdateURR api u s))"
  "wf_gomap (URRIDs s) \<Longrightarrow> wf_gomap (URRIDs (ApplyRemoveURR u s))"
  "wf_gomap (URRIDs s) \<Longrightarrow> wf_gomap (URRIDs (snd (URRSeq k s)))"
  "wf_gomap (URRIDs s) \<Longrightarrow> wf_gomap (URRIDs (CleanupRemovedURRs s))"
  by (simp_all add: ApplyCreateURR_def ApplyUpdateURR_def ApplyRemoveURR_def URRSeq_def
      CleanupRemovedURRs_def Let_def distinct_map_filter split: option.splits)

lemma wf_urrs_pdr [simp]:
  "wf_gomap (URRIDs s) \<Longrightarrow> wf_gomap (URRIDs (ApplyCreatePDR p s))"
  "wf_gomap (URRIDs s) \<Longrightarrow> wf_gomap (URRIDs (fst (snd (ApplyUpdatePDR drv p s d))))"
  "wf_gomap (URRIDs s) \<Longrightarrow> wf_gomap (URRIDs (fst (snd (ApplyRemovePDR drv p s d))))"
  using wf_bump [OF surjective_pairing, where us = "pp_URRIDs p" and acc = "[]" and m = "URRIDs s"]
  by (simp_all add: ApplyCreatePDR_def ApplyUpdatePDR_def ApplyRemovePDR_def diassociate_all_frame Let_def
      case_prod_beta split: option.splits)

lemma wf_urrs_other [simp]:
  "URRIDs (ApplyCreateFAR f s) = URRIDs s" "URRIDs (ApplyRemoveFAR f s) = URRIDs s"
  "URRIDs (ApplyCreateQER q s) = URRIDs s" "URRIDs (ApplyRemoveQER q s) = URRIDs s"
  "URRIDs (ApplyCreateBAR b s) = URRIDs s" "URRIDs (ApplyRemoveBAR b s) = URRIDs s"
  by (simp_all add: ApplyCreateFAR_def ApplyRemoveFAR_def ApplyCreateQER_def ApplyRemoveQER_def
      ApplyCreateBAR_def ApplyRemoveBAR_def)

lemma urrs_ok_URRSeq [simp]: "urrs_ok s \<Longrightarrow> urrs_ok (snd (URRSeq k s))"
  by (simp add: urrs_ok_def)

lemma urrs_ok_cleanup: "wf_gomap (URRIDs s) \<Longrightarrow> urrs_ok (CleanupRemovedURRs s)"
  by (simp add: urrs_ok_def urr_flags_cleanup)

lemma fold_keeps: "P s \<Longrightarrow> (\<And>x s. P s \<Longrightarrow> P (g x s)) \<Longrightarrow> P (fold g xs s)"
  by (induction xs arbitrary: s) simp_all

lemma drain_ok: "sess_ok s \<Longrightarrow> sess_ok (fold drain_q ks s)"
proof (induction ks arbitrary: s)
  case (Cons k ks)
  have put: "list_all (\<lambda>(_, _, closed). \<not> closed) (mput k (ps, False) m)"
    if "list_all (\<lambda>(_, _, closed). \<not> closed) m" for m :: "(u16, chan) gomap" and ps
    using that by (induction m) auto
  have "sess_ok (drain_q k s)"
  proof (cases "map_of (s_q s) k")
    case None
    then show ?thesis using Cons.prems by (simp add: drain_q_def)
  next
    case (Some pc)
    then have "\<not> snd pc"
      using Cons.prems by (auto simp: sess_ok_def sess_open_def list_all_iff dest!: map_of_SomeD)
    then show ?thesis using Cons.prems Some put
      by (cases pc) (simp add: drain_q_def sess_ok_def sess_open_def urrs_ok_def urr_flags_def)
  qed
  then show ?case using Cons.IH by simp
qed simp

lemma Push_ok:
  assumes "sess_ok s"
  shows "\<exists>s'. Push k p s = Some s' \<and> sess_ok s' \<and> s_rnode s' = s_rnode s \<and> LocalID s' = LocalID s
    \<and> RemoteID s' = RemoteID s \<and> URRIDs s' = URRIDs s"
proof -
  have open': "\<not> c" if "map_of (s_q s) k = Some (ps, c)" for k ps c
    using assms that by (auto simp: sess_ok_def sess_open_def list_all_iff dest!: map_of_SomeD)
  have put: "list_all (\<lambda>(_, _, closed). \<not> closed) (mput k (ps, False) m)"
    if "list_all (\<lambda>(_, _, closed). \<not> closed) m" for m :: "(u16, chan) gomap" and ps
    using that by (induction m) auto
  have flags: "urr_flags (s\<lparr>s_q := q\<rparr>) = urr_flags s" for q by (simp add: urr_flags_def fun_eq_iff)
  show ?thesis
  proof (cases "map_of (s_q s) k")
    case None
    then show ?thesis using assms put
      by (auto simp: Push_def Let_def sess_ok_def sess_open_def urrs_ok_def flags)
  next
    case (Some pc)
    then obtain ps where "map_of (s_q s) k = Some (ps, False)" using open' by (cases pc) auto
    then show ?thesis using assms put
      by (auto simp: Push_def Let_def sess_ok_def sess_open_def urrs_ok_def flags)
  qed
qed

end
