(* ===== verification/Upf_Node.thy ===== *)
theory Upf_Node
  imports Upf_Session
begin

text \<open>
  The session table of the UPF and its remote nodes, the types \<open>LocalNode\<close> and \<open>RemoteNode\<close> of
  \<open>NFs/upf/internal/pfcp/node.go\<close>.

  A \<open>LocalNode\<close> is a slice of session pointers (\<open>None\<close> is nil) indexed by SEID - 1 and a stack of
  freed SEIDs. Remote nodes are shared (a session points to its node, the server's map points to it
  too, and a node may leave the map while sessions still point to it), so they live in an explicit
  heap. \<open>Nodes\<close> is the part of the server's state that these operations read and write; the server
  extends this record. An operation that can panic returns \<open>None\<close>.

  \<open>nodes_inv\<close> is the invariant: the free list is exactly the set of empty slots, a session sits in
  the slot of its SEID, and sessions and nodes refer to each other.
\<close>

section \<open>State\<close>

record RemoteNode =
  rn_ID :: string
  rn_addr :: string
  rn_sess :: "nat list"

record LocalNode =
  ln_sess :: "Sess option list"
  ln_free :: "nat list"

type_synonym rheap = "(nat, RemoteNode) gomap"

record 'd Nodes =
  heap :: rheap
  lnode :: LocalNode
  dstate :: 'd

section \<open>The session table\<close>

definition LocalNode_Sess :: "nat \<Rightarrow> LocalNode \<Rightarrow> Sess option" where
  "LocalNode_Sess lSeid n =
     (if lSeid = 0 then None
      else if lSeid > length (ln_sess n) then None
      else ln_sess n ! (lSeid - 1))"

definition LocalNode_NewSess :: "nat \<Rightarrow> nat \<Rightarrow> LocalNode \<Rightarrow> (Sess \<times> LocalNode) option" where
  "LocalNode_NewSess rSeid qlen n =
     (if ln_free n \<noteq> [] then
        let lid = last (ln_free n); s = empty_sess None lid rSeid qlen
        in if lid = 0 \<or> lid > length (ln_sess n) then None
           else Some (s, \<lparr>ln_sess = (ln_sess n)[lid - 1 := Some s], ln_free = butlast (ln_free n)\<rparr>)
      else
        let s = empty_sess None (length (ln_sess n) + 1) rSeid qlen
        in Some (s, n\<lparr>ln_sess := ln_sess n @ [Some s]\<rparr>))"

text \<open>A write through a pointer to the session with SEID \<open>LocalID s\<close> of the table.\<close>

definition put_sess :: "Sess \<Rightarrow> LocalNode \<Rightarrow> LocalNode" where
  "put_sess s n = n\<lparr>ln_sess := (ln_sess n)[LocalID s - 1 := Some s]\<rparr>"

text \<open>
  \<open>LocalNode.DeleteSess\<close> returns the reports; the model also returns the closed session, which the
  caller can still read through its own pointer.
\<close>

definition LocalNode_DeleteSess ::
  "('d, 'ie) Driver \<Rightarrow> 'ie ie_api \<Rightarrow> nat \<Rightarrow> LocalNode \<Rightarrow> 'd
    \<Rightarrow> (USAReport list \<times> Sess) option \<times> LocalNode \<times> 'd" where
  "LocalNode_DeleteSess drv api lSeid n d =
     (if lSeid = 0 then (None, n, d)
      else if lSeid > length (ln_sess n) then (None, n, d)
      else case ln_sess n ! (lSeid - 1) of
             None \<Rightarrow> (None, n, d)
           | Some s \<Rightarrow>
               let (usars, s', d') = Close drv api s d
               in (Some (usars, s'),
                   \<lparr>ln_sess = (ln_sess n)[lSeid - 1 := None], ln_free = ln_free n @ [lSeid]\<rparr>, d'))"

fun close_all :: "('d, 'ie) Driver \<Rightarrow> 'ie ie_api \<Rightarrow> Sess option list \<Rightarrow> 'd \<Rightarrow> 'd" where
  "close_all drv api [] d = d"
| "close_all drv api (None # xs) d = close_all drv api xs d"
| "close_all drv api (Some s # xs) d = close_all drv api xs (snd (snd (Close drv api s d)))"

definition LocalNode_Reset ::
  "('d, 'ie) Driver \<Rightarrow> 'ie ie_api \<Rightarrow> LocalNode \<Rightarrow> 'd \<Rightarrow> LocalNode \<times> 'd" where
  "LocalNode_Reset drv api n d = (\<lparr>ln_sess = [], ln_free = []\<rparr>, close_all drv api (ln_sess n) d)"

text \<open>
  The loop of \<open>RemoteSess\<close> dereferences every slot: a nil slot panics (\<open>None\<close>). \<open>Some None\<close> is the
  error result.
\<close>

definition sess_addr :: "rheap \<Rightarrow> Sess \<Rightarrow> string option" where
  "sess_addr h s = (case s_rnode s of None \<Rightarrow> None | Some a \<Rightarrow> map_option rn_addr (map_of h a))"

fun RemoteSess_loop :: "rheap \<Rightarrow> nat \<Rightarrow> string \<Rightarrow> Sess option list \<Rightarrow> Sess option option" where
  "RemoteSess_loop h rSeid addr [] = Some None"
| "RemoteSess_loop h rSeid addr (None # xs) = None"
| "RemoteSess_loop h rSeid addr (Some s # xs) =
     (if RemoteID s = rSeid then
        (case sess_addr h s of
           None \<Rightarrow> None
         | Some a \<Rightarrow> if a = addr then Some (Some s) else RemoteSess_loop h rSeid addr xs)
      else RemoteSess_loop h rSeid addr xs)"

definition LocalNode_RemoteSess :: "rheap \<Rightarrow> nat \<Rightarrow> string \<Rightarrow> LocalNode \<Rightarrow> Sess option option" where
  "LocalNode_RemoteSess h rSeid addr n = RemoteSess_loop h rSeid addr (ln_sess n)"

section \<open>Remote nodes\<close>

definition NewRemoteNode :: "string \<Rightarrow> string \<Rightarrow> RemoteNode" where
  "NewRemoteNode i addr = \<lparr>rn_ID = i, rn_addr = addr, rn_sess = []\<rparr>"

definition RemoteNode_Sess :: "RemoteNode \<Rightarrow> nat \<Rightarrow> LocalNode \<Rightarrow> Sess option" where
  "RemoteNode_Sess n lSeid ln = (if lSeid \<in> set (rn_sess n) then LocalNode_Sess lSeid ln else None)"

definition RemoteNode_NewSess ::
  "nat \<Rightarrow> nat \<Rightarrow> ('d, 'z) Nodes_scheme \<Rightarrow> (Sess \<times> ('d, 'z) Nodes_scheme) option" where
  "RemoteNode_NewSess a rSeid st =
     (case map_of (heap st) a of
        None \<Rightarrow> None
      | Some n \<Rightarrow>
          (case LocalNode_NewSess rSeid BUFFQ_LEN (lnode st) of
             None \<Rightarrow> None
           | Some (s, ln) \<Rightarrow>
               let s' = s\<lparr>s_rnode := Some a\<rparr>
               in Some (s', st\<lparr>heap := mput a (n\<lparr>rn_sess := List.insert (LocalID s) (rn_sess n)\<rparr>) (heap st),
                    lnode := put_sess s' ln\<rparr>)))"

definition RemoteNode_DeleteSess ::
  "('d, 'ie) Driver \<Rightarrow> 'ie ie_api \<Rightarrow> nat \<Rightarrow> nat \<Rightarrow> ('d, 'z) Nodes_scheme
    \<Rightarrow> ((USAReport list \<times> Sess) option \<times> ('d, 'z) Nodes_scheme) option" where
  "RemoteNode_DeleteSess drv api a lSeid st =
     (case map_of (heap st) a of
        None \<Rightarrow> None
      | Some n \<Rightarrow>
          if lSeid \<notin> set (rn_sess n) then Some (None, st)
          else
            let h = mput a (n\<lparr>rn_sess := removeAll lSeid (rn_sess n)\<rparr>) (heap st);
                (r, ln, d) = LocalNode_DeleteSess drv api lSeid (lnode st) (dstate st)
            in Some (r, st\<lparr>heap := h, lnode := ln, dstate := d\<rparr>))"

fun delete_loop ::
  "('d, 'ie) Driver \<Rightarrow> 'ie ie_api \<Rightarrow> nat \<Rightarrow> nat list \<Rightarrow> ('d, 'z) Nodes_scheme
    \<Rightarrow> ('d, 'z) Nodes_scheme option" where
  "delete_loop drv api a [] st = Some st"
| "delete_loop drv api a (i # is) st =
     (case RemoteNode_DeleteSess drv api a i st of
        None \<Rightarrow> None | Some (_, st') \<Rightarrow> delete_loop drv api a is st')"

definition RemoteNode_Reset ::
  "('d, 'ie) Driver \<Rightarrow> 'ie ie_api \<Rightarrow> nat \<Rightarrow> ('d, 'z) Nodes_scheme \<Rightarrow> ('d, 'z) Nodes_scheme option" where
  "RemoteNode_Reset drv api a st =
     (case map_of (heap st) a of
        None \<Rightarrow> None
      | Some n \<Rightarrow>
          (case delete_loop drv api a (rn_sess n) st of
             None \<Rightarrow> None
           | Some st' \<Rightarrow>
               (case map_of (heap st') a of
                  None \<Rightarrow> None
                | Some n' \<Rightarrow> Some (st'\<lparr>heap := mput a (n'\<lparr>rn_sess := []\<rparr>) (heap st')\<rparr>))))"

section \<open>The session table as an allocator of SEIDs\<close>

definition live :: "LocalNode \<Rightarrow> nat set" where
  "live n = {i. LocalNode_Sess i n \<noteq> None}"

definition table_ok :: "LocalNode \<Rightarrow> bool" where
  "table_ok n \<longleftrightarrow> distinct (ln_free n)
     \<and> (\<forall>i. i \<in> set (ln_free n) \<longleftrightarrow> 0 < i \<and> i \<le> length (ln_sess n) \<and> ln_sess n ! (i - 1) = None)
     \<and> (\<forall>i s. LocalNode_Sess i n = Some s \<longrightarrow> LocalID s = i)"

lemma table_ok_empty: "table_ok \<lparr>ln_sess = [], ln_free = []\<rparr>"
  by (auto simp: table_ok_def LocalNode_Sess_def)

lemma not_live_free:
  "table_ok n \<Longrightarrow> i \<in> set (ln_free n) \<Longrightarrow> LocalNode_Sess i n = None"
  by (simp add: table_ok_def LocalNode_Sess_def)

lemma LocalNode_Sess_update:
  "0 < i \<Longrightarrow> i \<le> length xs \<Longrightarrow>
    LocalNode_Sess j \<lparr>ln_sess = xs[i - 1 := x], ln_free = f\<rparr>
      = (if j = i then x else LocalNode_Sess j \<lparr>ln_sess = xs, ln_free = f'\<rparr>)"
  by (auto simp: LocalNode_Sess_def nth_list_update)

lemma LocalNode_Sess_append:
  "LocalNode_Sess j \<lparr>ln_sess = xs @ [x], ln_free = f\<rparr>
      = (if j = length xs + 1 then x else LocalNode_Sess j \<lparr>ln_sess = xs, ln_free = f'\<rparr>)"
  by (auto simp: LocalNode_Sess_def nth_append)

lemma NewSess_cases:
  assumes ok: "table_ok n"
  obtains i where "LocalNode_NewSess r q n = Some (empty_sess None i r q,
      \<lparr>ln_sess = (ln_sess n)[i - 1 := Some (empty_sess None i r q)], ln_free = butlast (ln_free n)\<rparr>)"
    "i \<in> set (ln_free n)" "i = last (ln_free n)" "0 < i" "i \<le> length (ln_sess n)"
  | "ln_free n = []" "LocalNode_NewSess r q n
      = Some (empty_sess None (length (ln_sess n) + 1) r q,
         \<lparr>ln_sess = ln_sess n @ [Some (empty_sess None (length (ln_sess n) + 1) r q)], ln_free = []\<rparr>)"
proof (cases "ln_free n = []")
  case True
  then show ?thesis by (intro that(2)) (simp_all add: LocalNode_NewSess_def Let_def)
next
  case False
  then have l: "last (ln_free n) \<in> set (ln_free n)" by simp
  then have "0 < last (ln_free n)" "last (ln_free n) \<le> length (ln_sess n)"
    using ok by (simp_all add: table_ok_def)
  then show ?thesis using False l
    by (intro that(1) [of "last (ln_free n)"]) (simp_all add: LocalNode_NewSess_def Let_def)
qed

lemma LocalNode_eta: "LocalNode_Sess j \<lparr>ln_sess = ln_sess n, ln_free = f\<rparr> = LocalNode_Sess j n"
  by (simp add: LocalNode_Sess_def)

lemma LocalID_empty [simp]: "LocalID (empty_sess a i r q) = i"
  by (simp add: empty_sess_def)

lemma table_ok_reuse:
  assumes ok: "table_ok n" and i: "i = last (ln_free n)" "i \<in> set (ln_free n)" and s: "LocalID s = i"
  shows "table_ok \<lparr>ln_sess = (ln_sess n)[i - 1 := Some s], ln_free = butlast (ln_free n)\<rparr>"
proof -
  have r: "0 < i" "i \<le> length (ln_sess n)" using ok i(2) by (simp_all add: table_ok_def)
  obtain f where f: "ln_free n = f @ [i]" using i by (metis append_butlast_last_id empty_iff empty_set)
  have d: "distinct f" "i \<notin> set f" using ok f by (simp_all add: table_ok_def)
  have "j \<in> set f \<longleftrightarrow> 0 < j \<and> j \<le> length (ln_sess n) \<and> (ln_sess n)[i - 1 := Some s] ! (j - 1) = None" for j
  proof -
    have "j \<in> set f \<longleftrightarrow> j \<noteq> i \<and> 0 < j \<and> j \<le> length (ln_sess n) \<and> ln_sess n ! (j - 1) = None"
      using ok f d(2) unfolding table_ok_def by auto
    then show ?thesis using r by (auto simp: nth_list_update)
  qed
  then show ?thesis
    using ok f d r s LocalNode_Sess_update [OF r, where f' = "ln_free n"] LocalNode_eta [of _ n]
    by (simp add: table_ok_def)
qed

lemma table_ok_append:
  assumes ok: "table_ok n" and "ln_free n = []" and "LocalID s = length (ln_sess n) + 1"
  shows "table_ok \<lparr>ln_sess = ln_sess n @ [Some s], ln_free = []\<rparr>"
  using assms LocalNode_Sess_append [where f' = "ln_free n"] LocalNode_eta [of _ n]
  by (auto simp: table_ok_def nth_append split: if_splits)

lemma NewSess_spec:
  assumes ok: "table_ok n"
  shows "\<exists>i n'. LocalNode_NewSess r q n = Some (empty_sess None i r q, n')
    \<and> i = (if ln_free n = [] then length (ln_sess n) + 1 else last (ln_free n))
    \<and> 0 < i \<and> LocalNode_Sess i n = None \<and> table_ok n'
    \<and> (\<forall>j. LocalNode_Sess j n' = (if j = i then Some (empty_sess None i r q) else LocalNode_Sess j n))"
  using ok
proof (cases rule: NewSess_cases [of n r q])
  case (1 i)
  then show ?thesis
    using ok table_ok_reuse [OF ok 1(3,2)] not_live_free [OF ok 1(2)]
      LocalNode_Sess_update [OF 1(4,5), where f' = "ln_free n"] LocalNode_eta [of _ n]
    by auto
next
  case 2
  then show ?thesis
    using table_ok_append [OF ok 2(1), of "empty_sess None (length (ln_sess n) + 1) r q"]
      LocalNode_Sess_append [where f' = "ln_free n"] LocalNode_eta [of _ n]
    by (simp add: LocalNode_Sess_def)
qed

lemma DeleteSess_spec:
  assumes ok: "table_ok n" and s: "LocalNode_Sess i n = Some s"
  shows "\<exists>n'. LocalNode_DeleteSess drv api i n d =
      (let (us, s', d') = Close drv api s d in (Some (us, s'), n', d'))
    \<and> table_ok n' \<and> ln_free n' = ln_free n @ [i]
    \<and> (\<forall>j. LocalNode_Sess j n' = (if j = i then None else LocalNode_Sess j n))"
proof -
  have r: "0 < i" "i \<le> length (ln_sess n)" "ln_sess n ! (i - 1) = Some s"
    using s by (simp_all add: LocalNode_Sess_def split: if_splits)
  let ?n = "\<lparr>ln_sess = (ln_sess n)[i - 1 := None], ln_free = ln_free n @ [i]\<rparr>"
  have look: "LocalNode_Sess j ?n = (if j = i then None else LocalNode_Sess j n)" for j
    using LocalNode_Sess_update [OF r(1,2), where f' = "ln_free n"] LocalNode_eta [of _ n] by simp
  have "i \<notin> set (ln_free n)" using not_live_free [OF ok] s by auto
  moreover have "j \<in> set (ln_free n @ [i]) \<longleftrightarrow>
      0 < j \<and> j \<le> length (ln_sess n) \<and> (ln_sess n)[i - 1 := None] ! (j - 1) = None" for j
  proof -
    have "j \<in> set (ln_free n) \<longleftrightarrow> 0 < j \<and> j \<le> length (ln_sess n) \<and> ln_sess n ! (j - 1) = None"
      using ok by (simp add: table_ok_def)
    then show ?thesis using r by (auto simp: nth_list_update)
  qed
  ultimately have "table_ok ?n" using ok look by (simp add: table_ok_def)
  then show ?thesis using look r by (intro exI [of _ ?n]) (simp add: LocalNode_DeleteSess_def)
qed

definition seid_alloc :: "nat \<Rightarrow> nat \<Rightarrow> LocalNode \<Rightarrow> (nat \<times> LocalNode) option" where
  "seid_alloc r q n = map_option (\<lambda>(s, n'). (LocalID s, n')) (LocalNode_NewSess r q n)"

definition seid_release :: "('d, 'ie) Driver \<Rightarrow> 'ie ie_api \<Rightarrow> 'd \<Rightarrow> nat \<Rightarrow> LocalNode \<Rightarrow> LocalNode" where
  "seid_release drv api d i n = fst (snd (LocalNode_DeleteSess drv api i n d))"

lemma seid_alloc_spec:
  assumes "table_ok n" and "seid_alloc r q n = Some (i, n')"
  shows "0 < i \<and> i \<notin> live n \<and> live n' = insert i (live n) \<and> table_ok n'"
  using NewSess_spec [OF assms(1), of r q] assms(2) by (auto simp: seid_alloc_def live_def)

lemma seid_release_spec:
  assumes "table_ok n" and "i \<in> live n"
  shows "live (seid_release drv api d i n) = live n - {i} \<and> table_ok (seid_release drv api d i n)"
proof -
  obtain s where s: "LocalNode_Sess i n = Some s" using assms(2) by (auto simp: live_def)
  obtain n' where n': "seid_release drv api d i n = n'" "table_ok n'"
    "\<And>j. LocalNode_Sess j n' = (if j = i then None else LocalNode_Sess j n)"
    using DeleteSess_spec [OF assms(1) s, of drv api d]
    by (auto simp: seid_release_def case_prod_beta Let_def)
  have "live n' = live n - {i}" unfolding live_def n'(3) by auto
  then show ?thesis using n'(1,2) by simp
qed

interpretation seids: id_allocator table_ok live "seid_alloc r q" "seid_release drv api d"
  for r q drv api d
  by unfold_locales ((drule (1) seid_alloc_spec, simp)+, simp_all add: seid_release_spec)

text \<open>C16: The session table never gives one SEID to two sessions. Along every run of establishments
  and deletions in which only held SEIDs are deleted, starting from a consistent table in which the
  client holds the distinct SEIDs \<open>held\<close>, the SEIDs held at the end are distinct and live, and the
  sessions the client does not hold are the same as before.\<close>

theorem seids_conserved:
  assumes "client_run (seid_alloc r q) (seid_release drv api d) n held es = Some (held', n')"
    and "table_ok n" and "distinct held" and "set held \<subseteq> live n"
  shows "distinct held' \<and> set held' \<subseteq> live n' \<and> live n' - set held' = live n - set held \<and> table_ok n'"
  using assms by (rule seids.client_run_conserves)

definition empty_table :: LocalNode where
  "empty_table = \<lparr>ln_sess = [], ln_free = []\<rparr>"

theorem seids_conserved_witness:
  "\<exists>n'. client_run (seid_alloc 7 4) (seid_release plain_driver plain_api []) empty_table []
          [Alloc, Alloc, Release 1, Alloc] = Some ([1, 2], n')
     \<and> table_ok empty_table \<and> set [1, 2] \<subseteq> live n' \<and> table_ok n'"
proof -
  let ?run = "client_run (seid_alloc 7 4) (seid_release plain_driver plain_api []) empty_table []
          [Alloc, Alloc, Release 1, Alloc]"
  have "map_option fst ?run = Some [1, 2]"
    by (simp add: seid_alloc_def seid_release_def empty_table_def LocalNode_NewSess_def
        LocalNode_DeleteSess_def Let_def case_prod_beta)
  then obtain n' where run: "?run = Some ([1, 2], n')" by auto
  have e: "table_ok empty_table" using table_ok_empty by (simp add: empty_table_def)
  have "set [1, 2] \<subseteq> live n' \<and> table_ok n'" using seids_conserved [OF run e] by simp
  then show ?thesis using run e by blast
qed

section \<open>Sessions and their nodes\<close>

definition owner :: "('d, 'z) Nodes_scheme \<Rightarrow> nat \<Rightarrow> nat option" where
  "owner st i = (case LocalNode_Sess i (lnode st) of None \<Rightarrow> None | Some s \<Rightarrow> s_rnode s)"

definition nodes_inv :: "('d, 'z) Nodes_scheme \<Rightarrow> bool" where
  "nodes_inv st \<longleftrightarrow> table_ok (lnode st) \<and> wf_gomap (heap st)
     \<and> (\<forall>i s. LocalNode_Sess i (lnode st) = Some s \<longrightarrow> s_rnode s \<noteq> None \<and> sess_ok s)
     \<and> (\<forall>i a. owner st i = Some a \<longrightarrow> map_of (heap st) a \<noteq> None)
     \<and> (\<forall>a n. map_of (heap st) a = Some n \<longrightarrow>
          distinct (rn_sess n) \<and> (\<forall>i. i \<in> set (rn_sess n) \<longleftrightarrow> owner st i = Some a))"

lemma put_sess_spec:
  assumes "table_ok n" and "LocalNode_Sess i n = Some t" and "LocalID s = i"
  shows "table_ok (put_sess s n) \<and> (\<forall>j. LocalNode_Sess j (put_sess s n) =
      (if j = i then Some s else LocalNode_Sess j n))"
proof -
  have r: "0 < i" "i \<le> length (ln_sess n)" "ln_sess n ! (i - 1) = Some t"
    using assms(2) by (simp_all add: LocalNode_Sess_def split: if_splits)
  have p: "put_sess s n = \<lparr>ln_sess = (ln_sess n)[i - 1 := Some s], ln_free = ln_free n\<rparr>"
    using assms(3) by (simp add: put_sess_def)
  have look: "LocalNode_Sess j (put_sess s n) = (if j = i then Some s else LocalNode_Sess j n)" for j
    unfolding p using LocalNode_Sess_update [OF r(1,2), where f' = "ln_free n"] LocalNode_eta [of _ n]
    by simp
  have "j \<in> set (ln_free n) \<longleftrightarrow>
      0 < j \<and> j \<le> length (ln_sess n) \<and> (ln_sess n)[i - 1 := Some s] ! (j - 1) = None" for j
  proof -
    have "j \<in> set (ln_free n) \<longleftrightarrow> 0 < j \<and> j \<le> length (ln_sess n) \<and> ln_sess n ! (j - 1) = None"
      using assms(1) by (simp add: table_ok_def)
    then show ?thesis using r by (auto simp: nth_list_update)
  qed
  then have "table_ok (put_sess s n)" using assms(1,3) look by (simp add: table_ok_def p)
  then show ?thesis using look by simp
qed

lemma nodes_inv_put:
  assumes inv: "nodes_inv st" and t: "LocalNode_Sess (LocalID s) (lnode st) = Some t"
    and s: "s_rnode s = s_rnode t" "sess_ok s"
  shows "nodes_inv (st\<lparr>lnode := put_sess s (lnode st)\<rparr>)"
proof -
  have ok: "table_ok (lnode st)" using inv by (simp add: nodes_inv_def)
  note look = put_sess_spec [OF ok t refl]
  have "owner (st\<lparr>lnode := put_sess s (lnode st)\<rparr>) i = owner st i" for i
    using look t s(1) by (simp add: owner_def)
  then show ?thesis using inv look t s unfolding nodes_inv_def by auto
qed

lemma RemoteNode_NewSess_spec:
  assumes inv: "nodes_inv st" and n: "map_of (heap st) a = Some n"
  shows "\<exists>i st'. RemoteNode_NewSess a r st = Some (empty_sess (Some a) i r BUFFQ_LEN, st')
    \<and> 0 < i \<and> LocalNode_Sess i (lnode st) = None \<and> nodes_inv st'
    \<and> (\<forall>j. LocalNode_Sess j (lnode st') =
          (if j = i then Some (empty_sess (Some a) i r BUFFQ_LEN) else LocalNode_Sess j (lnode st)))
    \<and> st' = st\<lparr>heap := mput a (n\<lparr>rn_sess := List.insert i (rn_sess n)\<rparr>) (heap st), lnode := lnode st'\<rparr>"
proof -
  have ok: "table_ok (lnode st)" using inv by (simp add: nodes_inv_def)
  obtain i ln where i: "LocalNode_NewSess r BUFFQ_LEN (lnode st) = Some (empty_sess None i r BUFFQ_LEN, ln)"
    "0 < i" "LocalNode_Sess i (lnode st) = None" "table_ok ln"
    "\<And>j. LocalNode_Sess j ln =
       (if j = i then Some (empty_sess None i r BUFFQ_LEN) else LocalNode_Sess j (lnode st))"
    using NewSess_spec [OF ok, of r BUFFQ_LEN] by blast
  let ?s = "empty_sess (Some a) i r BUFFQ_LEN"
  let ?st = "st\<lparr>heap := mput a (n\<lparr>rn_sess := List.insert i (rn_sess n)\<rparr>) (heap st), lnode := put_sess ?s ln\<rparr>"
  have s: "(empty_sess None i r BUFFQ_LEN)\<lparr>s_rnode := Some a\<rparr> = ?s" by (simp add: empty_sess_def)
  have live_i: "LocalNode_Sess i ln = Some (empty_sess None i r BUFFQ_LEN)" using i(5) by simp
  have put: "table_ok (put_sess ?s ln)"
    "\<And>j. LocalNode_Sess j (put_sess ?s ln) = (if j = i then Some ?s else LocalNode_Sess j (lnode st))"
    using put_sess_spec [OF i(4) live_i, of ?s] i(5) by simp_all
  have own: "owner ?st j = (if j = i then Some a else owner st j)" for j
    using put(2) by (simp add: owner_def empty_sess_def)
  have "i \<notin> set (rn_sess n)" using inv n i(3) by (auto simp: nodes_inv_def owner_def)
  then have "nodes_inv ?st"
    using inv n put own i(3) unfolding nodes_inv_def
    by (auto simp: owner_def) (simp_all add: empty_sess_def)
  then show ?thesis
    using n i(1,2,3) put(2)
    by (intro exI [of _ i] exI [of _ ?st]) (simp add: RemoteNode_NewSess_def s Let_def)
qed

lemma RemoteNode_DeleteSess_spec:
  assumes inv: "nodes_inv st" and s: "LocalNode_Sess i (lnode st) = Some s" "s_rnode s = Some a"
  shows "\<exists>st' n. map_of (heap st) a = Some n
    \<and> RemoteNode_DeleteSess drv api a i st =
        (let (us, s', d') = Close drv api s (dstate st) in Some (Some (us, s'), st'\<lparr>dstate := d'\<rparr>))
    \<and> nodes_inv st'
    \<and> (\<forall>j. LocalNode_Sess j (lnode st') = (if j = i then None else LocalNode_Sess j (lnode st)))
    \<and> st' = st\<lparr>heap := mput a (n\<lparr>rn_sess := removeAll i (rn_sess n)\<rparr>) (heap st), lnode := lnode st'\<rparr>"
proof -
  have ok: "table_ok (lnode st)" using inv by (simp add: nodes_inv_def)
  have own: "owner st i = Some a" using s by (simp add: owner_def)
  obtain n where n: "map_of (heap st) a = Some n" "i \<in> set (rn_sess n)"
    using inv own unfolding nodes_inv_def by blast
  obtain ln where ln: "LocalNode_DeleteSess drv api i (lnode st) (dstate st) =
      (let (us, s', d') = Close drv api s (dstate st) in (Some (us, s'), ln, d'))"
    "table_ok ln" "\<And>j. LocalNode_Sess j ln = (if j = i then None else LocalNode_Sess j (lnode st))"
    using DeleteSess_spec [OF ok s(1), of drv api "dstate st"] by blast
  let ?st = "st\<lparr>heap := mput a (n\<lparr>rn_sess := removeAll i (rn_sess n)\<rparr>) (heap st), lnode := ln\<rparr>"
  have "owner ?st j = (if j = i then None else owner st j)" for j
    using ln(3) by (simp add: owner_def)
  then have "nodes_inv ?st"
    using inv n ln(2,3) own unfolding nodes_inv_def by (auto simp: distinct_removeAll split: if_splits)
  then show ?thesis
    using n ln(1,3)
    by (intro exI [of _ ?st] exI [of _ n])
      (simp add: RemoteNode_DeleteSess_def Let_def case_prod_beta)
qed

lemma nodes_inv_dstate [simp]: "nodes_inv (st\<lparr>dstate := d\<rparr>) = nodes_inv st"
  by (simp add: nodes_inv_def owner_def)

lemma RemoteNode_DeleteSess_absent:
  "map_of (heap st) a = Some n \<Longrightarrow> i \<notin> set (rn_sess n) \<Longrightarrow>
    RemoteNode_DeleteSess drv api a i st = Some (None, st)"
  by (simp add: RemoteNode_DeleteSess_def)

lemma delete_loop_spec:
  assumes "nodes_inv st" and "map_of (heap st) a = Some n" and "distinct is"
    and "set is \<subseteq> set (rn_sess n)"
  shows "\<exists>st' n'. delete_loop drv api a is st = Some st' \<and> nodes_inv st'
    \<and> map_of (heap st') a = Some n' \<and> n' = n\<lparr>rn_sess := rn_sess n'\<rparr>
    \<and> set (rn_sess n') = set (rn_sess n) - set is
    \<and> (\<forall>b. b \<noteq> a \<longrightarrow> map_of (heap st') b = map_of (heap st) b)
    \<and> (\<forall>j. LocalNode_Sess j (lnode st') = (if j \<in> set is then None else LocalNode_Sess j (lnode st)))
    \<and> Nodes.more st' = Nodes.more st"
  using assms
proof (induction "is" arbitrary: st n)
  case Nil
  then show ?case by simp
next
  case (Cons i js)
  have "owner st i = Some a" using Cons.prems unfolding nodes_inv_def by auto
  then obtain s where s: "LocalNode_Sess i (lnode st) = Some s" "s_rnode s = Some a"
    by (auto simp: owner_def split: option.splits)
  obtain st1 where st1: "\<exists>us s' d'. RemoteNode_DeleteSess drv api a i st = Some (Some (us, s'), st1\<lparr>dstate := d'\<rparr>)"
    "nodes_inv st1" "\<And>j. LocalNode_Sess j (lnode st1) = (if j = i then None else LocalNode_Sess j (lnode st))"
    "st1 = st\<lparr>heap := mput a (n\<lparr>rn_sess := removeAll i (rn_sess n)\<rparr>) (heap st), lnode := lnode st1\<rparr>"
    using RemoteNode_DeleteSess_spec [OF Cons.prems(1) s, of drv api] Cons.prems(2)
    by (auto simp: case_prod_beta Let_def)
  obtain us s' d' where del: "RemoteNode_DeleteSess drv api a i st = Some (Some (us, s'), st1\<lparr>dstate := d'\<rparr>)"
    using st1(1) by blast
  let ?st = "st1\<lparr>dstate := d'\<rparr>" and ?n = "n\<lparr>rn_sess := removeAll i (rn_sess n)\<rparr>"
  have h: "heap ?st = mput a ?n (heap st)" by (subst st1(4)) simp
  have more: "Nodes.more ?st = Nodes.more st" by (subst st1(4)) simp
  have n1: "map_of (heap ?st) a = Some ?n" using h by simp
  have inv1: "nodes_inv ?st" using st1(2) by simp
  have js: "distinct js" "set js \<subseteq> set (rn_sess ?n)" using Cons.prems(3,4) by auto
  from Cons.IH [OF inv1 n1 js] obtain st' n' where st':
    "delete_loop drv api a js ?st = Some st'" "nodes_inv st'" "map_of (heap st') a = Some n'"
    "n' = ?n\<lparr>rn_sess := rn_sess n'\<rparr>" "set (rn_sess n') = set (rn_sess ?n) - set js"
    "\<And>b. b \<noteq> a \<Longrightarrow> map_of (heap st') b = map_of (heap ?st) b"
    "\<And>j. LocalNode_Sess j (lnode st') = (if j \<in> set js then None else LocalNode_Sess j (lnode ?st))"
    "Nodes.more st' = Nodes.more ?st"
    by blast
  show ?case
    using del st' h more st1(3) by (intro exI [of _ st'] exI [of _ n']) auto
qed

lemma RemoteNode_Reset_spec:
  assumes inv: "nodes_inv st" and n: "map_of (heap st) a = Some n"
  shows "\<exists>st'. RemoteNode_Reset drv api a st = Some st' \<and> nodes_inv st'
    \<and> (\<forall>j. LocalNode_Sess j (lnode st') =
          (if owner st j = Some a then None else LocalNode_Sess j (lnode st)))
    \<and> map_of (heap st') = (map_of (heap st))(a \<mapsto> n\<lparr>rn_sess := []\<rparr>)
    \<and> Nodes.more st' = Nodes.more st"
proof -
  have d: "distinct (rn_sess n)" and own: "\<And>j. j \<in> set (rn_sess n) \<longleftrightarrow> owner st j = Some a"
    using inv n unfolding nodes_inv_def by blast+
  obtain st1 n1 where st1: "delete_loop drv api a (rn_sess n) st = Some st1" "nodes_inv st1"
    "map_of (heap st1) a = Some n1" "n1 = n\<lparr>rn_sess := rn_sess n1\<rparr>" "set (rn_sess n1) = {}"
    "\<And>b. b \<noteq> a \<Longrightarrow> map_of (heap st1) b = map_of (heap st) b"
    "\<And>j. LocalNode_Sess j (lnode st1) = (if j \<in> set (rn_sess n) then None else LocalNode_Sess j (lnode st))"
    "Nodes.more st1 = Nodes.more st"
    using delete_loop_spec [OF inv n d subset_refl, of drv api] by auto
  let ?st = "st1\<lparr>heap := mput a (n1\<lparr>rn_sess := []\<rparr>) (heap st1)\<rparr>"
  have e: "n1\<lparr>rn_sess := []\<rparr> = n1" using st1(5) by simp
  have n1: "n1 = n\<lparr>rn_sess := []\<rparr>" using st1(4,5) by simp
  have h: "map_of (heap ?st) = map_of (heap st1)" using st1(3) e by auto
  have "owner ?st j = owner st1 j" for j by (simp add: owner_def)
  then have "nodes_inv ?st" using st1(2) unfolding nodes_inv_def h by simp
  moreover have "map_of (heap ?st) = (map_of (heap st))(a \<mapsto> n\<lparr>rn_sess := []\<rparr>)"
    unfolding h using st1(3,6) n1 by auto
  ultimately show ?thesis
    using n st1(1,3,7,8) own by (intro exI [of _ ?st]) (simp add: RemoteNode_Reset_def)
qed

text \<open>Resetting a node deletes its sessions and nothing else. In a consistent state, \<open>Reset\<close> of
  the node at \<open>a\<close> returns, exactly the sessions of that node are gone from the table (all others are
  unchanged), the node is left with no session, the other nodes are unchanged, and the state is
  consistent.\<close>

theorem RemoteNode_Reset_correct:
  assumes "nodes_inv st" and "map_of (heap st) a = Some n"
  shows "\<exists>st'. RemoteNode_Reset drv api a st = Some st' \<and> nodes_inv st'
    \<and> (\<forall>j. LocalNode_Sess j (lnode st') =
          (if owner st j = Some a then None else LocalNode_Sess j (lnode st)))
    \<and> map_of (heap st') = (map_of (heap st))(a \<mapsto> n\<lparr>rn_sess := []\<rparr>)"
  using RemoteNode_Reset_spec [OF assms, of drv api] by blast

definition two_nodes :: "u32 list Nodes" where
  "two_nodes = \<lparr>heap = [(0, \<lparr>rn_ID = ''smf1'', rn_addr = ''10.0.0.1:8805'', rn_sess = [1]\<rparr>),
       (1, \<lparr>rn_ID = ''smf2'', rn_addr = ''10.0.0.2:8805'', rn_sess = [2]\<rparr>)],
     lnode = \<lparr>ln_sess = [Some (empty_sess (Some 0) 1 71 512), Some (empty_sess (Some 1) 2 72 512)],
       ln_free = []\<rparr>, dstate = []\<rparr>"

lemma two_nodes_Sess:
  "LocalNode_Sess i (lnode two_nodes) =
     (if i = 1 then Some (empty_sess (Some 0) 1 71 512)
      else if i = 2 then Some (empty_sess (Some 1) 2 72 512) else None)"
proof -
  consider "i = 0" | "i = 1" | "i = 2" | "i > 2" by linarith
  then show ?thesis by cases (auto simp: LocalNode_Sess_def two_nodes_def)
qed

lemma two_nodes_inv: "nodes_inv two_nodes"
proof -
  have t: "table_ok (lnode two_nodes)"
  proof -
    have "\<not> (0 < i \<and> i \<le> 2 \<and> [Some x, Some y] ! (i - 1) = None)" for i and x y :: Sess
    proof -
      consider "i = 0" | "i = 1" | "i = 2" | "i > 2" by linarith
      then show ?thesis by cases auto
    qed
    then show ?thesis
      using two_nodes_Sess unfolding table_ok_def
      by (auto simp: two_nodes_def empty_sess_def split: if_splits)
  qed
  have o: "owner two_nodes i = (if i = 1 then Some 0 else if i = 2 then Some 1 else None)" for i
    by (simp add: owner_def two_nodes_Sess empty_sess_def)
  show ?thesis
    unfolding nodes_inv_def
    using t o two_nodes_Sess by (auto simp: two_nodes_def split: if_splits) (simp_all add: empty_sess_def)
qed

theorem RemoteNode_Reset_correct_witness:
  "nodes_inv two_nodes \<and> (\<exists>st'. RemoteNode_Reset plain_driver plain_api 0 two_nodes = Some st'
     \<and> LocalNode_Sess 1 (lnode st') = None \<and> LocalNode_Sess 2 (lnode st') \<noteq> None)"
proof -
  have n: "map_of (heap two_nodes) 0
      = Some \<lparr>rn_ID = ''smf1'', rn_addr = ''10.0.0.1:8805'', rn_sess = [1]\<rparr>"
    by (simp add: two_nodes_def)
  show ?thesis
    using two_nodes_inv RemoteNode_Reset_correct [OF two_nodes_inv n, of plain_driver plain_api]
    by (auto simp: owner_def two_nodes_Sess empty_sess_def)
qed

section \<open>Looking up a session by its remote SEID\<close>

lemma RemoteSess_loop_find:
  assumes "None \<notin> set xs" and "\<And>s. Some s \<in> set xs \<Longrightarrow> sess_addr h s \<noteq> None"
  shows "RemoteSess_loop h r addr xs =
    Some (List.find (\<lambda>s. RemoteID s = r \<and> sess_addr h s = Some addr) (map the xs))"
  using assms
proof (induction xs)
  case (Cons x xs)
  then obtain s where x: "x = Some s" by (cases x) auto
  then obtain b where "sess_addr h s = Some b" using Cons.prems(2) [of s] by auto
  then show ?case using Cons x by auto
qed simp

lemma RemoteSess_loop_nil:
  "(\<And>s. Some s \<in> set xs \<Longrightarrow> RemoteID s \<noteq> r) \<Longrightarrow> RemoteSess_loop h r addr (xs @ None # ys) = None"
proof (induction xs)
  case (Cons x xs)
  then show ?case by (cases x) auto
qed simp

lemma RemoteSess_spec:
  assumes "nodes_inv st" and "ln_free (lnode st) = []"
  shows "LocalNode_RemoteSess (heap st) r addr (lnode st) = Some (List.find
      (\<lambda>s. RemoteID s = r \<and> sess_addr (heap st) s = Some addr) (map the (ln_sess (lnode st))))"
  unfolding LocalNode_RemoteSess_def
proof (rule RemoteSess_loop_find)
  let ?xs = "ln_sess (lnode st)"
  have at: "LocalNode_Sess (Suc k) (lnode st) = ?xs ! k" if "k < length ?xs" for k
    using that by (simp add: LocalNode_Sess_def)
  have "?xs ! k \<noteq> None" if "k < length ?xs" for k
    using assms that unfolding nodes_inv_def table_ok_def
    by (metis One_nat_def Suc_leI diff_Suc_1 empty_iff empty_set zero_less_Suc)
  then show "None \<notin> set ?xs" by (metis in_set_conv_nth)
  show "sess_addr (heap st) s \<noteq> None" if s: "Some s \<in> set ?xs" for s
  proof -
    obtain k where "k < length ?xs" "?xs ! k = Some s" using s by (metis in_set_conv_nth)
    then have k: "LocalNode_Sess (Suc k) (lnode st) = Some s" using at by simp
    then obtain a where a: "s_rnode s = Some a" using assms(1) unfolding nodes_inv_def by blast
    then have "owner st (Suc k) = Some a" using k by (simp add: owner_def)
    then have "map_of (heap st) a \<noteq> None" using assms(1) unfolding nodes_inv_def by blast
    then show ?thesis using a by (simp add: sess_addr_def)
  qed
qed

text \<open>With no freed slot, the lookup by remote SEID is right. In a consistent state whose free list
  is empty, \<open>RemoteSess\<close> does not panic and returns the first session, in SEID order, that has the given
  remote SEID and whose node has the given address, or the error when there is none.\<close>

theorem RemoteSess_correct:
  assumes "nodes_inv st" and "ln_free (lnode st) = []"
  shows "LocalNode_RemoteSess (heap st) r addr (lnode st) = Some (List.find
      (\<lambda>s. RemoteID s = r \<and> sess_addr (heap st) s = Some addr) (map the (ln_sess (lnode st))))"
  using assms by (rule RemoteSess_spec)

theorem RemoteSess_correct_witness:
  "nodes_inv two_nodes \<and> ln_free (lnode two_nodes) = []
   \<and> map_option (map_option LocalID)
       (LocalNode_RemoteSess (heap two_nodes) 72 ''10.0.0.2:8805'' (lnode two_nodes)) = Some (Some 2)"
proof -
  have f: "ln_free (lnode two_nodes) = []" by (simp add: two_nodes_def)
  show ?thesis
    unfolding RemoteSess_correct [OF two_nodes_inv f]
    using two_nodes_inv f by (simp add: two_nodes_def sess_addr_def empty_sess_def)
qed

text \<open>After a deletion the lookup by remote SEID panics. Once the session with SEID \<open>i\<close> has been
  deleted, its slot is nil, and \<open>RemoteSess\<close> dereferences it for every remote SEID that no session
  with a smaller SEID has: the lookup of a live session with a larger SEID ends in a nil dereference.\<close>

theorem RemoteSess_panics_after_delete:
  assumes "LocalNode_Sess i n = Some s"
    and "\<And>j t. j < i \<Longrightarrow> LocalNode_Sess j n = Some t \<Longrightarrow> RemoteID t \<noteq> r"
  shows "LocalNode_RemoteSess h r addr (fst (snd (LocalNode_DeleteSess drv api i n d))) = None"
proof -
  have i: "0 < i" "i \<le> length (ln_sess n)" "ln_sess n ! (i - 1) = Some s"
    using assms(1) by (simp_all add: LocalNode_Sess_def split: if_splits)
  then have n': "ln_sess (fst (snd (LocalNode_DeleteSess drv api i n d)))
      = take (i - 1) (ln_sess n) @ None # drop i (ln_sess n)"
    by (simp add: LocalNode_DeleteSess_def case_prod_beta Let_def upd_conv_take_nth_drop)
  have "RemoteID t \<noteq> r" if t: "Some t \<in> set (take (i - 1) (ln_sess n))" for t
  proof -
    obtain k where k: "k < i - 1" "ln_sess n ! k = Some t"
      using t by (auto simp: in_set_conv_nth)
    then have "LocalNode_Sess (Suc k) n = Some t" using i(2) by (simp add: LocalNode_Sess_def)
    then show ?thesis using assms(2) [of "Suc k" t] k(1) by simp
  qed
  then show ?thesis unfolding LocalNode_RemoteSess_def n' by (rule RemoteSess_loop_nil)
qed

theorem RemoteSess_panics_witness:
  "LocalNode_Sess 1 (lnode two_nodes) = Some (empty_sess (Some 0) 1 71 512)
   \<and> LocalNode_RemoteSess (heap two_nodes) 72 ''10.0.0.2:8805''
       (fst (snd (LocalNode_DeleteSess plain_driver plain_api 1 (lnode two_nodes) []))) = None"
proof -
  have l: "LocalNode_Sess 1 (lnode two_nodes) = Some (empty_sess (Some 0) 1 71 512)"
    by (simp add: two_nodes_Sess)
  show ?thesis
    using l RemoteSess_panics_after_delete [OF l] by (auto simp: two_nodes_Sess)
qed

end
