(* ===== verification/Go_Std.thy ===== *)
theory Go_Std
  imports Go_Prelude
begin

text \<open>
  The parts of Go's standard library that the modelled code calls on strings and addresses:
  decimal formatting (\<open>fmt.Sprintf\<close> with \<open>%d\<close>), hexadecimal formatting, \<open>net.IP.String\<close>,
  \<open>net.ParseIP\<close> and \<open>net.IP.To4\<close>. Strings are lists of characters. An address is its list of 4 or 16
  bytes; \<open>ParseIP\<close> returns 16 bytes, an IPv4 address in its mapped form, as the library does.
\<close>

section \<open>Numbers\<close>

definition digit :: "nat \<Rightarrow> char" where
  "digit n = ''0123456789abcdef'' ! n"

fun itoa :: "nat \<Rightarrow> string" where
  "itoa n = (if n < 10 then [digit n] else itoa (n div 10) @ [digit (n mod 10)])"

declare itoa.simps [simp del]

fun hex :: "nat \<Rightarrow> string" where
  "hex n = (if n < 16 then [digit n] else hex (n div 16) @ [digit (n mod 16)])"

declare hex.simps [simp del]

definition is_digit :: "char \<Rightarrow> bool" where
  "is_digit c \<longleftrightarrow> c \<in> set ''0123456789''"

definition digit_val :: "char \<Rightarrow> nat" where
  "digit_val c = of_char c - 48"

fun atoi :: "nat \<Rightarrow> string \<Rightarrow> nat" where
  "atoi acc [] = acc"
| "atoi acc (c # cs) = atoi (acc * 10 + digit_val c) cs"

lemma digit_cases: "n < 10 \<Longrightarrow> n \<in> {0, 1, 2, 3, 4, 5, 6, 7, 8, 9::nat}"
  by auto

lemma is_digit_digit: "n < 10 \<Longrightarrow> is_digit (digit n)"
  by (drule digit_cases) (auto simp: digit_def is_digit_def)

lemma digit_val_digit: "n < 10 \<Longrightarrow> digit_val (digit n) = n"
  by (drule digit_cases) (auto simp: digit_def digit_val_def)

lemma atoi_append: "atoi acc (xs @ ys) = atoi (atoi acc xs) ys"
  by (induction xs arbitrary: acc) auto

lemma atoi_itoa: "atoi 0 (itoa n) = n"
proof (induction n rule: itoa.induct)
  case (1 n)
  then show ?case by (subst itoa.simps) (simp add: atoi_append digit_val_digit)
qed

lemma itoa_inject [simp]: "itoa m = itoa n \<longleftrightarrow> m = n"
  by (metis atoi_itoa)

lemma itoa_digits: "list_all is_digit (itoa n)"
proof (induction n rule: itoa.induct)
  case (1 n)
  then show ?case by (subst itoa.simps) (simp add: is_digit_digit)
qed

lemma itoa_not_Nil [simp]: "itoa n \<noteq> []"
  by (subst itoa.simps) simp

lemma itoa_hd: "n > 0 \<Longrightarrow> hd (itoa n) \<noteq> CHR ''0''"
proof (induction n rule: itoa.induct)
  case (1 n)
  show ?case
  proof (cases "n < 10")
    case True
    then have "itoa n = [digit n]" by (subst itoa.simps) simp
    then show ?thesis using digit_cases [OF True] 1(2) by (auto simp: digit_def)
  next
    case False
    then have "itoa n = itoa (n div 10) @ [digit (n mod 10)]" by (subst itoa.simps) simp
    then show ?thesis using False 1 by (simp add: hd_append)
  qed
qed

lemma dash_not_in_itoa: "c \<in> set (itoa n) \<Longrightarrow> is_digit c"
  using itoa_digits [of n] by (auto simp: list_all_iff)

text \<open>A separator that is no digit splits a string that ends in a decimal number in one way.\<close>

lemma sep_itoa_inject:
  assumes "xs @ c # itoa m = ys @ c # itoa n" and "\<not> is_digit c"
  shows "xs = ys \<and> m = n"
proof -
  have c: "c \<notin> set (itoa k)" for k using dash_not_in_itoa assms(2) by blast
  have "rev (itoa m) @ c # rev xs = rev (itoa n) @ c # rev ys"
    using arg_cong [OF assms(1), of rev] by simp
  moreover have "takeWhile (\<lambda>x. x \<noteq> c) (rev (itoa k) @ c # zs) = rev (itoa k)" for k zs
    using c [of k] by (subst takeWhile_append2) auto
  ultimately have "rev (itoa m) = rev (itoa n)" by metis
  then have "m = n" by simp
  then show ?thesis using assms(1) by simp
qed

section \<open>Addresses\<close>

definition To4 :: "bytes \<Rightarrow> bytes option" where
  "To4 ip =
     (if length ip = 4 then Some ip
      else if length ip = 16 \<and> take 10 ip = replicate 10 0 \<and> take 2 (drop 10 ip) = [255, 255]
      then Some (drop 12 ip)
      else None)"

definition v4_mapped :: "bytes \<Rightarrow> bytes" where
  "v4_mapped ip = replicate 10 0 @ [255, 255] @ ip"

definition byte_hex :: "u8 \<Rightarrow> string" where
  "byte_hex b = [digit (unat b div 16), digit (unat b mod 16)]"

definition v4_string :: "bytes \<Rightarrow> string" where
  "v4_string ip = itoa (unat (ip ! 0)) @ ''.'' @ itoa (unat (ip ! 1)) @ ''.''
     @ itoa (unat (ip ! 2)) @ ''.'' @ itoa (unat (ip ! 3))"

definition v6u16 :: "bytes \<Rightarrow> nat \<Rightarrow> nat" where
  "v6u16 ip i = 256 * unat (ip ! (2 * i)) + unat (ip ! (2 * i + 1))"

fun zero_run :: "nat list \<Rightarrow> nat" where
  "zero_run [] = 0"
| "zero_run (x # xs) = (if x = 0 then Suc (zero_run xs) else 0)"

text \<open>The longest run of at least two zero groups, the first one of that length.\<close>

fun best_run :: "nat \<Rightarrow> nat list \<Rightarrow> nat \<times> nat \<Rightarrow> nat \<times> nat" where
  "best_run i [] best = best"
| "best_run i (x # xs) best =
     (let l = zero_run (x # xs)
      in best_run (Suc i) xs
           (if l \<ge> 2 \<and> l > snd best - fst best then (i, i + l) else best))"

fun join :: "string \<Rightarrow> string list \<Rightarrow> string" where
  "join sep [] = []"
| "join sep [x] = x"
| "join sep (x # y # xs) = x @ sep @ join sep (y # xs)"

definition v6_string :: "bytes \<Rightarrow> string" where
  "v6_string ip =
     (let gs = map (v6u16 ip) [0..<8]; (zs, ze) = best_run 0 gs (0, 0)
      in if ze = 0 then join '':'' (map hex gs)
         else join '':'' (map hex (take zs gs)) @ ''::'' @ join '':'' (map hex (drop ze gs)))"

definition ip_String :: "bytes \<Rightarrow> string" where
  "ip_String ip =
     (if ip = [] then ''<nil>''
      else if length ip \<noteq> 4 \<and> length ip \<noteq> 16 then CHR ''?'' # concat (map byte_hex ip)
      else case To4 ip of Some p4 \<Rightarrow> v4_string p4 | None \<Rightarrow> v6_string ip)"

subsection \<open>Parsing\<close>

text \<open>
  The loop of \<open>parseIPv4Fields\<close> over the rest of the string: \<open>prev\<close> is the previous character
  (\<open>None\<close> at the start), \<open>fs\<close> the octets read so far, \<open>v\<close> and \<open>k\<close> the value and the number of digits
  of the current one.
\<close>

fun parse_v4_loop :: "char option \<Rightarrow> nat list \<Rightarrow> nat \<Rightarrow> nat \<Rightarrow> string \<Rightarrow> nat list option" where
  "parse_v4_loop prev fs v k [] = (if length fs < 3 then None else Some (fs @ [v]))"
| "parse_v4_loop prev fs v k (c # cs) =
     (if is_digit c then
        (if k = 1 \<and> v = 0 then None
         else if v * 10 + digit_val c > 255 then None
         else parse_v4_loop (Some c) fs (v * 10 + digit_val c) (k + 1) cs)
      else if c = CHR ''.'' then
        (if prev = None \<or> cs = [] \<or> prev = Some CHR ''.'' then None
         else if length fs = 3 then None
         else parse_v4_loop (Some c) (fs @ [v]) 0 0 cs)
      else None)"

definition parseIPv4 :: "string \<Rightarrow> bytes option" where
  "parseIPv4 s = map_option (map of_nat) (parse_v4_loop None [] 0 0 s)"

definition hex_val :: "char \<Rightarrow> nat option" where
  "hex_val c =
     (let n = of_char c :: nat
      in if 48 \<le> n \<and> n \<le> 57 then Some (n - 48)
         else if 97 \<le> n \<and> n \<le> 102 then Some (n - 87)
         else if 65 \<le> n \<and> n \<le> 70 then Some (n - 55)
         else None)"

text \<open>A group of hexadecimal digits: its value, its length and the rest; \<open>None\<close> for more than four.\<close>

fun hex_group :: "nat \<Rightarrow> nat \<Rightarrow> string \<Rightarrow> (nat \<times> nat \<times> string) option" where
  "hex_group acc off [] = Some (acc, off, [])"
| "hex_group acc off (c # cs) =
     (case hex_val c of
        None \<Rightarrow> Some (acc, off, c # cs)
      | Some h \<Rightarrow> if off > 3 then None else hex_group (acc * 16 + h) (off + 1) cs)"

definition expand_ellipsis :: "bytes \<Rightarrow> nat option \<Rightarrow> bytes option" where
  "expand_ellipsis ip ellipsis =
     (case ellipsis of
        None \<Rightarrow> if length ip < 16 then None else Some ip
      | Some e \<Rightarrow>
          if length ip < 16 then Some (take e ip @ replicate (16 - length ip) 0 @ drop e ip)
          else None)"

text \<open>
  The loop of \<open>parseIPv6\<close>; \<open>ip\<close> holds the bytes stored so far, so the source's \<open>i\<close> is its length.
  Every round stores two bytes or ends; eight rounds of fuel are all the loop can use.
\<close>

fun parse_v6_loop :: "nat \<Rightarrow> bytes \<Rightarrow> nat option \<Rightarrow> string \<Rightarrow> bytes option" where
  "parse_v6_loop fuel ip ellipsis s =
     (if length ip \<ge> 16 then (if s = [] then expand_ellipsis ip ellipsis else None)
      else case fuel of 0 \<Rightarrow> None | Suc fuel' \<Rightarrow>
        (case hex_group 0 0 s of
           None \<Rightarrow> None
         | Some (acc, off, rest) \<Rightarrow>
             if off = 0 then None
             else if rest \<noteq> [] \<and> hd rest = CHR ''.'' then
               (if ellipsis = None \<and> length ip \<noteq> 12 then None
                else if length ip + 4 > 16 then None
                else case parseIPv4 s of None \<Rightarrow> None | Some v4 \<Rightarrow> expand_ellipsis (ip @ v4) ellipsis)
             else
               let ip' = ip @ [of_nat (acc div 256), of_nat acc]
               in case rest of
                    [] \<Rightarrow> expand_ellipsis ip' ellipsis
                  | c # rest1 \<Rightarrow>
                      if c \<noteq> CHR '':'' \<or> rest1 = [] then None
                      else if hd rest1 = CHR '':'' then
                        (if ellipsis \<noteq> None then None
                         else if tl rest1 = [] then expand_ellipsis ip' (Some (length ip'))
                         else parse_v6_loop fuel' ip' (Some (length ip')) (tl rest1))
                      else parse_v6_loop fuel' ip' ellipsis rest1))"

definition parseIPv6 :: "string \<Rightarrow> bytes option" where
  "parseIPv6 s =
     (if take 2 s = ''::'' then
        (if drop 2 s = [] then Some (replicate 16 0) else parse_v6_loop 8 [] (Some 0) (drop 2 s))
      else parse_v6_loop 8 [] None s)"

text \<open>\<open>net.ParseIP\<close>: an address with a zone (a \<open>%\<close>) is refused.\<close>

definition ParseIP :: "string \<Rightarrow> bytes option" where
  "ParseIP s =
     (case List.find (\<lambda>c. c \<in> {CHR ''.'', CHR '':'', CHR ''%''}) s of
        None \<Rightarrow> None
      | Some c \<Rightarrow>
          if c = CHR ''.'' then map_option v4_mapped (parseIPv4 s)
          else if c = CHR '':'' then (if CHR ''%'' \<in> set s then None else parseIPv6 s)
          else None)"

end
