(* ===== verification/Upf_Transaction.thy ===== *)
theory Upf_Transaction
  imports Upf_Node Go_Std
begin

text \<open>
  The PFCP server's messages, its state and its transactions: \<open>NFs/upf/internal/pfcp/transaction.go\<close>
  and the sending half of \<open>pfcp.go\<close>.

  The messages are the types of go-pfcp that the server distinguishes, with the fields it reads or
  sets; the information elements of the answers are a datatype of the constructors the server calls.
  The wire format (\<open>message.Parse\<close>, \<open>MarshalTo\<close>), the outcome of a socket write and name resolution
  are fields of the environment \<open>UpfEnv\<close>, arbitrary functions here; so are the forwarder driver and the
  go-pfcp accessors. The outcome of the k-th write is \<open>write_ok k\<close>, so every pattern of failures is
  covered. \<open>sent\<close> is the log of all writes.

  A timer is armed or nil; its expiry is an event of the server's loop. Durations are 64-bit integers.
  A transaction identifier is the string the source formats; \<open>trID_inject\<close> shows that it determines
  address and sequence number.
\<close>

section \<open>Messages\<close>

datatype cause =
  CauseRequestAccepted | CauseMandatoryIEMissing | CauseConditionalIEMissing
| CauseNoEstablishedPFCPAssociation | CauseRuleCreationModificationFailure
| CauseSessionContextNotFound | CauseSystemFailure

datatype rsp_ie =
  R_Cause cause
| R_NodeID string string string
| R_RecoveryTimeStamp int
| R_FSEID nat "bytes option" "bytes option"
| R_CreatedPDR u16 string
| R_ReportType nat nat nat nat
| R_DownlinkDataReport u16

record 'ie EstReq =
  er_NodeID :: "'ie option"
  er_CPFSEID :: "'ie option"
  er_CreateFAR :: "'ie list"
  er_CreateQER :: "'ie list"
  er_CreateURR :: "'ie list"
  er_CreateBAR :: "'ie option"
  er_CreatePDR :: "'ie list"

record 'ie ModReq =
  mr_NodeID :: "'ie option"
  mr_CreateFAR :: "'ie list"
  mr_CreateQER :: "'ie list"
  mr_CreateURR :: "'ie list"
  mr_CreateBAR :: "'ie option"
  mr_CreatePDR :: "'ie list"
  mr_UpdateFAR :: "'ie list"
  mr_UpdateQER :: "'ie list"
  mr_UpdateURR :: "'ie list"
  mr_UpdateBAR :: "'ie option"
  mr_UpdatePDR :: "'ie list"
  mr_QueryURR :: "'ie list"
  mr_RemoveFAR :: "'ie list"
  mr_RemoveQER :: "'ie list"
  mr_RemoveURR :: "'ie list"
  mr_RemoveBAR :: "'ie option"
  mr_RemovePDR :: "'ie list"

datatype other_msg =
  PFDManagementRequest | PFDManagementResponse | AssociationUpdateResponse
| AssociationReleaseResponse | NodeReportRequest | NodeReportResponse
| SessionSetDeletionRequest | SessionSetDeletionResponse | UnknownMsg nat

text \<open>
  The first argument is the sequence number, the second of a session message its SEID. The last
  argument of the session answers and of the report request is the list of usage reports.
\<close>

datatype 'ie message =
  HeartbeatRequest u32
| HeartbeatResponse u32 "rsp_ie list"
| AssociationSetupRequest u32 "'ie option" "'ie option"
| AssociationSetupResponse u32 "rsp_ie list"
| AssociationUpdateRequest u32
| AssociationReleaseRequest u32
| SessionEstablishmentRequest u32 "'ie EstReq"
| SessionEstablishmentResponse u32 nat "rsp_ie list"
| SessionModificationRequest u32 nat "'ie ModReq"
| SessionModificationResponse u32 nat "rsp_ie list" "rpt_ie list list"
| SessionDeletionRequest u32 nat
| SessionDeletionResponse u32 nat "rsp_ie list" "rpt_ie list list"
| SessionReportRequest u32 nat "rsp_ie list" "rpt_ie list list"
| SessionReportResponse u32 nat
| OtherMessage u32 other_msg

datatype MsgType =
  MsgTypeHeartbeatRequest | MsgTypeHeartbeatResponse
| MsgTypePFDManagementRequest | MsgTypePFDManagementResponse
| MsgTypeAssociationSetupRequest | MsgTypeAssociationSetupResponse
| MsgTypeAssociationUpdateRequest | MsgTypeAssociationUpdateResponse
| MsgTypeAssociationReleaseRequest | MsgTypeAssociationReleaseResponse
| MsgTypeNodeReportRequest | MsgTypeNodeReportResponse
| MsgTypeSessionSetDeletionRequest | MsgTypeSessionSetDeletionResponse
| MsgTypeSessionEstablishmentRequest | MsgTypeSessionEstablishmentResponse
| MsgTypeSessionModificationRequest | MsgTypeSessionModificationResponse
| MsgTypeSessionDeletionRequest | MsgTypeSessionDeletionResponse
| MsgTypeSessionReportRequest | MsgTypeSessionReportResponse
| MsgTypeOther nat

fun MessageType :: "'ie message \<Rightarrow> MsgType" where
  "MessageType (HeartbeatRequest _) = MsgTypeHeartbeatRequest"
| "MessageType (HeartbeatResponse _ _) = MsgTypeHeartbeatResponse"
| "MessageType (AssociationSetupRequest _ _ _) = MsgTypeAssociationSetupRequest"
| "MessageType (AssociationSetupResponse _ _) = MsgTypeAssociationSetupResponse"
| "MessageType (AssociationUpdateRequest _) = MsgTypeAssociationUpdateRequest"
| "MessageType (AssociationReleaseRequest _) = MsgTypeAssociationReleaseRequest"
| "MessageType (SessionEstablishmentRequest _ _) = MsgTypeSessionEstablishmentRequest"
| "MessageType (SessionEstablishmentResponse _ _ _) = MsgTypeSessionEstablishmentResponse"
| "MessageType (SessionModificationRequest _ _ _) = MsgTypeSessionModificationRequest"
| "MessageType (SessionModificationResponse _ _ _ _) = MsgTypeSessionModificationResponse"
| "MessageType (SessionDeletionRequest _ _) = MsgTypeSessionDeletionRequest"
| "MessageType (SessionDeletionResponse _ _ _ _) = MsgTypeSessionDeletionResponse"
| "MessageType (SessionReportRequest _ _ _ _) = MsgTypeSessionReportRequest"
| "MessageType (SessionReportResponse _ _) = MsgTypeSessionReportResponse"
| "MessageType (OtherMessage _ k) =
     (case k of
        PFDManagementRequest \<Rightarrow> MsgTypePFDManagementRequest
      | PFDManagementResponse \<Rightarrow> MsgTypePFDManagementResponse
      | AssociationUpdateResponse \<Rightarrow> MsgTypeAssociationUpdateResponse
      | AssociationReleaseResponse \<Rightarrow> MsgTypeAssociationReleaseResponse
      | NodeReportRequest \<Rightarrow> MsgTypeNodeReportRequest
      | NodeReportResponse \<Rightarrow> MsgTypeNodeReportResponse
      | SessionSetDeletionRequest \<Rightarrow> MsgTypeSessionSetDeletionRequest
      | SessionSetDeletionResponse \<Rightarrow> MsgTypeSessionSetDeletionResponse
      | UnknownMsg n \<Rightarrow> MsgTypeOther n)"

fun Sequence :: "'ie message \<Rightarrow> u32" where
  "Sequence (HeartbeatRequest q) = q"
| "Sequence (HeartbeatResponse q _) = q"
| "Sequence (AssociationSetupRequest q _ _) = q"
| "Sequence (AssociationSetupResponse q _) = q"
| "Sequence (AssociationUpdateRequest q) = q"
| "Sequence (AssociationReleaseRequest q) = q"
| "Sequence (SessionEstablishmentRequest q _) = q"
| "Sequence (SessionEstablishmentResponse q _ _) = q"
| "Sequence (SessionModificationRequest q _ _) = q"
| "Sequence (SessionModificationResponse q _ _ _) = q"
| "Sequence (SessionDeletionRequest q _) = q"
| "Sequence (SessionDeletionResponse q _ _ _) = q"
| "Sequence (SessionReportRequest q _ _ _) = q"
| "Sequence (SessionReportResponse q _) = q"
| "Sequence (OtherMessage q _) = q"

definition isRequest :: "'ie message \<Rightarrow> bool" where
  "isRequest msg =
     (case MessageType msg of
        MsgTypeHeartbeatRequest \<Rightarrow> True
      | MsgTypePFDManagementRequest \<Rightarrow> True
      | MsgTypeAssociationSetupRequest \<Rightarrow> True
      | MsgTypeAssociationUpdateRequest \<Rightarrow> True
      | MsgTypeAssociationReleaseRequest \<Rightarrow> True
      | MsgTypeNodeReportRequest \<Rightarrow> True
      | MsgTypeSessionSetDeletionRequest \<Rightarrow> True
      | MsgTypeSessionEstablishmentRequest \<Rightarrow> True
      | MsgTypeSessionModificationRequest \<Rightarrow> True
      | MsgTypeSessionDeletionRequest \<Rightarrow> True
      | MsgTypeSessionReportRequest \<Rightarrow> True
      | _ \<Rightarrow> False)"

definition isResponse :: "'ie message \<Rightarrow> bool" where
  "isResponse msg =
     (case MessageType msg of
        MsgTypeHeartbeatResponse \<Rightarrow> True
      | MsgTypePFDManagementResponse \<Rightarrow> True
      | MsgTypeAssociationSetupResponse \<Rightarrow> True
      | MsgTypeAssociationUpdateResponse \<Rightarrow> True
      | MsgTypeAssociationReleaseResponse \<Rightarrow> True
      | MsgTypeNodeReportResponse \<Rightarrow> True
      | MsgTypeSessionSetDeletionResponse \<Rightarrow> True
      | MsgTypeSessionEstablishmentResponse \<Rightarrow> True
      | MsgTypeSessionModificationResponse \<Rightarrow> True
      | MsgTypeSessionDeletionResponse \<Rightarrow> True
      | MsgTypeSessionReportResponse \<Rightarrow> True
      | _ \<Rightarrow> False)"

fun setReqSeq :: "'ie message \<Rightarrow> u32 \<Rightarrow> 'ie message" where
  "setReqSeq (HeartbeatRequest _) seq = HeartbeatRequest seq"
| "setReqSeq (AssociationSetupRequest _ n t) seq = AssociationSetupRequest seq n t"
| "setReqSeq (AssociationUpdateRequest _) seq = AssociationUpdateRequest seq"
| "setReqSeq (AssociationReleaseRequest _) seq = AssociationReleaseRequest seq"
| "setReqSeq (SessionEstablishmentRequest _ r) seq = SessionEstablishmentRequest seq r"
| "setReqSeq (SessionModificationRequest _ i r) seq = SessionModificationRequest seq i r"
| "setReqSeq (SessionDeletionRequest _ i) seq = SessionDeletionRequest seq i"
| "setReqSeq (SessionReportRequest _ i r us) seq = SessionReportRequest seq i r us"
| "setReqSeq (OtherMessage q k) seq =
     (if k \<in> {PFDManagementRequest, NodeReportRequest, SessionSetDeletionRequest}
      then OtherMessage seq k else OtherMessage q k)"
| "setReqSeq msg seq = msg"

section \<open>Server state and environment\<close>

record 'ie TxTransaction =
  tx_raddr :: string
  tx_seq :: u32
  retransTimeout :: u64
  maxRetrans :: u8
  tx_req :: "'ie message option"
  tx_msgBuf :: bytes
  tx_timer :: bool
  retransCount :: u8

record RxTransaction =
  rx_raddr :: string
  rx_seq :: u32
  rx_timeout :: u64
  rx_msgBuf :: bytes
  rx_timer :: bool

record ('d, 'ie) PfcpServer = "'d Nodes" +
  rnodes :: "(string, nat) gomap"
  new_addr :: nat
  txTrans :: "(string, 'ie TxTransaction) gomap"
  rxTrans :: "(string, RxTransaction) gomap"
  txSeq :: u32
  sent :: "(bytes \<times> string) list"

record ('d, 'ie) UpfEnv =
  e_drv :: "('d, 'ie) Driver"
  e_api :: "'ie ie_api"
  nodeID :: string
  recoveryTime :: int
  RetransTimeout :: u64
  MaxRetrans :: u8
  e_marshal :: "'ie message \<Rightarrow> bytes option"
  e_parse :: "bytes \<Rightarrow> 'ie message option"
  write_ok :: "nat \<Rightarrow> bool"
  ResolveUDPAddr :: "string \<Rightarrow> string option"
  ResolveIPAddr :: "string \<Rightarrow> bytes option"

text \<open>\<open>fmt.Sprintf("%s-%d", addr, seq)\<close>\<close>

definition trID :: "string \<Rightarrow> u32 \<Rightarrow> string" where
  "trID addr seq = addr @ ''-'' @ itoa (unat seq)"

definition WriteTo ::
  "('d, 'ie) UpfEnv \<Rightarrow> bytes \<Rightarrow> string \<Rightarrow> ('d, 'ie) PfcpServer \<Rightarrow> bool \<times> ('d, 'ie) PfcpServer" where
  "WriteTo env b addr st = (write_ok env (length (sent st)), st\<lparr>sent := sent st @ [(b, addr)]\<rparr>)"

section \<open>Transactions\<close>

definition NewTxTransaction :: "('d, 'ie) UpfEnv \<Rightarrow> string \<Rightarrow> u32 \<Rightarrow> 'ie TxTransaction" where
  "NewTxTransaction env raddr seq =
     \<lparr>tx_raddr = raddr, tx_seq = seq, retransTimeout = RetransTimeout env,
      maxRetrans = MaxRetrans env, tx_req = None, tx_msgBuf = [], tx_timer = False, retransCount = 0\<rparr>"

text \<open>The results of the sending functions are \<open>err == nil\<close> and the state.\<close>

definition TxTransaction_send ::
  "('d, 'ie) UpfEnv \<Rightarrow> 'ie TxTransaction \<Rightarrow> 'ie message \<Rightarrow> ('d, 'ie) PfcpServer
    \<Rightarrow> bool \<times> ('d, 'ie) PfcpServer" where
  "TxTransaction_send env tx req st =
     (let req' = setReqSeq req (tx_seq tx)
      in case e_marshal env req' of
           None \<Rightarrow> (False, st)
         | Some b \<Rightarrow>
             let tx' = tx\<lparr>tx_req := Some req', tx_msgBuf := b, tx_timer := True\<rparr>
             in WriteTo env b (tx_raddr tx)
                  (st\<lparr>txTrans := mput (trID (tx_raddr tx) (tx_seq tx)) tx' (txTrans st)\<rparr>))"

text \<open>\<open>tx.timer.Stop()\<close> on a nil timer panics.\<close>

definition TxTransaction_recv ::
  "'ie TxTransaction \<Rightarrow> ('d, 'ie) PfcpServer \<Rightarrow> ('ie message option \<times> ('d, 'ie) PfcpServer) option" where
  "TxTransaction_recv tx st =
     (if \<not> tx_timer tx then None
      else Some (tx_req tx, st\<lparr>txTrans := mdel (trID (tx_raddr tx) (tx_seq tx)) (txTrans st)\<rparr>))"

text \<open>\<open>txtoDispacher\<close> ends in \<open>handleSessionReportRequestTimeout\<close>, which only logs.\<close>

definition handleSessionReportRequestTimeout ::
  "'ie message \<Rightarrow> string \<Rightarrow> ('d, 'ie) PfcpServer \<Rightarrow> ('d, 'ie) PfcpServer" where
  "handleSessionReportRequestTimeout req addr st = st"

definition txtoDispacher ::
  "'ie message option \<Rightarrow> string \<Rightarrow> ('d, 'ie) PfcpServer \<Rightarrow> bool \<times> ('d, 'ie) PfcpServer" where
  "txtoDispacher msg addr st =
     (case msg of
        Some (SessionReportRequest q i r us) \<Rightarrow>
          (True, handleSessionReportRequestTimeout (SessionReportRequest q i r us) addr st)
      | _ \<Rightarrow> (False, st))"

definition TxTransaction_handleTimeout ::
  "('d, 'ie) UpfEnv \<Rightarrow> 'ie TxTransaction \<Rightarrow> ('d, 'ie) PfcpServer \<Rightarrow> ('d, 'ie) PfcpServer" where
  "TxTransaction_handleTimeout env tx st =
     (if retransCount tx < maxRetrans tx then
        let tx' = tx\<lparr>retransCount := retransCount tx + 1, tx_timer := True\<rparr>;
            (_, st') = WriteTo env (tx_msgBuf tx) (tx_raddr tx) st
        in st'\<lparr>txTrans := mput (trID (tx_raddr tx) (tx_seq tx)) tx' (txTrans st')\<rparr>
      else
        snd (txtoDispacher (tx_req tx) (tx_raddr tx)
          (st\<lparr>txTrans := mdel (trID (tx_raddr tx) (tx_seq tx)) (txTrans st)\<rparr>)))"

definition NewRxTransaction :: "('d, 'ie) UpfEnv \<Rightarrow> string \<Rightarrow> u32 \<Rightarrow> RxTransaction" where
  "NewRxTransaction env raddr seq =
     \<lparr>rx_raddr = raddr, rx_seq = seq,
      rx_timeout = RetransTimeout env * ucast (MaxRetrans env + 1), rx_msgBuf = [], rx_timer = True\<rparr>"

definition RxTransaction_send ::
  "('d, 'ie) UpfEnv \<Rightarrow> RxTransaction \<Rightarrow> 'ie message \<Rightarrow> ('d, 'ie) PfcpServer
    \<Rightarrow> bool \<times> ('d, 'ie) PfcpServer" where
  "RxTransaction_send env rx rsp st =
     (case e_marshal env rsp of
        None \<Rightarrow> (False, st)
      | Some b \<Rightarrow>
          WriteTo env b (rx_raddr rx)
            (st\<lparr>rxTrans := mput (trID (rx_raddr rx) (rx_seq rx)) (rx\<lparr>rx_msgBuf := b\<rparr>) (rxTrans st)\<rparr>))"

text \<open>The result is the pair of \<open>needDispatch\<close> and \<open>err == nil\<close>.\<close>

definition RxTransaction_recv ::
  "('d, 'ie) UpfEnv \<Rightarrow> RxTransaction \<Rightarrow> bool \<Rightarrow> ('d, 'ie) PfcpServer
    \<Rightarrow> (bool \<times> bool) \<times> ('d, 'ie) PfcpServer" where
  "RxTransaction_recv env rx rxTrFound st =
     (if \<not> rxTrFound then ((True, True), st)
      else if length (rx_msgBuf rx) = 0 then ((False, True), st)
      else let (ok, st') = WriteTo env (rx_msgBuf rx) (rx_raddr rx) st in ((False, ok), st'))"

definition RxTransaction_handleTimeout ::
  "RxTransaction \<Rightarrow> ('d, 'ie) PfcpServer \<Rightarrow> ('d, 'ie) PfcpServer" where
  "RxTransaction_handleTimeout rx st =
     st\<lparr>rxTrans := mdel (trID (rx_raddr rx) (rx_seq rx)) (rxTrans st)\<rparr>"

section \<open>Sending\<close>

definition sendReqTo ::
  "('d, 'ie) UpfEnv \<Rightarrow> 'ie message \<Rightarrow> string \<Rightarrow> ('d, 'ie) PfcpServer \<Rightarrow> bool \<times> ('d, 'ie) PfcpServer" where
  "sendReqTo env msg addr st =
     (if \<not> isRequest msg then (False, st)
      else
        let txtr = NewTxTransaction env addr (txSeq st)
        in TxTransaction_send env txtr msg
             (st\<lparr>txSeq := txSeq st + 1, txTrans := mput (trID addr (txSeq st)) txtr (txTrans st)\<rparr>))"

definition sendRspTo ::
  "('d, 'ie) UpfEnv \<Rightarrow> 'ie message \<Rightarrow> string \<Rightarrow> ('d, 'ie) PfcpServer \<Rightarrow> bool \<times> ('d, 'ie) PfcpServer" where
  "sendRspTo env msg addr st =
     (if \<not> isResponse msg then (False, st)
      else case map_of (rxTrans st) (trID addr (Sequence msg)) of
             None \<Rightarrow> (False, st)
           | Some rxtr \<Rightarrow> RxTransaction_send env rxtr msg st)"

definition stopTrTimers :: "('d, 'ie) PfcpServer \<Rightarrow> ('d, 'ie) PfcpServer" where
  "stopTrTimers st =
     st\<lparr>txTrans := map (\<lambda>(k, tx). (k, tx\<lparr>tx_timer := False\<rparr>)) (txTrans st),
        rxTrans := map (\<lambda>(k, rx). (k, rx\<lparr>rx_timer := False\<rparr>)) (rxTrans st)\<rparr>"

section \<open>Identifiers\<close>

lemma trID_inject [simp]: "trID a p = trID b q \<longleftrightarrow> a = b \<and> p = q"
proof
  assume "trID a p = trID b q"
  then have "a @ CHR ''-'' # itoa (unat p) = b @ CHR ''-'' # itoa (unat q)" by (simp add: trID_def)
  then have "a = b \<and> unat p = unat q"
    by (rule sep_itoa_inject) (simp add: is_digit_def)
  then show "a = b \<and> p = q" by (simp add: word_unat_eq_iff)
qed simp

lemma request_not_response: "\<not> (isRequest m \<and> isResponse m)"
  by (simp add: isRequest_def isResponse_def split: MsgType.splits)

lemma isRequest_setReqSeq [simp]: "isRequest (setReqSeq m q) = isRequest m"
  by (cases m) (auto simp: isRequest_def)

section \<open>What sending changes\<close>

definition tx_ok :: "string \<Rightarrow> 'ie TxTransaction \<Rightarrow> bool" where
  "tx_ok i tx \<longleftrightarrow> i = trID (tx_raddr tx) (tx_seq tx) \<and> retransCount tx \<le> maxRetrans tx"

definition rx_ok :: "string \<Rightarrow> RxTransaction \<Rightarrow> bool" where
  "rx_ok i rx \<longleftrightarrow> i = trID (rx_raddr rx) (rx_seq rx)"

definition trans_ok :: "('d, 'ie) PfcpServer \<Rightarrow> bool" where
  "trans_ok st \<longleftrightarrow> (\<forall>i tx. map_of (txTrans st) i = Some tx \<longrightarrow> tx_ok i tx)
     \<and> (\<forall>i rx. map_of (rxTrans st) i = Some rx \<longrightarrow> rx_ok i rx)"

lemma nodes_inv_server [simp]:
  "nodes_inv (st\<lparr>txTrans := t\<rparr>) = nodes_inv st" "nodes_inv (st\<lparr>rxTrans := r\<rparr>) = nodes_inv st"
  "nodes_inv (st\<lparr>txSeq := q\<rparr>) = nodes_inv st" "nodes_inv (st\<lparr>sent := x\<rparr>) = nodes_inv st"
  "nodes_inv (st\<lparr>rnodes := m\<rparr>) = nodes_inv st" "nodes_inv (st\<lparr>new_addr := a\<rparr>) = nodes_inv st"
  by (simp_all add: nodes_inv_def owner_def)

lemma sendRspTo_cases:
  obtains (skip) "snd (sendRspTo env m addr st) = st"
  | (wrote) rx b where "isResponse m" "e_marshal env m = Some b"
      "map_of (rxTrans st) (trID addr (Sequence m)) = Some rx"
      "snd (sendRspTo env m addr st)
        = st\<lparr>rxTrans := mput (trID (rx_raddr rx) (rx_seq rx)) (rx\<lparr>rx_msgBuf := b\<rparr>) (rxTrans st),
             sent := sent st @ [(b, rx_raddr rx)]\<rparr>"
  by (cases "isResponse m"; cases "e_marshal env m";
      cases "map_of (rxTrans st) (trID addr (Sequence m))")
    (auto simp: sendRspTo_def RxTransaction_send_def WriteTo_def)

lemma sendRspTo_frame:
  "\<exists>r x. snd (sendRspTo env m addr st) = st\<lparr>rxTrans := r, sent := sent st @ x\<rparr>
     \<and> dom (map_of (rxTrans st)) \<subseteq> dom (map_of r)"
proof (cases rule: sendRspTo_cases [of env m addr st])
  case skip
  then show ?thesis by (intro exI [of _ "rxTrans st"] exI [of _ "[]"]) simp
next
  case (wrote rx b)
  show ?thesis unfolding wrote(4) by (intro exI conjI, rule refl) auto
qed

lemma sendReqTo_frame:
  "\<exists>t q x. snd (sendReqTo env m addr st) = st\<lparr>txSeq := q, txTrans := t, sent := sent st @ x\<rparr>"
proof (cases "isRequest m")
  case False
  have "st = st\<lparr>txSeq := txSeq st, txTrans := txTrans st, sent := sent st @ []\<rparr>" by simp
  with False show ?thesis by (metis sendReqTo_def snd_conv)
next
  case True
  let ?tx = "NewTxTransaction env addr (txSeq st)"
  let ?t = "mput (trID addr (txSeq st)) ?tx (txTrans st)"
  have "tx_raddr ?tx = addr" "tx_seq ?tx = txSeq st" by (simp_all add: NewTxTransaction_def)
  then show ?thesis
  proof (cases "e_marshal env (setReqSeq m (txSeq st))")
    case None
    then have "snd (sendReqTo env m addr st)
        = st\<lparr>txSeq := txSeq st + 1, txTrans := ?t, sent := sent st @ []\<rparr>"
      using True by (simp add: sendReqTo_def TxTransaction_send_def NewTxTransaction_def)
    then show ?thesis by blast
  next
    case (Some b)
    let ?tx' = "?tx\<lparr>tx_req := Some (setReqSeq m (txSeq st)), tx_msgBuf := b, tx_timer := True\<rparr>"
    have "snd (sendReqTo env m addr st)
        = st\<lparr>txSeq := txSeq st + 1, txTrans := mput (trID addr (txSeq st)) ?tx' ?t,
             sent := sent st @ [(b, addr)]\<rparr>"
      using True Some
      by (simp add: sendReqTo_def TxTransaction_send_def NewTxTransaction_def WriteTo_def)
    then show ?thesis by blast
  qed
qed

lemma trans_ok_sendRspTo: "trans_ok st \<Longrightarrow> trans_ok (snd (sendRspTo env m addr st))"
proof (cases rule: sendRspTo_cases [of env m addr st])
  case (wrote rx b)
  assume ok: "trans_ok st"
  then have "rx_ok (trID addr (Sequence m)) rx" using wrote(3) by (simp add: trans_ok_def)
  then show ?thesis unfolding wrote(4) using ok by (simp add: trans_ok_def rx_ok_def)
qed simp

lemma trans_ok_sendReqTo: "trans_ok st \<Longrightarrow> trans_ok (snd (sendReqTo env m addr st))"
  by (auto simp: trans_ok_def sendReqTo_def TxTransaction_send_def WriteTo_def tx_ok_def
      NewTxTransaction_def Let_def split: option.splits)

text \<open>The answer is recorded for retransmission whether or not the socket write succeeds.\<close>

lemma sendRspTo_records:
  assumes "isResponse m" and "map_of (rxTrans st) (trID addr (Sequence m)) = Some rx"
    and "rx_ok (trID addr (Sequence m)) rx" and "e_marshal env m = Some b"
  shows "snd (sendRspTo env m addr st)
    = st\<lparr>rxTrans := mput (trID addr (Sequence m)) (rx\<lparr>rx_msgBuf := b\<rparr>) (rxTrans st),
         sent := sent st @ [(b, addr)]\<rparr>"
  using assms by (auto simp: sendRspTo_def RxTransaction_send_def WriteTo_def rx_ok_def)

section \<open>Retransmission of requests\<close>

fun timeouts ::
  "('d, 'ie) UpfEnv \<Rightarrow> string \<Rightarrow> nat \<Rightarrow> ('d, 'ie) PfcpServer \<Rightarrow> ('d, 'ie) PfcpServer" where
  "timeouts env i 0 st = st"
| "timeouts env i (Suc n) st =
     timeouts env i n (case map_of (txTrans st) i of
        None \<Rightarrow> st | Some tx \<Rightarrow> TxTransaction_handleTimeout env tx st)"

lemma txtoDispacher_state [simp]: "snd (txtoDispacher m addr st) = st"
  by (simp add: txtoDispacher_def handleSessionReportRequestTimeout_def split: option.splits message.splits)

lemma timeouts_gone: "map_of (txTrans st) i = None \<Longrightarrow> timeouts env i n st = st"
  by (induction n) simp_all

lemma timeouts_from:
  assumes "map_of (txTrans st) i = Some tx" and "tx_ok i tx"
  shows "sent (timeouts env i n st) = sent st
      @ replicate (min n (unat (maxRetrans tx) - unat (retransCount tx))) (tx_msgBuf tx, tx_raddr tx)
    \<and> (map_of (txTrans (timeouts env i n st)) i = None
        \<longleftrightarrow> n > unat (maxRetrans tx) - unat (retransCount tx))
    \<and> (\<forall>j. j \<noteq> i \<longrightarrow> map_of (txTrans (timeouts env i n st)) j = map_of (txTrans st) j)"
  using assms
proof (induction n arbitrary: st tx)
  case 0
  then show ?case by simp
next
  case (Suc n)
  have i: "i = trID (tx_raddr tx) (tx_seq tx)" using Suc.prems(2) by (simp add: tx_ok_def)
  show ?case
  proof (cases "retransCount tx < maxRetrans tx")
    case False
    then have e: "retransCount tx = maxRetrans tx" using Suc.prems(2) by (simp add: tx_ok_def)
    have "timeouts env i (Suc n) st = st\<lparr>txTrans := mdel i (txTrans st)\<rparr>"
      using Suc.prems(1) False i by (simp add: TxTransaction_handleTimeout_def timeouts_gone)
    then show ?thesis using e by simp
  next
    case True
    define tx' where "tx' = tx\<lparr>retransCount := retransCount tx + 1, tx_timer := True\<rparr>"
    define st1 where "st1 = st\<lparr>sent := sent st @ [(tx_msgBuf tx, tx_raddr tx)],
      txTrans := mput i tx' (txTrans st)\<rparr>"
    have step: "timeouts env i (Suc n) st = timeouts env i n st1"
      using Suc.prems(1) True i
      by (simp add: TxTransaction_handleTimeout_def WriteTo_def st1_def tx'_def)
    have c: "unat (retransCount tx') = unat (retransCount tx) + 1"
      using True unsigned_less [of "maxRetrans tx", where 'a = nat]
      by (simp add: tx'_def unat_word_ariths word_less_nat_alt)
    have same: "tx_msgBuf tx' = tx_msgBuf tx" "tx_raddr tx' = tx_raddr tx"
      "maxRetrans tx' = maxRetrans tx" "tx_seq tx' = tx_seq tx"
      by (simp_all add: tx'_def)
    have lt: "unat (retransCount tx) < unat (maxRetrans tx)" using True by (simp add: word_less_nat_alt)
    have "tx_ok i tx'" using i same c lt by (simp add: tx_ok_def word_le_nat_alt)
    moreover have "map_of (txTrans st1) i = Some tx'" by (simp add: st1_def)
    moreover have "min (Suc n) (unat (maxRetrans tx) - unat (retransCount tx))
        = Suc (min n (unat (maxRetrans tx) - unat (retransCount tx')))" using c lt by simp
    moreover have "unat (maxRetrans tx) - unat (retransCount tx)
        = Suc (unat (maxRetrans tx) - unat (retransCount tx'))" using c lt by simp
    moreover have "sent st1 = sent st @ [(tx_msgBuf tx, tx_raddr tx)]"
      "\<And>j. j \<noteq> i \<Longrightarrow> map_of (txTrans st1) j = map_of (txTrans st) j"
      by (simp_all add: st1_def)
    ultimately show ?thesis using Suc.IH [of st1 tx'] step same by simp
  qed
qed

text \<open>C25: A request is retransmitted a bounded number of times and then given up. For a transaction in
  the table that has not been retransmitted yet, \<open>n\<close> timer expiries write the same bytes to the same peer
  exactly \<open>min n maxRetrans\<close> times; the transaction leaves the table at the expiry after the last
  retransmission, never earlier, and no other transaction is touched.\<close>

theorem retransmission_bounded:
  assumes "map_of (txTrans st) i = Some tx" and "tx_ok i tx" and "retransCount tx = 0"
  shows "sent (timeouts env i n st)
      = sent st @ replicate (min n (unat (maxRetrans tx))) (tx_msgBuf tx, tx_raddr tx)
    \<and> (map_of (txTrans (timeouts env i n st)) i = None \<longleftrightarrow> n > unat (maxRetrans tx))
    \<and> (\<forall>j. j \<noteq> i \<longrightarrow> map_of (txTrans (timeouts env i n st)) j = map_of (txTrans st) j)"
  using timeouts_from [OF assms(1,2), of env n] assms(3) by simp

definition plain_env :: "u8 \<Rightarrow> (u32 list, plain_ie) UpfEnv" where
  "plain_env mx =
     \<lparr>e_drv = plain_driver, e_api = plain_api, nodeID = ''10.0.0.9'', recoveryTime = 1,
      RetransTimeout = 1000, MaxRetrans = mx, e_marshal = (\<lambda>m. Some [ucast (Sequence m)]),
      e_parse = (\<lambda>b. None), write_ok = (\<lambda>_. True), ResolveUDPAddr = (\<lambda>n. Some n),
      ResolveIPAddr = (\<lambda>n. ParseIP n)\<rparr>"

definition one_tx :: "(u32 list, plain_ie) PfcpServer" where
  "one_tx = \<lparr>heap = [], lnode = empty_table, dstate = [], rnodes = [], new_addr = 0,
     txTrans = [(trID ''10.0.0.1:8805'' 7, (NewTxTransaction (plain_env 2) ''10.0.0.1:8805'' 7)
       \<lparr>tx_req := Some (SessionReportRequest 7 71 [] []), tx_msgBuf := [7], tx_timer := True\<rparr>)],
     rxTrans = [], txSeq = 8, sent = []\<rparr>"

theorem retransmission_bounded_witness:
  "sent (timeouts (plain_env 2) (trID ''10.0.0.1:8805'' 7) 5 one_tx)
     = [([7], ''10.0.0.1:8805''), ([7], ''10.0.0.1:8805'')]
   \<and> map_of (txTrans (timeouts (plain_env 2) (trID ''10.0.0.1:8805'' 7) 5 one_tx))
       (trID ''10.0.0.1:8805'' 7) = None"
proof -
  define tx where "tx = (NewTxTransaction (plain_env 2) ''10.0.0.1:8805'' 7)
       \<lparr>tx_req := Some (SessionReportRequest 7 71 [] []), tx_msgBuf := [7], tx_timer := True\<rparr>"
  have m: "map_of (txTrans one_tx) (trID ''10.0.0.1:8805'' 7) = Some tx"
    by (simp add: one_tx_def tx_def)
  have f: "tx_raddr tx = ''10.0.0.1:8805''" "tx_seq tx = 7" "retransCount tx = 0" "maxRetrans tx = 2"
    "tx_msgBuf tx = [7]"
    by (simp_all add: tx_def NewTxTransaction_def plain_env_def)
  then have ok: "tx_ok (trID ''10.0.0.1:8805'' 7) tx" by (simp add: tx_ok_def)
  have u: "unat (maxRetrans tx) = 2" and e: "sent one_tx = []" using f by (simp_all add: one_tx_def)
  have r: "replicate 2 x = [x, x]" for x :: "bytes \<times> string" by (simp add: numeral_2_eq_2)
  show ?thesis
    using retransmission_bounded [OF m ok f(3), of "plain_env 2" 5] f(1,5) unfolding u e
    by (simp add: r)
qed

text \<open>C26: A received request is remembered for the whole time its sender may retransmit it, unless the
  configured number of retransmissions is 255. The lifetime of a receive transaction is
  \<open>RetransTimeout * (MaxRetrans + 1)\<close>; the sum is computed in eight bits, so that with \<open>MaxRetrans = 255\<close>
  the lifetime is 0 and the record of the answer expires at once, and in every other case it is the exact
  product (modulo the 64 bits of a duration).\<close>

theorem rx_lifetime:
  "rx_timeout (NewRxTransaction env addr seq) =
     (if MaxRetrans env = 255 then 0
      else RetransTimeout env * of_nat (unat (MaxRetrans env) + 1))"
proof (cases "MaxRetrans env = 255")
  case True
  then show ?thesis by (simp add: NewRxTransaction_def)
next
  case False
  have "unat (MaxRetrans env) \<noteq> unat (255 :: u8)" using False by (metis word_unat_eq_iff)
  then have "unat (MaxRetrans env) < 255" using unsigned_less [of "MaxRetrans env", where 'a = nat] by simp
  then have "unat (MaxRetrans env + 1) = unat (MaxRetrans env) + 1" by (simp add: unat_word_ariths)
  then have "(ucast (MaxRetrans env + 1) :: u64) = of_nat (unat (MaxRetrans env) + 1)"
    by (metis of_nat_unat)
  then show ?thesis using False by (simp add: NewRxTransaction_def)
qed

end
