(* ===== verification/Upf_Pfcp_Session.thy ===== *)
theory Upf_Pfcp_Session
  imports Upf_Transaction
begin

text \<open>
  The session handlers of the PFCP server, \<open>NFs/upf/internal/pfcp/session.go\<close>: establishment,
  modification and deletion of a session, and the check for conflicting operations in one request.

  A handler returns \<open>None\<close> when the source panics. Establishment and modification have the three
  phases of the source: validation builds a plan (\<open>est_validate\<close>, \<open>mod_validate\<close>) and stops at the first
  error, the driver executes the plan, and the session is updated (\<open>est_apply\<close>, \<open>mod_apply\<close>). The session
  pointer of the source is an entry of the session table; the handlers write it back with \<open>put_sess\<close>.
\<close>

section \<open>Causes\<close>

definition pfcpCauseFromError :: "pfcp_error \<Rightarrow> cause" where
  "pfcpCauseFromError err =
     (case err of
        ErrMissingMandatoryIE \<Rightarrow> CauseMandatoryIEMissing
      | ErrMissingConditionalIE \<Rightarrow> CauseConditionalIEMissing
      | ErrRuleNotFound \<Rightarrow> CauseRuleCreationModificationFailure
      | ErrRuleCreationModificationFailed \<Rightarrow> CauseRuleCreationModificationFailure
      | ErrMutualExclusionConflict \<Rightarrow> CauseRuleCreationModificationFailure)"

definition sendSessEstFailRsp ::
  "('d, 'ie) UpfEnv \<Rightarrow> u32 \<Rightarrow> string \<Rightarrow> cause \<Rightarrow> ('d, 'ie) PfcpServer \<Rightarrow> ('d, 'ie) PfcpServer" where
  "sendSessEstFailRsp env seq addr c st =
     snd (sendRspTo env (SessionEstablishmentResponse seq 0 [R_Cause c]) addr st)"

definition sendSessModFailRsp ::
  "('d, 'ie) UpfEnv \<Rightarrow> u32 \<Rightarrow> Sess \<Rightarrow> string \<Rightarrow> cause \<Rightarrow> ('d, 'ie) PfcpServer
    \<Rightarrow> ('d, 'ie) PfcpServer" where
  "sendSessModFailRsp env seq sess addr c st =
     snd (sendRspTo env (SessionModificationResponse seq (RemoteID sess) [R_Cause c] []) addr st)"

section \<open>Conflicting operations\<close>

fun checkDuplicates :: "u32 list \<Rightarrow> u32 list \<Rightarrow> pfcp_error option" where
  "checkDuplicates seen [] = None"
| "checkDuplicates seen (i # is) =
     (if i \<in> set seen then Some ErrMutualExclusionConflict else checkDuplicates (i # seen) is)"

fun checkOverlap :: "u32 list \<Rightarrow> u32 list \<Rightarrow> pfcp_error option" where
  "checkOverlap ids1 [] = None"
| "checkOverlap ids1 (i # is) =
     (if i \<in> set ids1 then Some ErrMutualExclusionConflict else checkOverlap ids1 is)"

fun first_error :: "pfcp_error option list \<Rightarrow> pfcp_error option" where
  "first_error [] = None"
| "first_error (Some e # es) = Some e"
| "first_error (None # es) = first_error es"

definition collectPDRIDs :: "'ie PDRPlan list \<Rightarrow> u32 list" where
  "collectPDRIDs plans = map (\<lambda>p. ucast (pp_PDRID p)) plans"

definition collectBARIDs :: "'ie BARPlan list \<Rightarrow> u32 list" where
  "collectBARIDs plans = map (\<lambda>p. ucast (bp_BARID p)) plans"

definition validateMutualExclusion :: "'ie ModificationPlan \<Rightarrow> pfcp_error option" where
  "validateMutualExclusion plan =
     (let createPDRIDs = collectPDRIDs (CreatePDRs plan);
          removePDRIDs = collectPDRIDs (RemovePDRs plan);
          updatePDRIDs = collectPDRIDs (UpdatePDRs plan);
          createFARIDs = map fp_FARID (CreateFARs plan);
          removeFARIDs = map fp_FARID (RemoveFARs plan);
          updateFARIDs = map fp_FARID (UpdateFARs plan);
          createQERIDs = map qp_QERID (CreateQERs plan);
          removeQERIDs = map qp_QERID (RemoveQERs plan);
          updateQERIDs = map qp_QERID (UpdateQERs plan);
          createURRIDs = map up_URRID (CreateURRs plan);
          removeURRIDs = map up_URRID (RemoveURRs plan);
          updateURRIDs = map up_URRID (UpdateURRs plan);
          queryURRIDs = map up_QueryURRID (QueryURRs plan);
          createBARIDs = collectBARIDs (CreateBARs plan);
          removeBARIDs = collectBARIDs (RemoveBARs plan);
          updateBARIDs = collectBARIDs (UpdateBARs plan)
      in first_error
           [checkDuplicates [] createPDRIDs, checkDuplicates [] removePDRIDs,
            checkOverlap removePDRIDs updatePDRIDs,
            checkDuplicates [] createFARIDs, checkDuplicates [] removeFARIDs,
            checkOverlap removeFARIDs updateFARIDs,
            checkDuplicates [] createQERIDs, checkDuplicates [] removeQERIDs,
            checkOverlap removeQERIDs updateQERIDs,
            checkDuplicates [] createURRIDs, checkDuplicates [] removeURRIDs,
            checkOverlap removeURRIDs updateURRIDs, checkOverlap removeURRIDs queryURRIDs,
            checkDuplicates [] createBARIDs, checkDuplicates [] removeBARIDs,
            checkOverlap removeBARIDs updateBARIDs])"

section \<open>Validation\<close>

text \<open>A loop of the validation phase: it stops at the first error and collects the plans.\<close>

fun validate_loop ::
  "('ie \<Rightarrow> 'ie ModificationPlan \<Rightarrow> pfcp_error + 'p) \<Rightarrow> ('p \<Rightarrow> 'ie ModificationPlan \<Rightarrow> 'ie ModificationPlan)
    \<Rightarrow> 'ie list \<Rightarrow> 'ie ModificationPlan \<Rightarrow> pfcp_error + 'ie ModificationPlan" where
  "validate_loop v add [] plan = Inr plan"
| "validate_loop v add (i # is) plan =
     (case v i plan of Inl e \<Rightarrow> Inl e | Inr p \<Rightarrow> validate_loop v add is (add p plan))"

definition and_then :: "'e + 'a \<Rightarrow> ('a \<Rightarrow> 'e + 'b) \<Rightarrow> 'e + 'b" where
  "and_then x f = (case x of Inl e \<Rightarrow> Inl e | Inr a \<Rightarrow> f a)"

definition opt_list :: "'a option \<Rightarrow> 'a list" where
  "opt_list x = (case x of None \<Rightarrow> [] | Some a \<Rightarrow> [a])"

definition add_CreateFAR :: "'ie FARPlan \<Rightarrow> 'ie ModificationPlan \<Rightarrow> 'ie ModificationPlan" where
  "add_CreateFAR p m = m\<lparr>CreateFARs := CreateFARs m @ [p]\<rparr>"

definition add_CreateQER :: "'ie QERPlan \<Rightarrow> 'ie ModificationPlan \<Rightarrow> 'ie ModificationPlan" where
  "add_CreateQER p m = m\<lparr>CreateQERs := CreateQERs m @ [p]\<rparr>"

definition add_CreateURR :: "'ie URRPlan \<Rightarrow> 'ie ModificationPlan \<Rightarrow> 'ie ModificationPlan" where
  "add_CreateURR p m = m\<lparr>CreateURRs := CreateURRs m @ [p]\<rparr>"

definition add_CreateBAR :: "'ie BARPlan \<Rightarrow> 'ie ModificationPlan \<Rightarrow> 'ie ModificationPlan" where
  "add_CreateBAR p m = m\<lparr>CreateBARs := CreateBARs m @ [p]\<rparr>"

definition add_CreatePDR :: "'ie PDRPlan \<Rightarrow> 'ie ModificationPlan \<Rightarrow> 'ie ModificationPlan" where
  "add_CreatePDR p m = m\<lparr>CreatePDRs := CreatePDRs m @ [p]\<rparr>"

definition validate_creates ::
  "('d, 'ie) Driver \<Rightarrow> Sess \<Rightarrow> 'ie list \<Rightarrow> 'ie list \<Rightarrow> 'ie list \<Rightarrow> 'ie option \<Rightarrow> 'ie list
    \<Rightarrow> 'ie ModificationPlan \<Rightarrow> pfcp_error + 'ie ModificationPlan" where
  "validate_creates dr sess fars qers urrs bar pdrs plan =
     and_then (validate_loop (\<lambda>i _. ValidateCreateFAR dr sess i) add_CreateFAR fars plan) (\<lambda>plan.
     and_then (validate_loop (\<lambda>i _. ValidateCreateQER dr sess i) add_CreateQER qers plan) (\<lambda>plan.
     and_then (validate_loop (\<lambda>i _. ValidateCreateURR dr sess i) add_CreateURR urrs plan) (\<lambda>plan.
     and_then (validate_loop (\<lambda>i _. ValidateCreateBAR dr sess i) add_CreateBAR (opt_list bar) plan) (\<lambda>plan.
     validate_loop (ValidateCreatePDR dr sess) add_CreatePDR pdrs plan))))"

definition est_validate ::
  "('d, 'ie) Driver \<Rightarrow> Sess \<Rightarrow> 'ie EstReq \<Rightarrow> pfcp_error + 'ie ModificationPlan" where
  "est_validate dr sess req =
     validate_creates dr sess (er_CreateFAR req) (er_CreateQER req) (er_CreateURR req)
       (er_CreateBAR req) (er_CreatePDR req) (NewModificationPlan (LocalID sess))"

definition validate_updates ::
  "('d, 'ie) Driver \<Rightarrow> Sess \<Rightarrow> 'ie ModReq \<Rightarrow> 'ie ModificationPlan \<Rightarrow> pfcp_error + 'ie ModificationPlan" where
  "validate_updates dr sess req plan =
     and_then (validate_loop (ValidateUpdateFAR dr sess)
       (\<lambda>p m. m\<lparr>UpdateFARs := UpdateFARs m @ [p]\<rparr>) (mr_UpdateFAR req) plan) (\<lambda>plan.
     and_then (validate_loop (ValidateUpdateQER dr sess)
       (\<lambda>p m. m\<lparr>UpdateQERs := UpdateQERs m @ [p]\<rparr>) (mr_UpdateQER req) plan) (\<lambda>plan.
     and_then (validate_loop (ValidateUpdateURR dr sess)
       (\<lambda>p m. m\<lparr>UpdateURRs := UpdateURRs m @ [p]\<rparr>) (mr_UpdateURR req) plan) (\<lambda>plan.
     and_then (validate_loop (ValidateUpdateBAR dr sess)
       (\<lambda>p m. m\<lparr>UpdateBARs := UpdateBARs m @ [p]\<rparr>) (opt_list (mr_UpdateBAR req)) plan) (\<lambda>plan.
     and_then (validate_loop (ValidateUpdatePDR dr sess)
       (\<lambda>p m. m\<lparr>UpdatePDRs := UpdatePDRs m @ [p]\<rparr>) (mr_UpdatePDR req) plan) (\<lambda>plan.
     validate_loop (ValidateQueryURR dr sess)
       (\<lambda>p m. m\<lparr>QueryURRs := QueryURRs m @ [p]\<rparr>) (mr_QueryURR req) plan)))))"

definition validate_removes ::
  "('d, 'ie) Driver \<Rightarrow> Sess \<Rightarrow> 'ie ModReq \<Rightarrow> 'ie ModificationPlan \<Rightarrow> pfcp_error + 'ie ModificationPlan" where
  "validate_removes dr sess req plan =
     and_then (validate_loop (ValidateRemoveFAR dr sess)
       (\<lambda>p m. m\<lparr>RemoveFARs := RemoveFARs m @ [p]\<rparr>) (mr_RemoveFAR req) plan) (\<lambda>plan.
     and_then (validate_loop (ValidateRemoveQER dr sess)
       (\<lambda>p m. m\<lparr>RemoveQERs := RemoveQERs m @ [p]\<rparr>) (mr_RemoveQER req) plan) (\<lambda>plan.
     and_then (validate_loop (ValidateRemoveURR dr sess)
       (\<lambda>p m. m\<lparr>RemoveURRs := RemoveURRs m @ [p]\<rparr>) (mr_RemoveURR req) plan) (\<lambda>plan.
     and_then (validate_loop (ValidateRemoveBAR dr sess)
       (\<lambda>p m. m\<lparr>RemoveBARs := RemoveBARs m @ [p]\<rparr>) (opt_list (mr_RemoveBAR req)) plan) (\<lambda>plan.
     validate_loop (ValidateRemovePDR dr sess)
       (\<lambda>p m. m\<lparr>RemovePDRs := RemovePDRs m @ [p]\<rparr>) (mr_RemovePDR req) plan))))"

definition mod_validate ::
  "('d, 'ie) Driver \<Rightarrow> Sess \<Rightarrow> 'ie ModReq \<Rightarrow> pfcp_error + 'ie ModificationPlan" where
  "mod_validate dr sess req =
     and_then (validate_creates dr sess (mr_CreateFAR req) (mr_CreateQER req) (mr_CreateURR req)
       (mr_CreateBAR req) (mr_CreatePDR req) (NewModificationPlan (LocalID sess))) (\<lambda>plan.
     and_then (validate_updates dr sess req plan) (\<lambda>plan.
     and_then (validate_removes dr sess req plan) (\<lambda>plan.
     case validateMutualExclusion plan of Some e \<Rightarrow> Inl e | None \<Rightarrow> Inr plan)))"

section \<open>Applying a plan to the session\<close>

definition apply_creates :: "'ie ie_api \<Rightarrow> 'ie ModificationPlan \<Rightarrow> Sess \<Rightarrow> Sess" where
  "apply_creates ap plan s =
     fold ApplyCreatePDR (CreatePDRs plan)
      (fold ApplyCreateBAR (CreateBARs plan)
       (fold (ApplyCreateURR ap) (CreateURRs plan)
        (fold ApplyCreateQER (CreateQERs plan)
         (fold ApplyCreateFAR (CreateFARs plan) s))))"

definition apply_removes :: "'ie ModificationPlan \<Rightarrow> Sess \<Rightarrow> Sess" where
  "apply_removes plan s =
     fold ApplyRemoveFAR (RemoveFARs plan)
      (fold ApplyRemoveQER (RemoveQERs plan)
       (fold ApplyRemoveURR (RemoveURRs plan)
        (fold ApplyRemoveBAR (RemoveBARs plan) s)))"

text \<open>The triggers that a report of the execution gets: termination, then immediate report.\<close>

definition mark_report :: "'ie ModificationPlan \<Rightarrow> USAReport \<Rightarrow> USAReport" where
  "mark_report plan r =
     (let r1 = (if list_ex (\<lambda>p. up_URRID p = ur_URRID r) (RemoveURRs plan)
                then set_trigger U_TERMR r else r)
      in if list_ex (\<lambda>p. up_QueryURRID p = ur_URRID r1) (QueryURRs plan)
         then set_trigger U_IMMER r1 else r1)"

definition mod_apply ::
  "('d, 'ie) Driver \<Rightarrow> 'ie ie_api \<Rightarrow> 'ie ModificationPlan \<Rightarrow> USAReport list option \<Rightarrow> Sess \<Rightarrow> 'd
    \<Rightarrow> USAReport list \<times> Sess \<times> 'd" where
  "mod_apply dr ap plan execResult s d =
     (let s1 = apply_creates ap plan s;
          s2 = fold (ApplyUpdateURR ap) (UpdateURRs plan) s1;
          (us1, s3, d1) = ApplyUpdatePDRs dr (UpdatePDRs plan) s2 d;
          (us2, s4, d2) = ApplyRemovePDRs dr (RemovePDRs plan) s3 d1;
          s5 = apply_removes plan s4;
          us3 = (case execResult of None \<Rightarrow> [] | Some rs \<Rightarrow> map (mark_report plan) rs)
      in (us1 @ us2 @ us3, s5, d2))"

text \<open>The loops that number the reports and turn them into information elements.\<close>

fun mod_reports :: "USAReport list \<Rightarrow> Sess \<Rightarrow> rpt_ie list list \<times> Sess" where
  "mod_reports [] s = ([], s)"
| "mod_reports (r # rs) s =
     (case map_of (URRIDs s) (ur_URRID r) of
        None \<Rightarrow> mod_reports rs s
      | Some info \<Rightarrow>
          let (q, s1) = URRSeq (ur_URRID r) s;
              (ies, s2) = mod_reports rs s1
          in (IEsWithinSessModRsp (r\<lparr>URSEQN := q\<rparr>) (ui_Method info) (ui_Info info) # ies, s2))"

fun del_reports :: "USAReport list \<Rightarrow> Sess \<Rightarrow> rpt_ie list list \<times> Sess" where
  "del_reports [] s = ([], s)"
| "del_reports (r # rs) s =
     (case map_of (URRIDs s) (ur_URRID r) of
        None \<Rightarrow> del_reports rs s
      | Some info \<Rightarrow>
          let (q, s1) = URRSeq (ur_URRID r) s;
              r' = set_trigger U_TERMR (r\<lparr>URSEQN := q\<rparr>);
              s2 = (if removed info then s1\<lparr>URRIDs := mdel (ur_URRID r) (URRIDs s1)\<rparr> else s1);
              (ies, s3) = del_reports rs s2
          in (IEsWithinSessDelRsp r' (ui_Method info) (ui_Info info) # ies, s3))"

section \<open>Elements of a PDR\<close>

fun ue_scan :: "'ie ie_api \<Rightarrow> 'ie list \<Rightarrow> bytes option" where
  "ue_scan ap [] = None"
| "ue_scan ap (i # is) =
     (if ie_Type ap i = T_PDI then
        (case ie_PDI ap i of
           None \<Rightarrow> None
         | Some xs \<Rightarrow>
             (case List.find (\<lambda>x. ie_Type ap x = T_UEIPAddress) xs of
                Some x \<Rightarrow> ie_UEIPAddress ap x
              | None \<Rightarrow> ue_scan ap is))
      else ue_scan ap is)"

definition getUEAddressFromPDR :: "'ie ie_api \<Rightarrow> 'ie option \<Rightarrow> bytes option" where
  "getUEAddressFromPDR ap pdr =
     (case ie_CreatePDR ap pdr of None \<Rightarrow> None | Some ies \<Rightarrow> ue_scan ap ies)"

definition getPDRIDFromPDR :: "'ie ie_api \<Rightarrow> 'ie option \<Rightarrow> u16" where
  "getPDRIDFromPDR ap pdr =
     (case ie_CreatePDR ap pdr of
        None \<Rightarrow> 0
      | Some ies \<Rightarrow>
          (case List.find (\<lambda>i. ie_Type ap i = T_PDRID) ies of
             None \<Rightarrow> 0
           | Some i \<Rightarrow> (case ie_PDRID ap i of None \<Rightarrow> 0 | Some n \<Rightarrow> n)))"

definition created_pdrs :: "'ie ie_api \<Rightarrow> 'ie PDRPlan list \<Rightarrow> rsp_ie list" where
  "created_pdrs ap plans =
     List.map_filter (\<lambda>p. map_option
       (\<lambda>ip. R_CreatedPDR (getPDRIDFromPDR ap (pp_OriginalIE p)) (ip_String ip))
       (getUEAddressFromPDR ap (pp_OriginalIE p))) plans"

definition newIeNodeID :: "string \<Rightarrow> rsp_ie" where
  "newIeNodeID nid =
     (case ParseIP nid of
        Some ip \<Rightarrow> (case To4 ip of Some _ \<Rightarrow> R_NodeID nid [] [] | None \<Rightarrow> R_NodeID [] nid [])
      | None \<Rightarrow> R_NodeID [] [] nid)"

section \<open>Establishment\<close>

text \<open>Each failure after \<open>NewSess\<close>: the answer is sent, then the session is deleted.\<close>

definition est_fail ::
  "('d, 'ie) UpfEnv \<Rightarrow> u32 \<Rightarrow> string \<Rightarrow> nat \<Rightarrow> nat \<Rightarrow> cause \<Rightarrow> ('d, 'ie) PfcpServer
    \<Rightarrow> ('d, 'ie) PfcpServer option" where
  "est_fail env seq addr rnode lid c st =
     map_option snd (RemoteNode_DeleteSess (e_drv env) (e_api env) rnode lid
       (sendSessEstFailRsp env seq addr c st))"

definition est_rsp :: "('d, 'ie) UpfEnv \<Rightarrow> u32 \<Rightarrow> 'ie PDRPlan list \<Rightarrow> Sess \<Rightarrow> 'ie message" where
  "est_rsp env seq pdrs sess =
     SessionEstablishmentResponse seq (RemoteID sess)
       (created_pdrs (e_api env) pdrs
        @ [newIeNodeID (nodeID env), R_Cause CauseRequestAccepted,
           R_FSEID (LocalID sess)
             (case ResolveIPAddr env (nodeID env) of None \<Rightarrow> None | Some ip \<Rightarrow> To4 ip) None])"

definition est_session ::
  "('d, 'ie) UpfEnv \<Rightarrow> u32 \<Rightarrow> 'ie EstReq \<Rightarrow> string \<Rightarrow> nat \<Rightarrow> nat \<Rightarrow> ('d, 'ie) PfcpServer
    \<Rightarrow> ('d, 'ie) PfcpServer option" where
  "est_session env seq req addr rnode rSeid st =
     (case RemoteNode_NewSess rnode rSeid st of
        None \<Rightarrow> None
      | Some (sess, st1) \<Rightarrow>
          (case est_validate (e_drv env) sess req of
             Inl e \<Rightarrow> est_fail env seq addr rnode (LocalID sess) (pfcpCauseFromError e) st1
           | Inr plan \<Rightarrow>
               (case ExecuteEstablishmentPlan (e_drv env) (dstate st1) plan of
                  (None, d) \<Rightarrow>
                    est_fail env seq addr rnode (LocalID sess) CauseRuleCreationModificationFailure
                      (st1\<lparr>dstate := d\<rparr>)
                | (Some _, d) \<Rightarrow>
                    let sess' = apply_creates (e_api env) plan sess;
                        st2 = st1\<lparr>dstate := d, lnode := put_sess sess' (lnode st1)\<rparr>
                    in Some (snd (sendRspTo env (est_rsp env seq (CreatePDRs plan) sess') addr st2)))))"

definition handleSessionEstablishmentRequest ::
  "('d, 'ie) UpfEnv \<Rightarrow> u32 \<Rightarrow> 'ie EstReq \<Rightarrow> string \<Rightarrow> ('d, 'ie) PfcpServer
    \<Rightarrow> ('d, 'ie) PfcpServer option" where
  "handleSessionEstablishmentRequest env seq req addr st =
     (case Option.bind (er_NodeID req) (ie_NodeID (e_api env)) of
        None \<Rightarrow> Some (sendSessEstFailRsp env seq addr CauseMandatoryIEMissing st)
      | Some rnodeid \<Rightarrow>
          (case map_of (rnodes st) rnodeid of
             None \<Rightarrow> Some (sendSessEstFailRsp env seq addr CauseNoEstablishedPFCPAssociation st)
           | Some rnode \<Rightarrow>
               (case Option.bind (er_CPFSEID req) (ie_FSEID (e_api env)) of
                  None \<Rightarrow> Some (sendSessEstFailRsp env seq addr CauseMandatoryIEMissing st)
                | Some rSeid \<Rightarrow> est_session env seq req addr rnode rSeid st)))"

section \<open>Modification\<close>

definition UpdateNodeID ::
  "nat option \<Rightarrow> string \<Rightarrow> ('d, 'ie) PfcpServer \<Rightarrow> ('d, 'ie) PfcpServer option" where
  "UpdateNodeID rnode newId st =
     (case rnode of
        None \<Rightarrow> None
      | Some a \<Rightarrow>
          (case map_of (heap st) a of
             None \<Rightarrow> None
           | Some n \<Rightarrow>
               Some (st\<lparr>rnodes := mput newId a (mdel (rn_ID n) (rnodes st)),
                        heap := mput a (n\<lparr>rn_ID := newId\<rparr>) (heap st)\<rparr>)))"

definition mod_session ::
  "('d, 'ie) UpfEnv \<Rightarrow> u32 \<Rightarrow> Sess \<Rightarrow> 'ie ModReq \<Rightarrow> string \<Rightarrow> ('d, 'ie) PfcpServer
    \<Rightarrow> ('d, 'ie) PfcpServer" where
  "mod_session env seq sess req addr st =
     (case mod_validate (e_drv env) sess req of
        Inl e \<Rightarrow> sendSessModFailRsp env seq sess addr (pfcpCauseFromError e) st
      | Inr plan \<Rightarrow>
          let (execResult, drained, d1) =
                ExecuteModificationPlan (e_drv env) (dstate st) plan (\<lambda>k. q_items k sess);
              (usars, s1, d2) =
                mod_apply (e_drv env) (e_api env) plan execResult (fold drain_q drained sess) d1;
              (ies, s2) = mod_reports usars s1;
              s3 = CleanupRemovedURRs s2;
              st1 = st\<lparr>dstate := d2, lnode := put_sess s3 (lnode st)\<rparr>
          in snd (sendRspTo env
               (SessionModificationResponse seq (RemoteID s3) [R_Cause CauseRequestAccepted] ies) addr st1))"

definition handleSessionModificationRequest ::
  "('d, 'ie) UpfEnv \<Rightarrow> u32 \<Rightarrow> nat \<Rightarrow> 'ie ModReq \<Rightarrow> string \<Rightarrow> ('d, 'ie) PfcpServer
    \<Rightarrow> ('d, 'ie) PfcpServer option" where
  "handleSessionModificationRequest env seq seid req addr st =
     (case LocalNode_Sess seid (lnode st) of
        None \<Rightarrow> Some (snd (sendRspTo env
          (SessionModificationResponse seq 0 [R_Cause CauseSessionContextNotFound] []) addr st))
      | Some sess \<Rightarrow>
          (case mr_NodeID req of
             None \<Rightarrow> Some (mod_session env seq sess req addr st)
           | Some i \<Rightarrow>
               (case ie_NodeID (e_api env) i of
                  None \<Rightarrow> Some st
                | Some rnodeid \<Rightarrow>
                    map_option (mod_session env seq sess req addr)
                      (UpdateNodeID (s_rnode sess) rnodeid st))))"

section \<open>Deletion\<close>

definition handleSessionDeletionRequest ::
  "('d, 'ie) UpfEnv \<Rightarrow> u32 \<Rightarrow> nat \<Rightarrow> string \<Rightarrow> ('d, 'ie) PfcpServer \<Rightarrow> ('d, 'ie) PfcpServer option" where
  "handleSessionDeletionRequest env seq lSeid addr st =
     (case LocalNode_Sess lSeid (lnode st) of
        None \<Rightarrow> Some (snd (sendRspTo env (SessionDeletionResponse seq 0
          [R_Cause CauseSessionContextNotFound, R_ReportType 0 0 1 0] []) addr st))
      | Some sess \<Rightarrow>
          (case s_rnode sess of
             None \<Rightarrow> None
           | Some a \<Rightarrow>
               (case RemoteNode_DeleteSess (e_drv env) (e_api env) a lSeid st of
                  None \<Rightarrow> None
                | Some (r, st1) \<Rightarrow>
                    let (usars, s1) = (case r of None \<Rightarrow> ([], sess) | Some p \<Rightarrow> p);
                        (ies, s2) = del_reports usars s1
                    in Some (snd (sendRspTo env (SessionDeletionResponse seq (RemoteID s2)
                         [R_Cause CauseRequestAccepted] ies) addr st1)))))"

section \<open>Conflicts, characterised\<close>

lemma checkDuplicates_None: "checkDuplicates seen is = None \<longleftrightarrow> distinct is \<and> set is \<inter> set seen = {}"
  by (induction "is" arbitrary: seen) auto

lemma checkOverlap_None: "checkOverlap xs ys = None \<longleftrightarrow> set xs \<inter> set ys = {}"
  by (induction ys) auto

lemma first_error_None: "first_error es = None \<longleftrightarrow> (\<forall>e\<in>set es. e = None)"
  by (induction es rule: first_error.induct) auto

lemma check_cases:
  "checkDuplicates seen is \<in> {None, Some ErrMutualExclusionConflict}"
  "checkOverlap xs ys \<in> {None, Some ErrMutualExclusionConflict}"
  by (induction "is" arbitrary: seen, auto) (induction ys, auto)

lemma first_error_conflict:
  "set es \<subseteq> {None, Some ErrMutualExclusionConflict} \<Longrightarrow>
    first_error es \<in> {None, Some ErrMutualExclusionConflict}"
  by (induction es rule: first_error.induct) auto

lemma ucast_ids:
  "distinct (map (\<lambda>p. ucast (pp_PDRID p) :: u32) ps) = distinct (map pp_PDRID ps)"
  "distinct (map (\<lambda>p. ucast (bp_BARID p) :: u32) bs) = distinct (map bp_BARID bs)"
  "(\<lambda>p. ucast (pp_PDRID p) :: u32) ` X \<inter> (\<lambda>p. ucast (pp_PDRID p)) ` Y = {}
    \<longleftrightarrow> pp_PDRID ` X \<inter> pp_PDRID ` Y = {}"
  "(\<lambda>p. ucast (bp_BARID p) :: u32) ` U \<inter> (\<lambda>p. ucast (bp_BARID p)) ` V = {}
    \<longleftrightarrow> bp_BARID ` U \<inter> bp_BARID ` V = {}"
proof -
  have p: "inj (ucast :: u16 \<Rightarrow> u32)" and b: "inj (ucast :: u8 \<Rightarrow> u32)"
    by (metis injI ucast_widen(2)) (metis injI ucast_widen(1))
  show "distinct (map (\<lambda>p. ucast (pp_PDRID p) :: u32) ps) = distinct (map pp_PDRID ps)"
    using distinct_map [of "ucast :: u16 \<Rightarrow> u32" "map pp_PDRID ps"] inj_on_subset [OF p subset_UNIV]
    by (simp add: comp_def)
  show "distinct (map (\<lambda>p. ucast (bp_BARID p) :: u32) bs) = distinct (map bp_BARID bs)"
    using distinct_map [of "ucast :: u8 \<Rightarrow> u32" "map bp_BARID bs"] inj_on_subset [OF b subset_UNIV]
    by (simp add: comp_def)
  show "(\<lambda>p. ucast (pp_PDRID p) :: u32) ` X \<inter> (\<lambda>p. ucast (pp_PDRID p)) ` Y = {}
      \<longleftrightarrow> pp_PDRID ` X \<inter> pp_PDRID ` Y = {}"
    using image_Int [OF p, of "pp_PDRID ` X" "pp_PDRID ` Y"]
    by (metis image_empty image_image image_is_empty)
  show "(\<lambda>p. ucast (bp_BARID p) :: u32) ` U \<inter> (\<lambda>p. ucast (bp_BARID p)) ` V = {}
      \<longleftrightarrow> bp_BARID ` U \<inter> bp_BARID ` V = {}"
    using image_Int [OF b, of "bp_BARID ` U" "bp_BARID ` V"]
    by (metis image_empty image_image image_is_empty)
qed

text \<open>The rule a request must obey for one kind of rule, on the identifiers it creates, removes, updates.\<close>

definition ops_compatible :: "'i list \<Rightarrow> 'i list \<Rightarrow> 'i list \<Rightarrow> bool" where
  "ops_compatible cs rs us \<longleftrightarrow> distinct cs \<and> distinct rs \<and> set rs \<inter> set us = {}"

text \<open>The conflict check accepts exactly the requests without conflicting operations. A plan passes
  \<open>validateMutualExclusion\<close> if and only if, for each kind of rule, no identifier is created twice or
  removed twice, none is both removed and updated, and no URR is both removed and queried; every other
  plan is refused with the conflict error. The check compares 16-bit PDR and 8-bit BAR identifiers
  after widening them to 32 bits, which loses nothing.\<close>

theorem validateMutualExclusion_iff:
  "validateMutualExclusion plan =
     (if ops_compatible (map pp_PDRID (CreatePDRs plan)) (map pp_PDRID (RemovePDRs plan))
           (map pp_PDRID (UpdatePDRs plan))
        \<and> ops_compatible (map fp_FARID (CreateFARs plan)) (map fp_FARID (RemoveFARs plan))
           (map fp_FARID (UpdateFARs plan))
        \<and> ops_compatible (map qp_QERID (CreateQERs plan)) (map qp_QERID (RemoveQERs plan))
           (map qp_QERID (UpdateQERs plan))
        \<and> ops_compatible (map up_URRID (CreateURRs plan)) (map up_URRID (RemoveURRs plan))
           (map up_URRID (UpdateURRs plan))
        \<and> set (map up_URRID (RemoveURRs plan)) \<inter> set (map up_QueryURRID (QueryURRs plan)) = {}
        \<and> ops_compatible (map bp_BARID (CreateBARs plan)) (map bp_BARID (RemoveBARs plan))
           (map bp_BARID (UpdateBARs plan))
      then None else Some ErrMutualExclusionConflict)" (is "_ = (if ?ok then _ else _)")
proof -
  have "validateMutualExclusion plan = None \<longleftrightarrow> ?ok"
    by (simp add: validateMutualExclusion_def Let_def first_error_None checkDuplicates_None
        checkOverlap_None collectPDRIDs_def collectBARIDs_def ops_compatible_def ucast_ids conj_ac)
  moreover have "validateMutualExclusion plan \<in> {None, Some ErrMutualExclusionConflict}"
    unfolding validateMutualExclusion_def Let_def
    by (rule first_error_conflict) (use check_cases in simp)
  ultimately show ?thesis by auto
qed

section \<open>The server's invariant\<close>

definition rnodes_ok :: "('d, 'ie) PfcpServer \<Rightarrow> bool" where
  "rnodes_ok st \<longleftrightarrow> wf_gomap (rnodes st)
     \<and> (\<forall>i a. map_of (rnodes st) i = Some a \<longrightarrow> (\<exists>n. map_of (heap st) a = Some n \<and> rn_ID n = i))
     \<and> (\<forall>a. map_of (heap st) a \<noteq> None \<longrightarrow> a < new_addr st)"

definition server_inv :: "('d, 'ie) PfcpServer \<Rightarrow> bool" where
  "server_inv st \<longleftrightarrow> nodes_inv st \<and> trans_ok st \<and> rnodes_ok st"

lemma rnodes_ok_other [simp]:
  "rnodes_ok (st\<lparr>txTrans := t\<rparr>) = rnodes_ok st" "rnodes_ok (st\<lparr>rxTrans := r\<rparr>) = rnodes_ok st"
  "rnodes_ok (st\<lparr>txSeq := q\<rparr>) = rnodes_ok st" "rnodes_ok (st\<lparr>sent := x\<rparr>) = rnodes_ok st"
  "rnodes_ok (st\<lparr>lnode := l\<rparr>) = rnodes_ok st" "rnodes_ok (st\<lparr>dstate := d\<rparr>) = rnodes_ok st"
  by (simp_all add: rnodes_ok_def)

lemma trans_ok_other [simp]:
  "trans_ok (st\<lparr>rnodes := m\<rparr>) = trans_ok st" "trans_ok (st\<lparr>heap := h\<rparr>) = trans_ok st"
  "trans_ok (st\<lparr>new_addr := a\<rparr>) = trans_ok st" "trans_ok (st\<lparr>sent := x\<rparr>) = trans_ok st"
  "trans_ok (st\<lparr>lnode := l\<rparr>) = trans_ok st" "trans_ok (st\<lparr>dstate := d\<rparr>) = trans_ok st"
  by (simp_all add: trans_ok_def)

lemma rnodes_ok_node:
  assumes "rnodes_ok st" and "map_of (heap st) a = Some n" and "rn_ID n' = rn_ID n"
  shows "rnodes_ok (st\<lparr>heap := mput a n' (heap st)\<rparr>)"
  using assms unfolding rnodes_ok_def by (auto, metis option.inject)

lemma server_inv_sendRspTo: "server_inv st \<Longrightarrow> server_inv (snd (sendRspTo env m addr st))"
  using sendRspTo_frame [of env m addr st] trans_ok_sendRspTo [of st env m addr]
  by (auto simp: server_inv_def)

lemma server_inv_sendReqTo: "server_inv st \<Longrightarrow> server_inv (snd (sendReqTo env m addr st))"
  using sendReqTo_frame [of env m addr st] trans_ok_sendReqTo [of st env m addr]
  by (auto simp: server_inv_def)

lemma server_inv_dstate [simp]: "server_inv (st\<lparr>dstate := d\<rparr>) = server_inv st"
  by (simp add: server_inv_def)

lemma sendRspTo_keeps [simp]:
  "heap (snd (sendRspTo env m addr st)) = heap st" "lnode (snd (sendRspTo env m addr st)) = lnode st"
  "dstate (snd (sendRspTo env m addr st)) = dstate st" "rnodes (snd (sendRspTo env m addr st)) = rnodes st"
  "new_addr (snd (sendRspTo env m addr st)) = new_addr st" "txSeq (snd (sendRspTo env m addr st)) = txSeq st"
  "txTrans (snd (sendRspTo env m addr st)) = txTrans st"
  using sendRspTo_frame [of env m addr st] by auto

lemma sendReqTo_keeps [simp]:
  "heap (snd (sendReqTo env m addr st)) = heap st" "lnode (snd (sendReqTo env m addr st)) = lnode st"
  "dstate (snd (sendReqTo env m addr st)) = dstate st" "rnodes (snd (sendReqTo env m addr st)) = rnodes st"
  "new_addr (snd (sendReqTo env m addr st)) = new_addr st" "rxTrans (snd (sendReqTo env m addr st)) = rxTrans st"
  using sendReqTo_frame [of env m addr st] by auto

text \<open>What an answer adds to the log depends only on the receive transactions and the log.\<close>

lemma sendRspTo_local:
  assumes "rxTrans s = rxTrans t" and "sent s = sent t"
  shows "rxTrans (snd (sendRspTo env m addr s)) = rxTrans (snd (sendRspTo env m addr t))
    \<and> sent (snd (sendRspTo env m addr s)) = sent (snd (sendRspTo env m addr t))"
  using assms by (simp add: sendRspTo_def RxTransaction_send_def WriteTo_def split: option.splits)

section \<open>Nodes of the server\<close>

lemma server_NewSess:
  assumes inv: "server_inv st" and a: "map_of (heap st) a = Some n"
  obtains i st' where "RemoteNode_NewSess a r st = Some (empty_sess (Some a) i r BUFFQ_LEN, st')"
    "i = (if ln_free (lnode st) = [] then length (ln_sess (lnode st)) + 1 else last (ln_free (lnode st)))"
    "0 < i" "LocalNode_Sess i (lnode st) = None" "server_inv st'"
    "\<And>j. LocalNode_Sess j (lnode st') =
       (if j = i then Some (empty_sess (Some a) i r BUFFQ_LEN) else LocalNode_Sess j (lnode st))"
    "dstate st' = dstate st" "rxTrans st' = rxTrans st" "sent st' = sent st" "rnodes st' = rnodes st"
    "txTrans st' = txTrans st" "heap st' = mput a (n\<lparr>rn_sess := List.insert i (rn_sess n)\<rparr>) (heap st)"
proof -
  have nodes: "nodes_inv st" and ok: "table_ok (lnode st)" using inv by (simp_all add: server_inv_def nodes_inv_def)
  obtain i st' where s: "RemoteNode_NewSess a r st = Some (empty_sess (Some a) i r BUFFQ_LEN, st')"
    "0 < i" "LocalNode_Sess i (lnode st) = None" "nodes_inv st'"
    "\<forall>j. LocalNode_Sess j (lnode st') =
       (if j = i then Some (empty_sess (Some a) i r BUFFQ_LEN) else LocalNode_Sess j (lnode st))"
    "st' = st\<lparr>heap := mput a (n\<lparr>rn_sess := List.insert i (rn_sess n)\<rparr>) (heap st), lnode := lnode st'\<rparr>"
    using RemoteNode_NewSess_spec [OF nodes a, of r] by blast
  obtain i' ln where i': "LocalNode_NewSess r BUFFQ_LEN (lnode st) = Some (empty_sess None i' r BUFFQ_LEN, ln)"
    "i' = (if ln_free (lnode st) = [] then length (ln_sess (lnode st)) + 1 else last (ln_free (lnode st)))"
    using NewSess_spec [OF ok, of r BUFFQ_LEN] by blast
  have "LocalID (empty_sess (Some a) i r BUFFQ_LEN) = i'"
    using s(1) i'(1) a by (auto simp: RemoteNode_NewSess_def Let_def empty_sess_def)
  then have ii: "i = i'" by simp
  have f: "dstate st' = dstate st" "rxTrans st' = rxTrans st" "sent st' = sent st" "rnodes st' = rnodes st"
    "txTrans st' = txTrans st" "heap st' = mput a (n\<lparr>rn_sess := List.insert i (rn_sess n)\<rparr>) (heap st)"
    by (subst s(6), simp)+
  have "rnodes_ok st'" using inv rnodes_ok_node [OF _ a] by (subst s(6)) (simp add: server_inv_def)
  moreover have "trans_ok st'" using inv f by (simp add: server_inv_def trans_ok_def)
  ultimately have "server_inv st'" using s(4) by (simp add: server_inv_def)
  then show thesis using that [OF s(1) _ s(2,3)] ii i'(2) s(5) f by blast
qed

lemma server_DeleteSess:
  assumes inv: "server_inv st" and s: "LocalNode_Sess i (lnode st) = Some s" "s_rnode s = Some a"
  obtains us s' d' st' where "Close (e_drv env) (e_api env) s (dstate st) = (us, s', d')"
    "RemoteNode_DeleteSess (e_drv env) (e_api env) a i st = Some (Some (us, s'), st')"
    "server_inv st'" "dstate st' = d'"
    "\<And>j. LocalNode_Sess j (lnode st') = (if j = i then None else LocalNode_Sess j (lnode st))"
    "rxTrans st' = rxTrans st" "sent st' = sent st" "rnodes st' = rnodes st" "txTrans st' = txTrans st"
proof -
  have nodes: "nodes_inv st" using inv by (simp add: server_inv_def)
  obtain us s' d' where c: "Close (e_drv env) (e_api env) s (dstate st) = (us, s', d')"
    by (metis prod_cases3)
  obtain st1 n where d: "map_of (heap st) a = Some n"
    "RemoteNode_DeleteSess (e_drv env) (e_api env) a i st = Some (Some (us, s'), st1\<lparr>dstate := d'\<rparr>)"
    "nodes_inv st1"
    "\<And>j. LocalNode_Sess j (lnode st1) = (if j = i then None else LocalNode_Sess j (lnode st))"
    "st1 = st\<lparr>heap := mput a (n\<lparr>rn_sess := removeAll i (rn_sess n)\<rparr>) (heap st), lnode := lnode st1\<rparr>"
    using RemoteNode_DeleteSess_spec [OF nodes s, of "e_drv env" "e_api env"] c by auto
  have f: "rxTrans st1 = rxTrans st" "sent st1 = sent st" "rnodes st1 = rnodes st" "txTrans st1 = txTrans st"
    by (subst d(5), simp)+
  have "rnodes_ok st1" using inv rnodes_ok_node [OF _ d(1)] by (subst d(5)) (simp add: server_inv_def)
  moreover have "trans_ok st1" using inv f by (simp add: server_inv_def trans_ok_def)
  ultimately have "server_inv (st1\<lparr>dstate := d'\<rparr>)" using d(3) by (simp add: server_inv_def)
  then show thesis using that [OF c d(2)] d(4) f by simp
qed

lemma server_inv_put:
  assumes inv: "server_inv st" and t: "LocalNode_Sess i (lnode st) = Some t"
    and s: "s_rnode s = s_rnode t" "LocalID s = LocalID t" "sess_ok s"
  shows "server_inv (st\<lparr>lnode := put_sess s (lnode st)\<rparr>)
    \<and> (\<forall>j. LocalNode_Sess j (put_sess s (lnode st)) = (if j = i then Some s else LocalNode_Sess j (lnode st)))"
proof -
  have nodes: "nodes_inv st" and ok: "table_ok (lnode st)" using inv by (simp_all add: server_inv_def nodes_inv_def)
  have "LocalID t = i" using nodes t unfolding nodes_inv_def table_ok_def by blast
  then have i: "LocalID s = i" using s(2) by simp
  have "nodes_inv (st\<lparr>lnode := put_sess s (lnode st)\<rparr>)"
    using nodes_inv_put [OF nodes _ s(1,3)] t i by simp
  then show ?thesis using inv put_sess_spec [OF ok t i] by (simp add: server_inv_def)
qed

lemma server_sess_ok:
  assumes "server_inv st" and "LocalNode_Sess i (lnode st) = Some s"
  shows "sess_ok s" and "LocalID s = i" and "\<exists>a n. s_rnode s = Some a \<and> map_of (heap st) a = Some n"
proof -
  have nodes: "nodes_inv st" using assms(1) by (simp add: server_inv_def)
  then show "sess_ok s" and "LocalID s = i"
    using assms(2) unfolding nodes_inv_def table_ok_def by blast+
  obtain a where a: "s_rnode s = Some a" using nodes assms(2) unfolding nodes_inv_def by blast
  then have "owner st i = Some a" using assms(2) by (simp add: owner_def)
  then show "\<exists>a n. s_rnode s = Some a \<and> map_of (heap st) a = Some n"
    using nodes a unfolding nodes_inv_def by blast
qed

lemma sess_ok_hdr:
  "sess_hdr s = sess_hdr t \<Longrightarrow> sess_ok t \<Longrightarrow> urrs_ok s \<Longrightarrow>
    sess_ok s \<and> s_rnode s = s_rnode t \<and> LocalID s = LocalID t"
  using sess_open_hdr [of s t] by (simp add: sess_ok_def sess_hdr_def)

lemma sess_hdr_creates [simp]: "sess_hdr (apply_creates ap plan s) = sess_hdr s"
  by (simp add: apply_creates_def fold_same [where f = sess_hdr])

lemma urr_flags_created:
  "urr_flags (fold (ApplyCreateURR ap) us s) u = (if u \<in> up_URRID ` set us then Some False else urr_flags s u)"
  by (induction us arbitrary: s) auto

lemma urr_flags_creates:
  "urr_flags (apply_creates ap plan s) u =
     (if u \<in> up_URRID ` set (CreateURRs plan) then Some False else urr_flags s u)"
  by (simp add: apply_creates_def fold_same [where f = urr_flags] urr_flags_created)

lemma wf_creates: "wf_gomap (URRIDs s) \<Longrightarrow> wf_gomap (URRIDs (apply_creates ap plan s))"
  unfolding apply_creates_def
  by (rule fold_keeps [where P = "\<lambda>s. wf_gomap (URRIDs s)"])+ simp_all

lemma urrs_ok_creates: "urrs_ok s \<Longrightarrow> urrs_ok (apply_creates ap plan s)"
  by (simp add: urrs_ok_def wf_creates urr_flags_creates)

section \<open>Establishment, specified\<close>

text \<open>
  The decision on an establishment request, as a function of the request and the state: \<open>None\<close> when
  it is refused, otherwise the node, the remote SEID, the SEID that is given and the plan.
\<close>

definition next_seid :: "LocalNode \<Rightarrow> nat" where
  "next_seid n = (if ln_free n = [] then length (ln_sess n) + 1 else last (ln_free n))"

definition est_decision ::
  "('d, 'ie) UpfEnv \<Rightarrow> 'ie EstReq \<Rightarrow> ('d, 'ie) PfcpServer
    \<Rightarrow> cause + (nat \<times> nat \<times> 'ie ModificationPlan \<times> 'd)" where
  "est_decision env req st =
     (case Option.bind (er_NodeID req) (ie_NodeID (e_api env)) of
        None \<Rightarrow> Inl CauseMandatoryIEMissing
      | Some nid \<Rightarrow>
          (case map_of (rnodes st) nid of
             None \<Rightarrow> Inl CauseNoEstablishedPFCPAssociation
           | Some a \<Rightarrow>
               (case Option.bind (er_CPFSEID req) (ie_FSEID (e_api env)) of
                  None \<Rightarrow> Inl CauseMandatoryIEMissing
                | Some r \<Rightarrow>
                    (case est_validate (e_drv env)
                            (empty_sess (Some a) (next_seid (lnode st)) r BUFFQ_LEN) req of
                       Inl e \<Rightarrow> Inl (pfcpCauseFromError e)
                     | Inr plan \<Rightarrow>
                         (case ExecuteEstablishmentPlan (e_drv env) (dstate st) plan of
                            (None, d) \<Rightarrow> Inl CauseRuleCreationModificationFailure
                          | (Some _, d) \<Rightarrow> Inr (a, r, plan, d))))))"

definition same_sessions :: "('d, 'ie) PfcpServer \<Rightarrow> ('d, 'ie) PfcpServer \<Rightarrow> bool" where
  "same_sessions st st' \<longleftrightarrow> (\<forall>j. LocalNode_Sess j (lnode st') = LocalNode_Sess j (lnode st))"

definition answered ::
  "('d, 'ie) UpfEnv \<Rightarrow> 'ie message \<Rightarrow> string \<Rightarrow> ('d, 'ie) PfcpServer \<Rightarrow> ('d, 'ie) PfcpServer \<Rightarrow> bool" where
  "answered env m addr st st' \<longleftrightarrow>
     rxTrans st' = rxTrans (snd (sendRspTo env m addr st)) \<and> sent st' = sent (snd (sendRspTo env m addr st))"

lemma answered_refl [simp]: "answered env m addr st (snd (sendRspTo env m addr st))"
  by (simp add: answered_def)

lemma answered_later:
  "rxTrans s = rxTrans st \<Longrightarrow> sent s = sent st \<Longrightarrow> answered env m addr st (snd (sendRspTo env m addr s))"
  using sendRspTo_local [of s st env m addr] by (simp add: answered_def)

lemma est_fail_spec:
  assumes inv: "server_inv st" and s: "LocalNode_Sess i (lnode st) = Some s" "s_rnode s = Some a"
  obtains st' where "est_fail env seq addr a i c st = Some st'" "server_inv st'"
    "\<And>j. LocalNode_Sess j (lnode st') = (if j = i then None else LocalNode_Sess j (lnode st))"
    "answered env (SessionEstablishmentResponse seq 0 [R_Cause c]) addr st st'"
    "rnodes st' = rnodes st"
proof -
  let ?st = "sendSessEstFailRsp env seq addr c st"
  have inv1: "server_inv ?st" using inv by (simp add: sendSessEstFailRsp_def server_inv_sendRspTo)
  have l: "LocalNode_Sess i (lnode ?st) = Some s" using s(1) by (simp add: sendSessEstFailRsp_def)
  obtain us s' d' st' where c: "Close (e_drv env) (e_api env) s (dstate ?st) = (us, s', d')"
    and d: "RemoteNode_DeleteSess (e_drv env) (e_api env) a i ?st = Some (Some (us, s'), st')"
    "server_inv st'" "dstate st' = d'"
    "\<And>j. LocalNode_Sess j (lnode st') = (if j = i then None else LocalNode_Sess j (lnode ?st))"
    "rxTrans st' = rxTrans ?st" "sent st' = sent ?st" "rnodes st' = rnodes ?st" "txTrans st' = txTrans ?st"
    by (rule server_DeleteSess [OF inv1 l s(2), of env]) (rule that; assumption)
  show thesis
  proof (rule that [of st'])
    show "est_fail env seq addr a i c st = Some st'" using d(1) by (simp add: est_fail_def)
  qed (use d in \<open>simp_all add: sendSessEstFailRsp_def answered_def\<close>)
qed

lemma est_session_spec:
  assumes inv: "server_inv st" and a: "map_of (rnodes st) nid = Some a"
    and i_def: "i = next_seid (lnode st)" and s0_def: "s0 = empty_sess (Some a) i r BUFFQ_LEN"
  shows "\<exists>st'. est_session env seq req addr a r st = Some st' \<and> server_inv st'
    \<and> (case est_validate (e_drv env) s0 req of
         Inl e \<Rightarrow> same_sessions st st' \<and> answered env
           (SessionEstablishmentResponse seq 0 [R_Cause (pfcpCauseFromError e)]) addr st st'
       | Inr plan \<Rightarrow>
          (case ExecuteEstablishmentPlan (e_drv env) (dstate st) plan of
             (None, d) \<Rightarrow> same_sessions st st' \<and> answered env (SessionEstablishmentResponse seq 0
               [R_Cause CauseRuleCreationModificationFailure]) addr st st'
           | (Some _, d) \<Rightarrow>
               (\<forall>j. LocalNode_Sess j (lnode st') =
                 (if j = i then Some (apply_creates (e_api env) plan s0) else LocalNode_Sess j (lnode st)))
               \<and> LocalNode_Sess i (lnode st) = None \<and> dstate st' = d
               \<and> answered env (est_rsp env seq (CreatePDRs plan) (apply_creates (e_api env) plan s0)) addr st st'))"
proof -
  obtain n where n: "map_of (heap st) a = Some n" using inv a unfolding server_inv_def rnodes_ok_def by blast
  obtain i' st1 where raw: "RemoteNode_NewSess a r st = Some (empty_sess (Some a) i' r BUFFQ_LEN, st1)"
    "i' = (if ln_free (lnode st) = [] then length (ln_sess (lnode st)) + 1 else last (ln_free (lnode st)))"
    "0 < i'" "LocalNode_Sess i' (lnode st) = None" "server_inv st1"
    "\<And>j. LocalNode_Sess j (lnode st1) =
       (if j = i' then Some (empty_sess (Some a) i' r BUFFQ_LEN) else LocalNode_Sess j (lnode st))"
    "dstate st1 = dstate st" "rxTrans st1 = rxTrans st" "sent st1 = sent st" "rnodes st1 = rnodes st"
    "txTrans st1 = txTrans st" "heap st1 = mput a (n\<lparr>rn_sess := List.insert i' (rn_sess n)\<rparr>) (heap st)"
    by (rule server_NewSess [OF inv n, of r]) (rule that; assumption)
  have ii: "i' = i" using raw(2) by (simp add: i_def next_seid_def)
  have st1: "RemoteNode_NewSess a r st = Some (s0, st1)" "LocalNode_Sess i (lnode st) = None"
    "server_inv st1" "\<And>j. LocalNode_Sess j (lnode st1) = (if j = i then Some s0 else LocalNode_Sess j (lnode st))"
    "dstate st1 = dstate st" "rxTrans st1 = rxTrans st" "sent st1 = sent st"
    using raw unfolding ii s0_def by simp_all
  have s0: "LocalID s0 = i" "s_rnode s0 = Some a" by (simp_all add: s0_def empty_sess_def)
  have l1: "LocalNode_Sess i (lnode st1) = Some s0" using st1(4) by simp
  have fail: "\<exists>st'. est_fail env seq addr a i c (st1\<lparr>dstate := d\<rparr>) = Some st' \<and> server_inv st'
      \<and> same_sessions st st' \<and> answered env (SessionEstablishmentResponse seq 0 [R_Cause c]) addr st st'" for c d
  proof -
    have "server_inv (st1\<lparr>dstate := d\<rparr>)" "LocalNode_Sess i (lnode (st1\<lparr>dstate := d\<rparr>)) = Some s0"
      using st1(3) l1 by simp_all
    then obtain st' where st': "est_fail env seq addr a i c (st1\<lparr>dstate := d\<rparr>) = Some st'" "server_inv st'"
      "\<And>j. LocalNode_Sess j (lnode st') = (if j = i then None else LocalNode_Sess j (lnode (st1\<lparr>dstate := d\<rparr>)))"
      "answered env (SessionEstablishmentResponse seq 0 [R_Cause c]) addr (st1\<lparr>dstate := d\<rparr>) st'"
      by (rule est_fail_spec [OF _ _ s0(2), of "st1\<lparr>dstate := d\<rparr>" i env seq addr c])
        (rule that; assumption)
    moreover have "same_sessions st st'" using st'(3) st1(2,4) by (simp add: same_sessions_def)
    moreover have "answered env (SessionEstablishmentResponse seq 0 [R_Cause c]) addr st st'"
      using st'(4) sendRspTo_local [of "st1\<lparr>dstate := d\<rparr>" st] st1(6,7) by (simp add: answered_def)
    ultimately show ?thesis by blast
  qed
  show ?thesis
  proof (cases "est_validate (e_drv env) s0 req")
    case (Inl e)
    then show ?thesis using fail [of "pfcpCauseFromError e" "dstate st1"] st1(1) s0(1)
      by (simp add: est_session_def)
  next
    case (Inr plan)
    obtain x d where x: "ExecuteEstablishmentPlan (e_drv env) (dstate st) plan = (x, d)" by fastforce
    show ?thesis
    proof (cases x)
      case None
      then show ?thesis using fail [of CauseRuleCreationModificationFailure d] st1(1,5) s0(1) Inr x
        by (simp add: est_session_def)
    next
      case (Some u)
      let ?s = "apply_creates (e_api env) plan s0"
      let ?st2 = "st1\<lparr>dstate := d, lnode := put_sess ?s (lnode st1)\<rparr>"
      have ok_s: "sess_ok ?s \<and> s_rnode ?s = s_rnode s0 \<and> LocalID ?s = LocalID s0"
        by (rule sess_ok_hdr) (simp_all add: s0_def urrs_ok_creates sess_ok_empty [unfolded sess_ok_def])
      have put: "server_inv ?st2" "\<And>j. LocalNode_Sess j (lnode ?st2) =
          (if j = i then Some ?s else LocalNode_Sess j (lnode st1))"
        using server_inv_put [of "st1\<lparr>dstate := d\<rparr>" i s0 ?s] st1(3) l1 ok_s by simp_all
      let ?m = "est_rsp env seq (CreatePDRs plan) ?s"
      have "est_session env seq req addr a r st = Some (snd (sendRspTo env ?m addr ?st2))"
        using st1(1,5) Inr x Some by (simp add: est_session_def Let_def)
      moreover have "server_inv (snd (sendRspTo env ?m addr ?st2))"
        using put(1) by (rule server_inv_sendRspTo)
      moreover have "answered env ?m addr st (snd (sendRspTo env ?m addr ?st2))"
        using st1(6,7) by (intro answered_later) simp_all
      ultimately show ?thesis using put(2) st1(2,4) Inr x Some by simp
    qed
  qed
qed

text \<open>C1: Establishment is all or nothing. In every reachable state the handler returns (no panic) and
  keeps the server's invariant. When the request is refused, for any of the causes of \<open>est_decision\<close>,
  the session table is exactly as before and the answer carries that cause and SEID 0. When it is
  accepted, exactly one session is added, under a SEID that was not in use; it holds what the validated
  plan creates, the driver has executed that plan, and the answer is the acceptance with that SEID.\<close>

theorem establishment_correct:
  assumes "server_inv st"
  shows "\<exists>st'. handleSessionEstablishmentRequest env seq req addr st = Some st' \<and> server_inv st'
    \<and> (case est_decision env req st of
         Inl c \<Rightarrow> same_sessions st st'
           \<and> answered env (SessionEstablishmentResponse seq 0 [R_Cause c]) addr st st'
       | Inr (a, r, plan, d) \<Rightarrow>
           (let i = next_seid (lnode st);
                s = apply_creates (e_api env) plan (empty_sess (Some a) i r BUFFQ_LEN)
            in LocalNode_Sess i (lnode st) = None \<and> dstate st' = d
              \<and> (\<forall>j. LocalNode_Sess j (lnode st') =
                  (if j = i then Some s else LocalNode_Sess j (lnode st)))
              \<and> answered env (est_rsp env seq (CreatePDRs plan) s) addr st st'))"
proof -
  have refuse: "server_inv (sendSessEstFailRsp env seq addr c st)
      \<and> same_sessions st (sendSessEstFailRsp env seq addr c st)
      \<and> answered env (SessionEstablishmentResponse seq 0 [R_Cause c]) addr st
          (sendSessEstFailRsp env seq addr c st)" for c
    using assms by (simp add: sendSessEstFailRsp_def server_inv_sendRspTo same_sessions_def)
  show ?thesis
  proof (cases "Option.bind (er_NodeID req) (ie_NodeID (e_api env))")
    case None
    then show ?thesis using refuse
      by (simp add: handleSessionEstablishmentRequest_def est_decision_def)
  next
    case nid: (Some nid)
    show ?thesis
    proof (cases "map_of (rnodes st) nid")
      case None
      then show ?thesis using refuse nid
        by (simp add: handleSessionEstablishmentRequest_def est_decision_def)
    next
      case a: (Some a)
      show ?thesis
      proof (cases "Option.bind (er_CPFSEID req) (ie_FSEID (e_api env))")
        case None
        then show ?thesis using refuse nid a
          by (simp add: handleSessionEstablishmentRequest_def est_decision_def)
      next
        case (Some r)
        have h: "handleSessionEstablishmentRequest env seq req addr st = est_session env seq req addr a r st"
          using nid a Some by (simp add: handleSessionEstablishmentRequest_def)
        show ?thesis
          unfolding h
          using est_session_spec [OF assms a refl refl, where r = r and env = env and req = req and seq = seq
              and addr = addr] nid a Some
          by (elim exE, intro exI) (auto simp: est_decision_def Let_def split: sum.splits prod.splits option.splits)
      qed
    qed
  qed
qed

definition two_server :: "(u32 list, plain_ie) PfcpServer" where
  "two_server = \<lparr>heap = heap two_nodes, lnode = lnode two_nodes, dstate = [],
     rnodes = [(''smf1'', 0), (''smf2'', 1)], new_addr = 2, txTrans = [], rxTrans = [], txSeq = 1,
     sent = []\<rparr>"

lemma two_server_inv: "server_inv two_server"
proof -
  have "nodes_inv two_server"
    using two_nodes_inv by (simp add: nodes_inv_def owner_def two_server_def)
  moreover have "rnodes_ok two_server"
    by (auto simp: rnodes_ok_def two_server_def two_nodes_def split: if_splits)
  moreover have "trans_ok two_server" by (simp add: trans_ok_def two_server_def)
  ultimately show ?thesis by (simp add: server_inv_def)
qed

definition plain_est :: "plain_ie EstReq" where
  "plain_est = \<lparr>er_NodeID = Some (NodeIE ''smf1''), er_CPFSEID = Some (SeidIE 73),
     er_CreateFAR = [RuleIE 1 []], er_CreateQER = [], er_CreateURR = [RuleIE 5 []], er_CreateBAR = None,
     er_CreatePDR = [RuleIE 2 [5]]\<rparr>"

lemma plain_est_validates:
  "\<exists>plan. est_validate plain_driver (empty_sess (Some 0) 3 73 BUFFQ_LEN) plain_est = Inr plan
     \<and> map pp_PDRID (CreatePDRs plan) = [2]"
  by (simp add: est_validate_def validate_creates_def and_then_def plain_est_def opt_list_def
      ValidateCreateFAR_def ValidateCreateURR_def ValidateCreatePDR_def plain_defs
      NewModificationPlan_def add_CreateFAR_def add_CreateURR_def add_CreatePDR_def empty_sess_def)

lemma plain_est_accepted:
  "next_seid (lnode two_server) = 3
   \<and> (\<exists>plan. est_decision (plain_env 2) plain_est two_server = Inr (0, 73, plan, []))"
proof -
  have n: "next_seid (lnode two_server) = 3" by (simp add: next_seid_def two_server_def two_nodes_def)
  obtain plan where
    "est_validate plain_driver (empty_sess (Some 0) 3 73 BUFFQ_LEN) plain_est = Inr plan"
    using plain_est_validates by (elim exE conjE) (rule that)
  moreover have "Option.bind (er_NodeID plain_est) (ie_NodeID (e_api (plain_env 2))) = Some ''smf1''"
    "Option.bind (er_CPFSEID plain_est) (ie_FSEID (e_api (plain_env 2))) = Some 73"
    "map_of (rnodes two_server) ''smf1'' = Some 0" "e_drv (plain_env 2) = plain_driver"
    "ExecuteEstablishmentPlan plain_driver (dstate two_server) plan = (Some [], [])"
    by (simp_all add: plain_est_def plain_env_def plain_api_def two_server_def plain_driver_def)
  ultimately have "est_decision (plain_env 2) plain_est two_server = Inr (0, 73, plan, [])"
    by (simp add: est_decision_def n)
  then show ?thesis using n by blast
qed

theorem establishment_correct_witness:
  "server_inv two_server
   \<and> (\<exists>st'. handleSessionEstablishmentRequest (plain_env 2) 9 plain_est ''10.0.0.1:8805'' two_server = Some st'
        \<and> server_inv st' \<and> LocalNode_Sess 3 (lnode two_server) = None
        \<and> map_option RemoteID (LocalNode_Sess 3 (lnode st')) = Some 73
        \<and> LocalNode_Sess 2 (lnode st') = LocalNode_Sess 2 (lnode two_server))"
proof -
  obtain plan where d: "next_seid (lnode two_server) = 3"
    "est_decision (plain_env 2) plain_est two_server = Inr (0, 73, plan, [])"
    using plain_est_accepted by blast
  let ?s = "apply_creates (e_api (plain_env 2)) plan (empty_sess (Some 0) 3 73 BUFFQ_LEN)"
  have "sess_hdr ?s = sess_hdr (empty_sess (Some 0) 3 73 BUFFQ_LEN)" by (rule sess_hdr_creates)
  then have "RemoteID ?s = 73" by (simp add: sess_hdr_def empty_sess_def)
  then show ?thesis
    using establishment_correct [OF two_server_inv, of "plain_env 2" 9 plain_est "''10.0.0.1:8805''"]
      two_server_inv unfolding d Let_def by auto
qed

end
