(* ===== verification/Upf_Pfcp_Modify.thy ===== *)
theory Upf_Pfcp_Modify
  imports Upf_Pfcp_Session
begin

text \<open>
  What the modification and the deletion of a session do, over the handlers of \<open>Upf_Pfcp_Session\<close>:
  what a validated request refers to, that a refused request has no effect, which rules the session
  holds afterwards, and that a deletion takes exactly one session away.
\<close>

section \<open>What validation guarantees\<close>

text \<open>
  Every rule that the plan updates, removes or queries exists in the session or is created by the
  same request, and so do the URRs that a created PDR names.
\<close>

definition plan_refs_ok :: "Sess \<Rightarrow> 'ie ModificationPlan \<Rightarrow> bool" where
  "plan_refs_ok s m \<longleftrightarrow>
     (\<forall>p \<in> set (CreatePDRs m). set (pp_URRIDs p)
        \<subseteq> set (keys (URRIDs s)) \<union> up_URRID ` set (CreateURRs m))
   \<and> fp_FARID ` (set (UpdateFARs m) \<union> set (RemoveFARs m)) \<subseteq> far_ids s \<union> fp_FARID ` set (CreateFARs m)
   \<and> qp_QERID ` (set (UpdateQERs m) \<union> set (RemoveQERs m)) \<subseteq> qer_ids s \<union> qp_QERID ` set (CreateQERs m)
   \<and> up_URRID ` (set (UpdateURRs m) \<union> set (RemoveURRs m)) \<union> up_QueryURRID ` set (QueryURRs m)
        \<subseteq> set (keys (URRIDs s)) \<union> up_URRID ` set (CreateURRs m)
   \<and> bp_BARID ` (set (UpdateBARs m) \<union> set (RemoveBARs m)) \<subseteq> bar_ids s \<union> bp_BARID ` set (CreateBARs m)
   \<and> pp_PDRID ` (set (UpdatePDRs m) \<union> set (RemovePDRs m)) \<subseteq> pdr_ids s \<union> pp_PDRID ` set (CreatePDRs m)"

text \<open>A property of the plan that the validation keeps, whatever it returns.\<close>

definition keeps :: "('a \<Rightarrow> bool) \<Rightarrow> 'e + 'a \<Rightarrow> bool" where
  "keeps P x \<longleftrightarrow> (\<forall>m. x = Inr m \<longrightarrow> P m)"

lemma keeps_loop:
  assumes "P m" and "\<And>i p m. P m \<Longrightarrow> v i m = Inr p \<Longrightarrow> P (add p m)"
  shows "keeps P (validate_loop v add is m)"
  using assms(1)
proof (induction "is" arbitrary: m)
  case (Cons i js)
  then show ?case using assms(2) by (auto simp: keeps_def split: sum.splits)
qed (simp add: keeps_def)

lemma keeps_then: "keeps P x \<Longrightarrow> (\<And>m. P m \<Longrightarrow> keeps Q (f m)) \<Longrightarrow> keeps Q (and_then x f)"
  by (auto simp: keeps_def and_then_def split: sum.splits)

lemmas validate_defs = ValidateCreatePDR_def ValidateUpdatePDR_def ValidateRemovePDR_def
  ValidateCreateFAR_def ValidateUpdateFAR_def ValidateRemoveFAR_def ValidateCreateQER_def
  ValidateUpdateQER_def ValidateRemoveQER_def ValidateCreateURR_def ValidateUpdateURR_def
  ValidateRemoveURR_def ValidateQueryURR_def ValidateCreateBAR_def ValidateUpdateBAR_def
  ValidateRemoveBAR_def

text \<open>One step of each loop keeps \<open>plan_refs_ok\<close>.\<close>

lemma refs_create_step:
  assumes "plan_refs_ok s m"
  shows "plan_refs_ok s (add_CreateFAR f m)" "plan_refs_ok s (add_CreateQER q m)"
    "plan_refs_ok s (add_CreateURR u m)" "plan_refs_ok s (add_CreateBAR b m)"
    "ValidateCreatePDR dr s i m = Inr p \<Longrightarrow> plan_refs_ok s (add_CreatePDR p m)"
proof -
  show "plan_refs_ok s (add_CreatePDR p m)" if v: "ValidateCreatePDR dr s i m = Inr p"
  proof -
    have "set (pp_URRIDs p) \<subseteq> set (keys (URRIDs s)) \<union> up_URRID ` set (CreateURRs m)"
      using v by (auto simp: validate_defs list_ex_iff fst_image_iff split: option.splits if_splits)
    then show ?thesis using assms unfolding plan_refs_ok_def add_CreatePDR_def by auto
  qed
qed (use assms in \<open>auto simp: plan_refs_ok_def add_CreateFAR_def add_CreateQER_def add_CreateURR_def
      add_CreateBAR_def\<close>)

lemma refs_update_step:
  assumes "plan_refs_ok s m"
  shows "ValidateUpdateFAR dr s i m = Inr f \<Longrightarrow> plan_refs_ok s (m\<lparr>UpdateFARs := UpdateFARs m @ [f]\<rparr>)"
    "ValidateUpdateQER dr s i m = Inr q \<Longrightarrow> plan_refs_ok s (m\<lparr>UpdateQERs := UpdateQERs m @ [q]\<rparr>)"
    "ValidateUpdateURR dr s i m = Inr u \<Longrightarrow> plan_refs_ok s (m\<lparr>UpdateURRs := UpdateURRs m @ [u]\<rparr>)"
    "ValidateUpdateBAR dr s i m = Inr b \<Longrightarrow> plan_refs_ok s (m\<lparr>UpdateBARs := UpdateBARs m @ [b]\<rparr>)"
    "ValidateUpdatePDR dr s i m = Inr p \<Longrightarrow> plan_refs_ok s (m\<lparr>UpdatePDRs := UpdatePDRs m @ [p]\<rparr>)"
    "ValidateQueryURR dr s i m = Inr k \<Longrightarrow> plan_refs_ok s (m\<lparr>QueryURRs := QueryURRs m @ [k]\<rparr>)"
  using assms
  by (auto simp: plan_refs_ok_def validate_defs ids_defs fst_image_iff split: option.splits if_splits)

lemma refs_remove_step:
  assumes "plan_refs_ok s m"
  shows "ValidateRemoveFAR dr s i m = Inr f \<Longrightarrow> plan_refs_ok s (m\<lparr>RemoveFARs := RemoveFARs m @ [f]\<rparr>)"
    "ValidateRemoveQER dr s i m = Inr q \<Longrightarrow> plan_refs_ok s (m\<lparr>RemoveQERs := RemoveQERs m @ [q]\<rparr>)"
    "ValidateRemoveURR dr s i m = Inr u \<Longrightarrow> plan_refs_ok s (m\<lparr>RemoveURRs := RemoveURRs m @ [u]\<rparr>)"
    "ValidateRemoveBAR dr s i m = Inr b \<Longrightarrow> plan_refs_ok s (m\<lparr>RemoveBARs := RemoveBARs m @ [b]\<rparr>)"
    "ValidateRemovePDR dr s i m = Inr p \<Longrightarrow> plan_refs_ok s (m\<lparr>RemovePDRs := RemovePDRs m @ [p]\<rparr>)"
  using assms
  by (auto simp: plan_refs_ok_def validate_defs ids_defs fst_image_iff split: option.splits if_splits)

lemma validate_creates_refs:
  "plan_refs_ok s m \<Longrightarrow> keeps (plan_refs_ok s) (validate_creates dr s fs qs us b ps m)"
  unfolding validate_creates_def
  by (intro keeps_then keeps_loop; (assumption | rule refs_create_step, assumption+)?)

lemma validate_updates_refs:
  "plan_refs_ok s m \<Longrightarrow> keeps (plan_refs_ok s) (validate_updates dr s req m)"
  unfolding validate_updates_def
  by (intro keeps_then keeps_loop; (assumption | rule refs_update_step, assumption+)?)

lemma validate_removes_refs:
  "plan_refs_ok s m \<Longrightarrow> keeps (plan_refs_ok s) (validate_removes dr s req m)"
  unfolding validate_removes_def
  by (intro keeps_then keeps_loop; (assumption | rule refs_remove_step, assumption+)?)

lemma mod_validate_refs:
  assumes "mod_validate dr s req = Inr plan"
  shows "plan_refs_ok s plan \<and> validateMutualExclusion plan = None"
proof -
  have e: "plan_refs_ok s (NewModificationPlan (LocalID s))"
    by (simp add: plan_refs_ok_def NewModificationPlan_def)
  have "keeps (\<lambda>m. plan_refs_ok s m \<and> validateMutualExclusion m = None) (mod_validate dr s req)"
    unfolding mod_validate_def
    by (rule keeps_then, rule validate_creates_refs [OF e], rule keeps_then, erule validate_updates_refs,
        rule keeps_then, erule validate_removes_refs) (auto simp: keeps_def split: option.splits)
  then show ?thesis using assms by (simp add: keeps_def)
qed


definition plain_mod :: "plain_ie ModReq" where
  "plain_mod = \<lparr>mr_NodeID = None, mr_CreateFAR = [RuleIE 1 []], mr_CreateQER = [], mr_CreateURR = [RuleIE 5 []],
     mr_CreateBAR = None, mr_CreatePDR = [RuleIE 2 [5]], mr_UpdateFAR = [RuleIE 1 []], mr_UpdateQER = [],
     mr_UpdateURR = [], mr_UpdateBAR = None, mr_UpdatePDR = [], mr_QueryURR = [RuleIE 5 []],
     mr_RemoveFAR = [], mr_RemoveQER = [], mr_RemoveURR = [], mr_RemoveBAR = None, mr_RemovePDR = []\<rparr>"

lemma plain_mod_validates:
  "\<exists>plan. mod_validate plain_driver (empty_sess (Some 0) 1 71 512) plain_mod = Inr plan
     \<and> map pp_PDRID (CreatePDRs plan) = [2] \<and> map fp_FARID (CreateFARs plan) = [1]
     \<and> map up_URRID (CreateURRs plan) = [5] \<and> RemovePDRs plan = []"
  by (simp add: mod_validate_def validate_creates_def validate_updates_def validate_removes_def
      and_then_def plain_mod_def opt_list_def validate_defs plain_defs NewModificationPlan_def
      add_CreateFAR_def add_CreateURR_def add_CreatePDR_def empty_sess_def
      validateMutualExclusion_def collectPDRIDs_def collectBARIDs_def)


section \<open>The session after a modification\<close>

lemma Close_RemoteID: "Close drv api s d = (us, s', d') \<Longrightarrow> RemoteID s' = RemoteID s"
proof -
  assume "Close drv api s d = (us, s', d')"
  then obtain t q ks where "s' = t\<lparr>s_q := q\<rparr>" "sess_hdr t = sess_hdr (fold drain_q ks s)"
    by (auto simp: Close_def Let_def case_prod_beta ApplyRemovePDRs_same [where f = sess_hdr]
        fold_same [where f = sess_hdr])
  then show ?thesis by (simp add: sess_hdr_def)
qed

lemma del_reports_RemoteID: "RemoteID (snd (del_reports us s)) = RemoteID s"
  by (induction us arbitrary: s) (simp_all add: Let_def case_prod_beta URRSeq_def split: option.splits)

lemma hdr_removes [simp]: "sess_hdr (apply_removes plan s) = sess_hdr s"
  by (simp add: apply_removes_def fold_same [where f = sess_hdr])

lemma hdr_mod_apply [simp]: "sess_hdr (fst (snd (mod_apply dr ap plan x s d))) = sess_hdr s"
  by (simp add: mod_apply_def Let_def case_prod_beta fold_same [where f = sess_hdr]
      ApplyUpdatePDRs_same [where f = sess_hdr] ApplyRemovePDRs_same [where f = sess_hdr])

lemma mod_reports_same:
  "(\<And>u s. f (snd (URRSeq u s)) = f s) \<Longrightarrow> f (snd (mod_reports rs s)) = f s"
  by (induction rs arbitrary: s) (simp_all add: case_prod_beta Let_def split: option.splits)

lemma wf_mod_reports: "wf_gomap (URRIDs s) \<Longrightarrow> wf_gomap (URRIDs (snd (mod_reports rs s)))"
  by (induction rs arbitrary: s) (simp_all add: case_prod_beta Let_def split: option.splits)

lemma wf_pdr_loops:
  "wf_gomap (URRIDs s) \<Longrightarrow> wf_gomap (URRIDs (fst (snd (ApplyUpdatePDRs dr ps s d))))"
  "wf_gomap (URRIDs s) \<Longrightarrow> wf_gomap (URRIDs (fst (snd (ApplyRemovePDRs dr ps s d))))"
proof -
  show "wf_gomap (URRIDs s) \<Longrightarrow> wf_gomap (URRIDs (fst (snd (ApplyUpdatePDRs dr ps s d))))"
    by (induction ps arbitrary: s d) (simp_all add: case_prod_beta Let_def)
  show "wf_gomap (URRIDs s) \<Longrightarrow> wf_gomap (URRIDs (fst (snd (ApplyRemovePDRs dr ps s d))))"
    by (induction ps arbitrary: s d) (simp_all add: case_prod_beta Let_def)
qed

lemma wf_fold_steps:
  "wf_gomap (URRIDs s) \<Longrightarrow> wf_gomap (URRIDs (fold (ApplyUpdateURR ap) us s))"
  "wf_gomap (URRIDs s) \<Longrightarrow> wf_gomap (URRIDs (fold ApplyRemoveFAR fs s))"
  "wf_gomap (URRIDs s) \<Longrightarrow> wf_gomap (URRIDs (fold ApplyRemoveQER qs s))"
  "wf_gomap (URRIDs s) \<Longrightarrow> wf_gomap (URRIDs (fold ApplyRemoveURR us s))"
  "wf_gomap (URRIDs s) \<Longrightarrow> wf_gomap (URRIDs (fold ApplyRemoveBAR bs s))"
  by (erule fold_keeps [where P = "\<lambda>s. wf_gomap (URRIDs s)"], simp)+

lemma wf_mod_apply:
  "wf_gomap (URRIDs s) \<Longrightarrow> wf_gomap (URRIDs (fst (snd (mod_apply dr ap plan x s d))))"
  by (simp add: mod_apply_def Let_def case_prod_beta apply_removes_def wf_fold_steps wf_pdr_loops wf_creates)

lemma urr_flags_removes:
  "urr_flags (fold ApplyRemoveURR us s) u =
     (if u \<in> up_URRID ` set us \<and> urr_flags s u \<noteq> None then Some True else urr_flags s u)"
  by (induction us arbitrary: s) auto

lemma urr_flags_mod:
  "urr_flags (fst (snd (mod_apply dr ap plan x s d))) u =
     (let f = (if u \<in> up_URRID ` set (CreateURRs plan) then Some False else urr_flags s u)
      in if u \<in> up_URRID ` set (RemoveURRs plan) \<and> f \<noteq> None then Some True else f)"
  by (simp add: mod_apply_def Let_def case_prod_beta apply_removes_def fold_same [where f = urr_flags]
      urr_flags_removes urr_flags_creates ApplyUpdatePDRs_same [where f = urr_flags]
      ApplyRemovePDRs_same [where f = urr_flags])

lemma ids_creates:
  "far_ids (apply_creates ap plan s) = far_ids s \<union> fp_FARID ` set (CreateFARs plan)"
  "qer_ids (apply_creates ap plan s) = qer_ids s \<union> qp_QERID ` set (CreateQERs plan)"
  "bar_ids (apply_creates ap plan s) = bar_ids s \<union> bp_BARID ` set (CreateBARs plan)"
  "pdr_ids (apply_creates ap plan s) = pdr_ids s \<union> pp_PDRID ` set (CreatePDRs plan)"
  by (simp_all add: apply_creates_def fold_same [where f = far_ids] fold_same [where f = qer_ids]
      fold_same [where f = bar_ids] fold_same [where f = pdr_ids]
      fold_adds [where f = far_ids and h = fp_FARID] fold_adds [where f = qer_ids and h = qp_QERID]
      fold_adds [where f = bar_ids and h = bp_BARID] fold_adds [where f = pdr_ids and h = pp_PDRID])

lemma ids_removes:
  "far_ids (apply_removes plan s) = far_ids s - fp_FARID ` set (RemoveFARs plan)"
  "qer_ids (apply_removes plan s) = qer_ids s - qp_QERID ` set (RemoveQERs plan)"
  "bar_ids (apply_removes plan s) = bar_ids s - bp_BARID ` set (RemoveBARs plan)"
  "pdr_ids (apply_removes plan s) = pdr_ids s"
  by (simp_all add: apply_removes_def fold_same [where f = far_ids] fold_same [where f = qer_ids]
      fold_same [where f = bar_ids] fold_same [where f = pdr_ids]
      fold_dels [where f = far_ids and h = fp_FARID] fold_dels [where f = qer_ids and h = qp_QERID]
      fold_dels [where f = bar_ids and h = bp_BARID])

text \<open>The rules a session holds after the plan: what it had, with the created ones, less the removed.\<close>

definition rules_after :: "'ie ModificationPlan \<Rightarrow> Sess \<Rightarrow> Sess \<Rightarrow> bool" where
  "rules_after plan s s' \<longleftrightarrow>
     far_ids s' = far_ids s \<union> fp_FARID ` set (CreateFARs plan) - fp_FARID ` set (RemoveFARs plan)
   \<and> qer_ids s' = qer_ids s \<union> qp_QERID ` set (CreateQERs plan) - qp_QERID ` set (RemoveQERs plan)
   \<and> bar_ids s' = bar_ids s \<union> bp_BARID ` set (CreateBARs plan) - bp_BARID ` set (RemoveBARs plan)
   \<and> pdr_ids s' = pdr_ids s \<union> pp_PDRID ` set (CreatePDRs plan) - pp_PDRID ` set (RemovePDRs plan)
   \<and> dom (urr_flags s') = dom (urr_flags s) \<union> up_URRID ` set (CreateURRs plan)
        - up_URRID ` set (RemoveURRs plan)"

lemma ids_mod_apply:
  "far_ids (fst (snd (mod_apply dr ap plan x s d)))
     = far_ids s \<union> fp_FARID ` set (CreateFARs plan) - fp_FARID ` set (RemoveFARs plan)"
  "qer_ids (fst (snd (mod_apply dr ap plan x s d)))
     = qer_ids s \<union> qp_QERID ` set (CreateQERs plan) - qp_QERID ` set (RemoveQERs plan)"
  "bar_ids (fst (snd (mod_apply dr ap plan x s d)))
     = bar_ids s \<union> bp_BARID ` set (CreateBARs plan) - bp_BARID ` set (RemoveBARs plan)"
  "pdr_ids (fst (snd (mod_apply dr ap plan x s d)))
     = pdr_ids s \<union> pp_PDRID ` set (CreatePDRs plan) - pp_PDRID ` set (RemovePDRs plan)"
  by (simp_all add: mod_apply_def Let_def case_prod_beta ids_creates ids_removes pdr_ids_removes
      fold_same [where f = far_ids] fold_same [where f = qer_ids] fold_same [where f = bar_ids]
      fold_same [where f = pdr_ids] ApplyUpdatePDRs_same [where f = far_ids]
      ApplyUpdatePDRs_same [where f = qer_ids] ApplyUpdatePDRs_same [where f = bar_ids]
      ApplyUpdatePDRs_same [where f = pdr_ids] ApplyRemovePDRs_same [where f = far_ids]
      ApplyRemovePDRs_same [where f = qer_ids] ApplyRemovePDRs_same [where f = bar_ids])

lemma modified_session:
  assumes "sess_ok s"
    and s3_def: "s3 = CleanupRemovedURRs (snd (mod_reports us (fst (snd (mod_apply dr ap plan x s d)))))"
  shows "sess_ok s3 \<and> sess_hdr s3 = sess_hdr s \<and> rules_after plan s s3"
proof -
  let ?s1 = "fst (snd (mod_apply dr ap plan x s d))"
  let ?s2 = "snd (mod_reports us ?s1)"
  have ok: "wf_gomap (URRIDs s)" "\<And>u. urr_flags s u \<noteq> Some True"
    using assms(1) by (simp_all add: sess_ok_def urrs_ok_def)
  have wf: "wf_gomap (URRIDs ?s2)" using ok(1) by (intro wf_mod_reports wf_mod_apply)
  have hdr: "sess_hdr s3 = sess_hdr s" by (simp add: s3_def mod_reports_same [where f = sess_hdr])
  have "sess_ok s3"
    using sess_ok_hdr [OF hdr assms(1)] urrs_ok_cleanup [OF wf] by (simp add: s3_def)
  moreover have "urr_flags s3 u = (if urr_flags ?s1 u = Some False then Some False else None)" for u
    using urr_flags_cleanup [OF wf] by (simp add: s3_def mod_reports_same [where f = urr_flags])
  then have "dom (urr_flags s3) = dom (urr_flags s) \<union> up_URRID ` set (CreateURRs plan)
        - up_URRID ` set (RemoveURRs plan)"
    using ok(2) by (auto simp: urr_flags_mod Let_def dom_def split: if_splits)
  then have "rules_after plan s s3"
    by (simp add: rules_after_def s3_def ids_mod_apply mod_reports_same [where f = far_ids]
        mod_reports_same [where f = qer_ids] mod_reports_same [where f = bar_ids]
        mod_reports_same [where f = pdr_ids])
  ultimately show ?thesis using hdr by simp
qed

lemma rules_after_drain: "rules_after plan (fold drain_q ks s) t = rules_after plan s t"
proof -
  obtain q where "fold drain_q ks s = s\<lparr>s_q := q\<rparr>" using drain_frame [of ks s] by blast
  then show ?thesis by (simp add: rules_after_def ids_defs urr_flags_def dom_def)
qed

lemma server_UpdateNodeID:
  assumes inv: "server_inv st" and n: "map_of (heap st) a = Some n"
  shows "\<exists>st1. UpdateNodeID (Some a) i st = Some st1 \<and> server_inv st1 \<and> lnode st1 = lnode st
    \<and> dstate st1 = dstate st \<and> rxTrans st1 = rxTrans st \<and> sent st1 = sent st
    \<and> map_of (rnodes st1) i = Some a"
proof -
  let ?st = "st\<lparr>rnodes := mput i a (mdel (rn_ID n) (rnodes st)), heap := mput a (n\<lparr>rn_ID := i\<rparr>) (heap st)\<rparr>"
  have "nodes_inv ?st" using inv n unfolding server_inv_def nodes_inv_def
    by (auto simp: owner_def)
  moreover have "rnodes_ok ?st" using inv n unfolding server_inv_def rnodes_ok_def
    by auto (metis option.inject)
  moreover have "trans_ok ?st" using inv by (simp add: server_inv_def)
  ultimately have "server_inv ?st" by (simp add: server_inv_def)
  then show ?thesis using n by (simp add: UpdateNodeID_def)
qed

text \<open>What the handler owes its caller once the session is found and the Node ID is read.\<close>

definition mod_result ::
  "('d, 'ie) UpfEnv \<Rightarrow> u32 \<Rightarrow> nat \<Rightarrow> Sess \<Rightarrow> 'ie ModReq \<Rightarrow> string \<Rightarrow> ('d, 'ie) PfcpServer
    \<Rightarrow> ('d, 'ie) PfcpServer \<Rightarrow> bool" where
  "mod_result env seq i s req addr st st' \<longleftrightarrow>
     (case mod_validate (e_drv env) s req of
         Inl e \<Rightarrow> lnode st' = lnode st \<and> dstate st' = dstate st
           \<and> answered env (SessionModificationResponse seq (RemoteID s) [R_Cause (pfcpCauseFromError e)] [])
               addr st st'
       | Inr plan \<Rightarrow> \<exists>s' ies. rules_after plan s s'
           \<and> sess_hdr s' = sess_hdr (fold drain_q
               (fst (snd (ExecuteModificationPlan (e_drv env) (dstate st) plan (\<lambda>k. q_items k s)))) s)
           \<and> (\<forall>j. LocalNode_Sess j (lnode st') = (if j = i then Some s' else LocalNode_Sess j (lnode st)))
           \<and> answered env (SessionModificationResponse seq (RemoteID s) [R_Cause CauseRequestAccepted] ies)
               addr st st')"

lemma mod_session_spec:
  assumes inv: "server_inv st" and s: "LocalNode_Sess i (lnode st) = Some s"
    and st'_def: "st' = mod_session env seq s req addr st"
  shows "server_inv st'
    \<and> mod_result env seq i s req addr st st'"
proof (cases "mod_validate (e_drv env) s req")
  case (Inl e)
  then show ?thesis
    using inv by (simp add: st'_def mod_session_def mod_result_def sendSessModFailRsp_def server_inv_sendRspTo)
next
  case (Inr plan)
  obtain x ks d1 where x: "ExecuteModificationPlan (e_drv env) (dstate st) plan (\<lambda>k. q_items k s) = (x, ks, d1)"
    by (metis prod_cases3)
  let ?drained = "fold drain_q ks s"
  obtain us s1 d2 where a: "mod_apply (e_drv env) (e_api env) plan x ?drained d1 = (us, s1, d2)"
    by (metis prod_cases3)
  obtain ies s2 where r: "mod_reports us s1 = (ies, s2)" by fastforce
  let ?s = "CleanupRemovedURRs s2"
  let ?st = "st\<lparr>dstate := d2, lnode := put_sess ?s (lnode st)\<rparr>"
  let ?m = "SessionModificationResponse seq (RemoteID ?s) [R_Cause CauseRequestAccepted] ies"
  have st': "st' = snd (sendRspTo env ?m addr ?st)"
    using Inr x a r by (simp add: st'_def mod_session_def Let_def)
  have ok: "sess_ok ?s" "sess_hdr ?s = sess_hdr ?drained" "rules_after plan s ?s"
    using modified_session [OF drain_ok [OF server_sess_ok(1) [OF inv s], of ks], of ?s us
        "e_drv env" "e_api env" plan x d1]
      a r by (simp_all add: rules_after_drain)
  have h: "s_rnode ?s = s_rnode s" "LocalID ?s = LocalID s" "RemoteID ?s = RemoteID s"
    using ok(2) unfolding sess_hdr_def prod.inject drain_keeps by blast+
  have put: "server_inv ?st"
    "\<And>j. LocalNode_Sess j (lnode ?st) = (if j = i then Some ?s else LocalNode_Sess j (lnode st))"
    using server_inv_put [of "st\<lparr>dstate := d2\<rparr>" i s ?s] inv s h ok(1) by simp_all
  have "answered env (SessionModificationResponse seq (RemoteID s) [R_Cause CauseRequestAccepted] ies) addr st st'"
    unfolding st' h(3) by (rule answered_later) simp_all
  moreover have "server_inv st'" using put(1) unfolding st' by (rule server_inv_sendRspTo)
  moreover have "\<forall>j. LocalNode_Sess j (lnode st') = (if j = i then Some ?s else LocalNode_Sess j (lnode st))"
    using put(2) by (simp add: st')
  ultimately show ?thesis using Inr ok(2,3) x by (auto simp: mod_result_def)
qed

text \<open>C2: A modification changes one session, or none. In every reachable state the handler returns for an
  existing session and keeps the server's invariant. A request whose Node ID cannot be read is dropped
  without an answer. A request that fails validation is answered with the cause of its first error and
  changes neither a session nor the forwarder. A valid one leaves every other session alone, keeps the
  session's identifiers, node and packet queues (but for the queues the forwarder empties), and leaves it
  with exactly the rules it had, plus the created ones, less the removed ones, whatever the forwarder
  returned.\<close>

theorem modification_correct:
  assumes inv: "server_inv st" and s: "LocalNode_Sess i (lnode st) = Some s"
  shows "\<exists>st'. handleSessionModificationRequest env seq i req addr st = Some st' \<and> server_inv st'
    \<and> (if mr_NodeID req \<noteq> None \<and> Option.bind (mr_NodeID req) (ie_NodeID (e_api env)) = None then st' = st
       else mod_result env seq i s req addr st st')"
proof (cases "mr_NodeID req")
  case None
  then show ?thesis using mod_session_spec [OF inv s refl, of env seq req addr] s
    by (simp add: handleSessionModificationRequest_def)
next
  case node: (Some x)
  show ?thesis
  proof (cases "ie_NodeID (e_api env) x")
    case None
    then show ?thesis using inv s node by (simp add: handleSessionModificationRequest_def)
  next
    case (Some nid)
    obtain a n where a: "s_rnode s = Some a" "map_of (heap st) a = Some n"
      using server_sess_ok(3) [OF inv s] by blast
    obtain st1 where st1: "UpdateNodeID (Some a) nid st = Some st1" "server_inv st1" "lnode st1 = lnode st"
      "dstate st1 = dstate st" "rxTrans st1 = rxTrans st" "sent st1 = sent st"
      using server_UpdateNodeID [OF inv a(2)] by blast
    have "LocalNode_Sess i (lnode st1) = Some s" using s st1(3) by simp
    moreover have "answered env m addr st1 z = answered env m addr st z" for m z
      using sendRspTo_local [of st1 st env m addr] st1(5,6) by (simp add: answered_def)
    then have "mod_result env seq i s req addr st1 z = mod_result env seq i s req addr st z" for z
      unfolding mod_result_def st1(3,4) by (simp cong: sum.case_cong)
    ultimately show ?thesis
      using mod_session_spec [OF st1(2) _ refl, of i s env seq req addr] s node Some a(1) st1(1)
      by (simp add: handleSessionModificationRequest_def)
  qed
qed

theorem modification_correct_witness:
  "server_inv two_server
   \<and> (\<exists>st'. handleSessionModificationRequest (plain_env 2) 9 1 plain_mod ''10.0.0.1:8805'' two_server = Some st'
        \<and> server_inv st' \<and> map_option pdr_ids (LocalNode_Sess 1 (lnode st')) = Some {2})"
proof -
  have s: "LocalNode_Sess 1 (lnode two_server) = Some (empty_sess (Some 0) 1 71 512)"
    using two_nodes_Sess [of 1] by (simp add: two_server_def)
  obtain plan where plan: "mod_validate plain_driver (empty_sess (Some 0) 1 71 512) plain_mod = Inr plan"
    "map pp_PDRID (CreatePDRs plan) = [2]" "RemovePDRs plan = []"
    using plain_mod_validates by (elim exE conjE) (rule that)
  have p: "pp_PDRID ` set (CreatePDRs plan) = {2}" "pdr_ids (empty_sess (Some 0) 1 71 512) = {}"
    "e_drv (plain_env 2) = plain_driver" "mr_NodeID plain_mod = None"
    by (simp_all flip: set_map add: plan(2)) (simp_all add: pdr_ids_def empty_sess_def plain_env_def plain_mod_def)
  obtain st' where st': "handleSessionModificationRequest (plain_env 2) 9 1 plain_mod ''10.0.0.1:8805'' two_server
      = Some st'" "server_inv st'"
    "mod_result (plain_env 2) 9 1 (empty_sess (Some 0) 1 71 512) plain_mod ''10.0.0.1:8805'' two_server st'"
    using modification_correct [OF two_server_inv s, of "plain_env 2" 9 plain_mod "''10.0.0.1:8805''"] p(4)
    by auto
  have "map_option pdr_ids (LocalNode_Sess 1 (lnode st')) = Some {2}"
    using st'(3) plan(1,3) p(1,2) unfolding mod_result_def p(3) by (auto simp: rules_after_def)
  then show ?thesis using two_server_inv st'(1,2) by blast
qed

text \<open>C3: A deletion removes exactly the session it names. In every reachable state the handler returns and
  keeps the server's invariant. For an unknown SEID nothing changes and the answer says that the session
  context was not found. Otherwise the session is closed in the forwarder and gone from the table, every
  other session is as before, and the answer is an acceptance to the peer's SEID with the usage reports of
  the closed session.\<close>

theorem deletion_correct:
  assumes inv: "server_inv st"
  shows "\<exists>st'. handleSessionDeletionRequest env seq i addr st = Some st' \<and> server_inv st'
    \<and> (case LocalNode_Sess i (lnode st) of
         None \<Rightarrow> lnode st' = lnode st \<and> dstate st' = dstate st
           \<and> answered env (SessionDeletionResponse seq 0
               [R_Cause CauseSessionContextNotFound, R_ReportType 0 0 1 0] []) addr st st'
       | Some s \<Rightarrow>
           (\<forall>j. LocalNode_Sess j (lnode st') = (if j = i then None else LocalNode_Sess j (lnode st)))
           \<and> (case Close (e_drv env) (e_api env) s (dstate st) of (usars, s1, d1) \<Rightarrow> dstate st' = d1
               \<and> answered env (SessionDeletionResponse seq (RemoteID s)
                   [R_Cause CauseRequestAccepted] (fst (del_reports usars s1))) addr st st'))"
proof (cases "LocalNode_Sess i (lnode st)")
  case None
  then show ?thesis using inv by (simp add: handleSessionDeletionRequest_def server_inv_sendRspTo)
next
  case (Some s)
  obtain a where a: "s_rnode s = Some a" using server_sess_ok(3) [OF inv Some] by blast
  obtain us s' d' st1 where d: "Close (e_drv env) (e_api env) s (dstate st) = (us, s', d')"
    "RemoteNode_DeleteSess (e_drv env) (e_api env) a i st = Some (Some (us, s'), st1)"
    "server_inv st1" "dstate st1 = d'"
    "\<And>j. LocalNode_Sess j (lnode st1) = (if j = i then None else LocalNode_Sess j (lnode st))"
    "rxTrans st1 = rxTrans st" "sent st1 = sent st" "rnodes st1 = rnodes st" "txTrans st1 = txTrans st"
    by (rule server_DeleteSess [OF inv Some a, of env]) (rule that; assumption)
  have "RemoteID (snd (del_reports us s')) = RemoteID s"
    using Close_RemoteID [OF d(1)] del_reports_RemoteID by simp
  then show ?thesis
    using Some a d by (simp add: handleSessionDeletionRequest_def case_prod_beta Let_def server_inv_sendRspTo
        answered_later)
qed

theorem deletion_correct_witness:
  "server_inv two_server
   \<and> (\<exists>st'. handleSessionDeletionRequest (plain_env 2) 9 1 ''10.0.0.1:8805'' two_server = Some st'
        \<and> LocalNode_Sess 1 (lnode two_server) \<noteq> None \<and> LocalNode_Sess 1 (lnode st') = None
        \<and> LocalNode_Sess 2 (lnode st') = LocalNode_Sess 2 (lnode two_server))"
proof -
  have s: "LocalNode_Sess 1 (lnode two_server) = Some (empty_sess (Some 0) 1 71 512)"
    using two_nodes_Sess [of 1] by (simp add: two_server_def)
  show ?thesis
    using deletion_correct [OF two_server_inv, of "plain_env 2" 9 1 "''10.0.0.1:8805''"] two_server_inv s
    by auto
qed

end
