(* ===== verification/Upf_Pfcp_Server.thy ===== *)
theory Upf_Pfcp_Server
  imports Upf_Pfcp_Session
begin

unbundle bit_operations_syntax

text \<open>
  The PFCP server of the UPF: heartbeats and associations (\<open>heartbeat.go\<close>, \<open>association.go\<close>), the
  reports of the data plane (\<open>report.go\<close>), the dispatchers (\<open>dispacher.go\<close>) and the main loop with its
  receiver (\<open>pfcp.go\<close>), all under \<open>NFs/upf/internal/pfcp\<close>.

  One iteration of the main loop is \<open>server_step\<close> on one event: a session report from the data plane, a
  received packet, or the expiry of a transaction timer. Go's \<open>select\<close> takes the events of the three
  channels in any order; a run is any list of events. The outcome of a step is the next state, the
  end of the loop, or a panic, which ends the process (\<open>log.Fatalf\<close> in the deferred function).

  \<open>server_inv\<close> is the invariant of all reachable states.
\<close>

section \<open>Heartbeat and association\<close>

definition handleHeartbeatRequest ::
  "('d, 'ie) UpfEnv \<Rightarrow> u32 \<Rightarrow> string \<Rightarrow> ('d, 'ie) PfcpServer \<Rightarrow> ('d, 'ie) PfcpServer" where
  "handleHeartbeatRequest env seq addr st =
     snd (sendRspTo env (HeartbeatResponse seq [R_RecoveryTimeStamp (recoveryTime env)]) addr st)"

text \<open>\<open>new(RemoteNode)\<close> takes a fresh address.\<close>

definition NewNode :: "string \<Rightarrow> string \<Rightarrow> ('d, 'ie) PfcpServer \<Rightarrow> nat \<times> ('d, 'ie) PfcpServer" where
  "NewNode i addr st =
     (new_addr st,
      st\<lparr>heap := mput (new_addr st) (NewRemoteNode i addr) (heap st), new_addr := new_addr st + 1\<rparr>)"

definition setup_association ::
  "('d, 'ie) UpfEnv \<Rightarrow> u32 \<Rightarrow> string \<Rightarrow> string \<Rightarrow> ('d, 'ie) PfcpServer \<Rightarrow> ('d, 'ie) PfcpServer" where
  "setup_association env seq rnodeid addr st =
     (let (a, st1) = NewNode rnodeid addr st;
          st2 = st1\<lparr>rnodes := mput rnodeid a (rnodes st1)\<rparr>
      in snd (sendRspTo env (AssociationSetupResponse seq
           [newIeNodeID (nodeID env), R_Cause CauseRequestAccepted,
            R_RecoveryTimeStamp (recoveryTime env)]) addr st2))"

definition handleAssociationSetupRequest ::
  "('d, 'ie) UpfEnv \<Rightarrow> u32 \<Rightarrow> 'ie option \<Rightarrow> 'ie option \<Rightarrow> string \<Rightarrow> ('d, 'ie) PfcpServer
    \<Rightarrow> ('d, 'ie) PfcpServer option" where
  "handleAssociationSetupRequest env seq nid rts addr st =
     (case Option.bind nid (ie_NodeID (e_api env)) of
        None \<Rightarrow> Some st
      | Some rnodeid \<Rightarrow>
          if rnodeid = [] then Some st
          else
            (case Option.bind rts (ie_RecoveryTimeStamp (e_api env)) of
               None \<Rightarrow> Some st
             | Some _ \<Rightarrow>
                 (case map_of (rnodes st) rnodeid of
                    None \<Rightarrow> Some (setup_association env seq rnodeid addr st)
                  | Some a \<Rightarrow>
                      (case RemoteNode_Reset (e_drv env) (e_api env) a st of
                         None \<Rightarrow> None
                       | Some st1 \<Rightarrow>
                           Some (setup_association env seq rnodeid addr
                             (st1\<lparr>rnodes := mdel rnodeid (rnodes st1)\<rparr>))))))"

section \<open>Reports of the data plane\<close>

definition serveDLDReport ::
  "('d, 'ie) UpfEnv \<Rightarrow> string \<Rightarrow> nat \<Rightarrow> u16 \<Rightarrow> ('d, 'ie) PfcpServer \<Rightarrow> ('d, 'ie) PfcpServer" where
  "serveDLDReport env addr lSeid pdrid st =
     (case LocalNode_Sess lSeid (lnode st) of
        None \<Rightarrow> st
      | Some sess \<Rightarrow>
          snd (sendReqTo env (SessionReportRequest 0 (RemoteID sess)
            [R_ReportType 0 0 0 1, R_DownlinkDataReport pdrid] []) addr st))"

fun usa_reports :: "USAReport list \<Rightarrow> Sess \<Rightarrow> rpt_ie list list \<times> Sess" where
  "usa_reports [] s = ([], s)"
| "usa_reports (r # rs) s =
     (case map_of (URRIDs s) (ur_URRID r) of
        None \<Rightarrow> usa_reports rs s
      | Some info \<Rightarrow>
          let (q, s1) = URRSeq (ur_URRID r) s;
              (ies, s2) = usa_reports rs s1
          in (IEsWithinSessReportReq (r\<lparr>URSEQN := q\<rparr>) (ui_Method info) (ui_Info info) # ies, s2))"

definition serveUSAReport ::
  "('d, 'ie) UpfEnv \<Rightarrow> string \<Rightarrow> nat \<Rightarrow> USAReport list \<Rightarrow> ('d, 'ie) PfcpServer
    \<Rightarrow> ('d, 'ie) PfcpServer" where
  "serveUSAReport env addr lSeid usars st =
     (case LocalNode_Sess lSeid (lnode st) of
        None \<Rightarrow> st
      | Some sess \<Rightarrow>
          let (ies, sess') = usa_reports usars sess
          in snd (sendReqTo env (SessionReportRequest 0 (RemoteID sess) [R_ReportType 0 0 1 0] ies) addr
               (st\<lparr>lnode := put_sess sess' (lnode st)\<rparr>)))"

text \<open>The loop over the reports; \<open>usars\<close> are the usage reports collected so far.\<close>

fun serve_loop ::
  "('d, 'ie) UpfEnv \<Rightarrow> string \<Rightarrow> nat \<Rightarrow> Report list \<Rightarrow> USAReport list \<Rightarrow> ('d, 'ie) PfcpServer
    \<Rightarrow> ('d, 'ie) PfcpServer option" where
  "serve_loop env laddr seid [] usars st =
     Some (if usars \<noteq> [] then serveUSAReport env laddr seid usars st else st)"
| "serve_loop env laddr seid (DLD r # rs) usars st =
     (case LocalNode_Sess seid (lnode st) of
        None \<Rightarrow> None
      | Some sess \<Rightarrow>
          (case (if dl_Action r AND APPLY_ACT A_BUFF \<noteq> 0 \<and> BufPkt r \<noteq> []
                 then Push (dl_PDRID r) (BufPkt r) sess else Some sess) of
             None \<Rightarrow> None
           | Some sess' \<Rightarrow>
               let st1 = st\<lparr>lnode := put_sess sess' (lnode st)\<rparr>
               in if dl_Action r AND APPLY_ACT A_NOCP = 0 then Some st1
                  else serve_loop env laddr seid rs usars (serveDLDReport env laddr seid (dl_PDRID r) st1)))"
| "serve_loop env laddr seid (USA r # rs) usars st = serve_loop env laddr seid rs (usars @ [r]) st"
| "serve_loop env laddr seid (OtherReport n # rs) usars st = serve_loop env laddr seid rs usars st"

definition UpfPfcpDefaultPort :: nat where
  "UpfPfcpDefaultPort = 8805"

definition ServeReport ::
  "('d, 'ie) UpfEnv \<Rightarrow> SessReport \<Rightarrow> ('d, 'ie) PfcpServer \<Rightarrow> ('d, 'ie) PfcpServer option" where
  "ServeReport env sr st =
     (case LocalNode_Sess (sr_SEID sr) (lnode st) of
        None \<Rightarrow> Some st
      | Some sess \<Rightarrow>
          (case Option.bind (s_rnode sess) (map_of (heap st)) of
             None \<Rightarrow> None
           | Some n \<Rightarrow>
               (case ResolveUDPAddr env (rn_ID n @ '':'' @ itoa UpfPfcpDefaultPort) of
                  None \<Rightarrow> Some st
                | Some laddr \<Rightarrow> serve_loop env laddr (sr_SEID sr) (Reports sr) [] st)))"

definition PopBufPkt ::
  "nat \<Rightarrow> u16 \<Rightarrow> ('d, 'ie) PfcpServer \<Rightarrow> (bytes \<times> bool) \<times> ('d, 'ie) PfcpServer" where
  "PopBufPkt seid pdrid st =
     (case LocalNode_Sess seid (lnode st) of
        None \<Rightarrow> (([], False), st)
      | Some sess \<Rightarrow>
          let (r, sess') = Pop pdrid sess in (r, st\<lparr>lnode := put_sess sess' (lnode st)\<rparr>))"

section \<open>Responses\<close>

fun msg_SEID :: "'ie message \<Rightarrow> nat" where
  "msg_SEID (SessionModificationRequest _ i _) = i"
| "msg_SEID (SessionDeletionRequest _ i) = i"
| "msg_SEID (SessionReportRequest _ i _ _) = i"
| "msg_SEID (SessionEstablishmentResponse _ i _) = i"
| "msg_SEID (SessionModificationResponse _ i _ _) = i"
| "msg_SEID (SessionDeletionResponse _ i _ _) = i"
| "msg_SEID (SessionReportResponse _ i) = i"
| "msg_SEID _ = 0"

definition handleSessionReportResponse ::
  "('d, 'ie) UpfEnv \<Rightarrow> nat \<Rightarrow> string \<Rightarrow> 'ie message option \<Rightarrow> ('d, 'ie) PfcpServer
    \<Rightarrow> ('d, 'ie) PfcpServer option" where
  "handleSessionReportResponse env seid addr req st =
     (if seid = 0 then
        (case req of
           None \<Rightarrow> None
         | Some rq \<Rightarrow>
             (case LocalNode_RemoteSess (heap st) (msg_SEID rq) addr (lnode st) of
                None \<Rightarrow> None
              | Some None \<Rightarrow> Some st
              | Some (Some sess) \<Rightarrow>
                  (case s_rnode sess of
                     None \<Rightarrow> None
                   | Some a \<Rightarrow>
                       map_option snd (RemoteNode_DeleteSess (e_drv env) (e_api env) a (LocalID sess) st))))
      else Some st)"

section \<open>Dispatchers\<close>

text \<open>An unsupported request changes nothing; the source logs it.\<close>

definition reqDispacher ::
  "('d, 'ie) UpfEnv \<Rightarrow> 'ie message \<Rightarrow> string \<Rightarrow> ('d, 'ie) PfcpServer \<Rightarrow> ('d, 'ie) PfcpServer option" where
  "reqDispacher env msg addr st =
     (case msg of
        HeartbeatRequest seq \<Rightarrow> Some (handleHeartbeatRequest env seq addr st)
      | AssociationSetupRequest seq nid rts \<Rightarrow> handleAssociationSetupRequest env seq nid rts addr st
      | AssociationUpdateRequest seq \<Rightarrow> Some st
      | AssociationReleaseRequest seq \<Rightarrow> Some st
      | SessionEstablishmentRequest seq req \<Rightarrow> handleSessionEstablishmentRequest env seq req addr st
      | SessionModificationRequest seq i req \<Rightarrow> handleSessionModificationRequest env seq i req addr st
      | SessionDeletionRequest seq i \<Rightarrow> handleSessionDeletionRequest env seq i addr st
      | _ \<Rightarrow> Some st)"

definition rspDispacher ::
  "('d, 'ie) UpfEnv \<Rightarrow> 'ie message \<Rightarrow> string \<Rightarrow> 'ie message option \<Rightarrow> ('d, 'ie) PfcpServer
    \<Rightarrow> ('d, 'ie) PfcpServer option" where
  "rspDispacher env msg addr req st =
     (case msg of
        SessionReportResponse seq i \<Rightarrow> handleSessionReportResponse env i addr req st
      | _ \<Rightarrow> Some st)"

section \<open>The main loop\<close>

definition validatePfcpPacketLength :: "bytes \<Rightarrow> bool" where
  "validatePfcpPacketLength buf =
     (if length buf < 8 then False
      else
        let declaredLen = push_bit 8 (ucast (buf ! 2)) OR ucast (buf ! 3) :: u16;
            expectedTotalLen = unat declaredLen + 4
        in length buf = expectedTotalLen)"

datatype TransType = TX | RX

datatype event =
  SrEvent SessReport
| RcvEvent string bytes
| TrEvent TransType string

datatype 's outcome = Running 's | Stopped 's | Panicked

definition outcome_of :: "'s option \<Rightarrow> 's outcome" where
  "outcome_of x = (case x of None \<Rightarrow> Panicked | Some st \<Rightarrow> Running st)"

definition receive_request ::
  "('d, 'ie) UpfEnv \<Rightarrow> 'ie message \<Rightarrow> string \<Rightarrow> ('d, 'ie) PfcpServer \<Rightarrow> ('d, 'ie) PfcpServer option" where
  "receive_request env msg addr st =
     (let i = trID addr (Sequence msg);
          found = map_of (rxTrans st) i;
          rx = (case found of Some rx \<Rightarrow> rx | None \<Rightarrow> NewRxTransaction env addr (Sequence msg));
          st1 = (case found of Some _ \<Rightarrow> st | None \<Rightarrow> st\<lparr>rxTrans := mput i rx (rxTrans st)\<rparr>);
          ((needDispatch, ok), st2) = RxTransaction_recv env rx (found \<noteq> None) st1
      in if \<not> ok then Some st2
         else if \<not> needDispatch then Some st2
         else reqDispacher env msg addr st2)"

definition receive_response ::
  "('d, 'ie) UpfEnv \<Rightarrow> 'ie message \<Rightarrow> string \<Rightarrow> ('d, 'ie) PfcpServer \<Rightarrow> ('d, 'ie) PfcpServer option" where
  "receive_response env msg addr st =
     (case map_of (txTrans st) (trID addr (Sequence msg)) of
        None \<Rightarrow> Some st
      | Some tx \<Rightarrow>
          (case TxTransaction_recv tx st of
             None \<Rightarrow> None
           | Some (req, st1) \<Rightarrow> rspDispacher env msg addr req st1))"

definition receive_packet ::
  "('d, 'ie) UpfEnv \<Rightarrow> string \<Rightarrow> bytes \<Rightarrow> ('d, 'ie) PfcpServer \<Rightarrow> ('d, 'ie) PfcpServer outcome" where
  "receive_packet env addr buf st =
     (if length buf = 0 then Stopped (stopTrTimers st)
      else case e_parse env buf of
             None \<Rightarrow> Running st
           | Some msg \<Rightarrow>
               if \<not> validatePfcpPacketLength buf then Running st
               else if isRequest msg then outcome_of (receive_request env msg addr st)
               else if isResponse msg then outcome_of (receive_response env msg addr st)
               else Running st)"

definition transaction_timeout ::
  "('d, 'ie) UpfEnv \<Rightarrow> TransType \<Rightarrow> string \<Rightarrow> ('d, 'ie) PfcpServer \<Rightarrow> ('d, 'ie) PfcpServer" where
  "transaction_timeout env t i st =
     (case t of
        TX \<Rightarrow> (case map_of (txTrans st) i of
                None \<Rightarrow> st | Some tx \<Rightarrow> TxTransaction_handleTimeout env tx st)
      | RX \<Rightarrow> (case map_of (rxTrans st) i of
                None \<Rightarrow> st | Some rx \<Rightarrow> RxTransaction_handleTimeout rx st))"

definition server_step ::
  "('d, 'ie) UpfEnv \<Rightarrow> event \<Rightarrow> ('d, 'ie) PfcpServer \<Rightarrow> ('d, 'ie) PfcpServer outcome" where
  "server_step env ev st =
     (case ev of
        SrEvent sr \<Rightarrow> outcome_of (ServeReport env sr st)
      | RcvEvent addr buf \<Rightarrow> receive_packet env addr buf st
      | TrEvent t i \<Rightarrow> Running (transaction_timeout env t i st))"

fun server_run ::
  "('d, 'ie) UpfEnv \<Rightarrow> event list \<Rightarrow> ('d, 'ie) PfcpServer \<Rightarrow> ('d, 'ie) PfcpServer outcome" where
  "server_run env [] st = Running st"
| "server_run env (e # es) st =
     (case server_step env e st of Running st' \<Rightarrow> server_run env es st' | r \<Rightarrow> r)"

text \<open>
  The receiver goroutine: what it puts on the channel for one result of \<open>ReadFrom\<close>, an error
  (\<open>None\<close>) or a datagram and its sender. It stops after an error.
\<close>

definition MAX_PFCP_MSG_LEN :: nat where
  "MAX_PFCP_MSG_LEN = 65536"

definition receiver_event :: "(string \<times> bytes) option \<Rightarrow> event" where
  "receiver_event r =
     (case r of
        None \<Rightarrow> RcvEvent [] []
      | Some (addr, datagram) \<Rightarrow> RcvEvent addr (take MAX_PFCP_MSG_LEN datagram))"

definition NewPfcpServer :: "'d \<Rightarrow> ('d, 'ie) PfcpServer" where
  "NewPfcpServer d =
     \<lparr>heap = [], lnode = \<lparr>ln_sess = [], ln_free = []\<rparr>, dstate = d, rnodes = [], new_addr = 0,
      txTrans = [], rxTrans = [], txSeq = 0, sent = []\<rparr>"

end
