(* ===== verification/Upf_Pfcp_Inv.thy ===== *)
theory Upf_Pfcp_Inv
  imports Upf_Pfcp_Modify Upf_Pfcp_Server
begin

text \<open>
  The PFCP server as a transition system: the invariant \<open>server_inv\<close> holds in every state that
  \<open>main\<close> reaches from a new server, whatever the peers, the data plane, the forwarder and the timers
  do; the cases in which the loop panics; and the theorems about associations, retransmitted
  requests, reports and the ways to stop the server.
\<close>

section \<open>Handlers keep the invariant\<close>

definition keeps_inv :: "('d, 'ie) PfcpServer option \<Rightarrow> bool" where
  "keeps_inv r \<longleftrightarrow> (\<exists>st. r = Some st \<and> server_inv st)"

lemma keeps_inv_Some [simp]: "keeps_inv (Some st) = server_inv st"
  by (simp add: keeps_inv_def)

lemma establishment_inv:
  assumes "server_inv st"
  shows "keeps_inv (handleSessionEstablishmentRequest env seq req addr st)"
proof -
  have "keeps_inv (est_session env seq req addr a r st)" if "map_of (rnodes st) nid = Some a" for nid a r
    using est_session_spec [OF assms that refl refl, of env seq req addr r] by (auto simp: keeps_inv_def)
  then show ?thesis using assms
    by (auto simp: handleSessionEstablishmentRequest_def sendSessEstFailRsp_def server_inv_sendRspTo
        split: option.splits)
qed

lemma modification_inv:
  assumes inv: "server_inv st"
  shows "keeps_inv (handleSessionModificationRequest env seq i req addr st)"
proof (cases "LocalNode_Sess i (lnode st)")
  case None
  then show ?thesis using inv by (simp add: handleSessionModificationRequest_def server_inv_sendRspTo)
next
  case (Some s)
  have m: "server_inv (mod_session env seq s req addr st)"
    using mod_session_spec [OF inv Some refl, of env seq req addr] by simp
  have "keeps_inv (map_option (mod_session env seq s req addr) (UpdateNodeID (s_rnode s) nid st))" for nid
  proof -
    obtain a n where a: "s_rnode s = Some a" "map_of (heap st) a = Some n"
      using server_sess_ok(3) [OF inv Some] by blast
    obtain st1 where "UpdateNodeID (Some a) nid st = Some st1" "server_inv st1" "lnode st1 = lnode st"
      using server_UpdateNodeID [OF inv a(2)] by blast
    then show ?thesis using mod_session_spec [of st1 i s _ env seq req addr, OF _ _ refl] Some a(1) by simp
  qed
  then show ?thesis using inv m Some
    by (auto simp: handleSessionModificationRequest_def split: option.splits)
qed

lemma deletion_inv:
  assumes inv: "server_inv st"
  shows "keeps_inv (handleSessionDeletionRequest env seq i addr st)"
proof (cases "LocalNode_Sess i (lnode st)")
  case None
  then show ?thesis using inv by (simp add: handleSessionDeletionRequest_def server_inv_sendRspTo)
next
  case (Some s)
  obtain a where a: "s_rnode s = Some a" using server_sess_ok(3) [OF inv Some] by blast
  obtain us s' st1 where "RemoteNode_DeleteSess (e_drv env) (e_api env) a i st = Some (Some (us, s'), st1)"
    "server_inv st1"
    by (rule server_DeleteSess [OF inv Some a, of env]) (rule that; assumption)
  then show ?thesis using Some a
    by (simp add: handleSessionDeletionRequest_def case_prod_beta Let_def server_inv_sendRspTo)
qed

lemma server_inv_heartbeat: "server_inv st \<Longrightarrow> server_inv (handleHeartbeatRequest env seq addr st)"
  by (simp add: handleHeartbeatRequest_def server_inv_sendRspTo)

section \<open>Associations\<close>

lemma server_Reset:
  assumes inv: "server_inv st" and a: "map_of (rnodes st) i = Some a"
  shows "\<exists>st1. RemoteNode_Reset (e_drv env) (e_api env) a st = Some st1 \<and> server_inv st1
    \<and> (\<forall>j. LocalNode_Sess j (lnode st1) = (if owner st j = Some a then None else LocalNode_Sess j (lnode st)))
    \<and> rnodes st1 = rnodes st \<and> rxTrans st1 = rxTrans st \<and> sent st1 = sent st \<and> txTrans st1 = txTrans st
    \<and> new_addr st1 = new_addr st"
proof -
  obtain n where n: "map_of (heap st) a = Some n" using inv a unfolding server_inv_def rnodes_ok_def by blast
  have nodes: "nodes_inv st" using inv by (simp add: server_inv_def)
  obtain st1 where st1: "RemoteNode_Reset (e_drv env) (e_api env) a st = Some st1" "nodes_inv st1"
    "\<forall>j. LocalNode_Sess j (lnode st1) = (if owner st j = Some a then None else LocalNode_Sess j (lnode st))"
    "map_of (heap st1) = (map_of (heap st))(a \<mapsto> n\<lparr>rn_sess := []\<rparr>)" "Nodes.more st1 = Nodes.more st"
    using RemoteNode_Reset_spec [OF nodes n, of "e_drv env" "e_api env"] by blast
  have f: "rnodes st1 = rnodes st" "rxTrans st1 = rxTrans st" "sent st1 = sent st" "txTrans st1 = txTrans st"
    "new_addr st1 = new_addr st"
    using st1(5) by (cases st, cases st1, simp)+
  have "rnodes_ok st1" using inv n f st1(4) unfolding server_inv_def rnodes_ok_def
    by (auto split: if_splits) (metis option.inject)
  moreover have "trans_ok st1" using inv f by (simp add: server_inv_def trans_ok_def)
  ultimately show ?thesis using st1 f by (simp add: server_inv_def)
qed

lemma server_setup:
  assumes inv: "server_inv st"
  shows "server_inv (setup_association env seq nid addr st)
    \<and> lnode (setup_association env seq nid addr st) = lnode st
    \<and> map_of (rnodes (setup_association env seq nid addr st)) = (map_of (rnodes st))(nid \<mapsto> new_addr st)
    \<and> answered env (AssociationSetupResponse seq [newIeNodeID (nodeID env), R_Cause CauseRequestAccepted,
        R_RecoveryTimeStamp (recoveryTime env)]) addr st (setup_association env seq nid addr st)"
proof -
  let ?st = "st\<lparr>heap := mput (new_addr st) (NewRemoteNode nid addr) (heap st), new_addr := new_addr st + 1,
    rnodes := mput nid (new_addr st) (rnodes st)\<rparr>"
  let ?m = "AssociationSetupResponse seq [newIeNodeID (nodeID env), R_Cause CauseRequestAccepted,
        R_RecoveryTimeStamp (recoveryTime env)]"
  have fresh: "map_of (heap st) (new_addr st) = None"
    using inv unfolding server_inv_def rnodes_ok_def by blast
  have o: "owner ?st = owner st" by (simp add: owner_def fun_eq_iff)
  have no: "owner st i \<noteq> Some (new_addr st)" for i
    using inv fresh unfolding server_inv_def nodes_inv_def by blast
  then have "nodes_inv ?st"
    using inv unfolding server_inv_def nodes_inv_def o by (auto simp: NewRemoteNode_def)
  moreover have "rnodes_ok ?st"
    using inv fresh unfolding server_inv_def rnodes_ok_def
    by (auto simp: NewRemoteNode_def less_Suc_eq)
  moreover have "trans_ok ?st" using inv by (simp add: server_inv_def)
  ultimately have "server_inv ?st" by (simp add: server_inv_def)
  moreover have "setup_association env seq nid addr st = snd (sendRspTo env ?m addr ?st)"
    by (simp add: setup_association_def NewNode_def)
  ultimately show ?thesis by (simp add: server_inv_sendRspTo answered_later)
qed


text \<open>What an association setup owes its caller: which requests are dropped, and what the others do.\<close>

definition assoc_result ::
  "('d, 'ie) UpfEnv \<Rightarrow> u32 \<Rightarrow> 'ie option \<Rightarrow> 'ie option \<Rightarrow> string \<Rightarrow> ('d, 'ie) PfcpServer
    \<Rightarrow> ('d, 'ie) PfcpServer \<Rightarrow> bool" where
  "assoc_result env seq nid rts addr st st' \<longleftrightarrow>
     (case Option.bind nid (ie_NodeID (e_api env)) of
        None \<Rightarrow> st' = st
      | Some i \<Rightarrow>
          if i = [] \<or> Option.bind rts (ie_RecoveryTimeStamp (e_api env)) = None then st' = st
          else map_of (rnodes st') = (map_of (rnodes st))(i \<mapsto> new_addr st)
            \<and> (\<forall>j. owner st' j \<noteq> Some (new_addr st))
            \<and> (\<forall>j. LocalNode_Sess j (lnode st') =
                (if owner st j \<noteq> None \<and> owner st j = map_of (rnodes st) i then None
                 else LocalNode_Sess j (lnode st)))
            \<and> answered env (AssociationSetupResponse seq [newIeNodeID (nodeID env),
                R_Cause CauseRequestAccepted, R_RecoveryTimeStamp (recoveryTime env)]) addr st st')"

lemma association_spec:
  assumes inv: "server_inv st"
  shows "\<exists>st'. handleAssociationSetupRequest env seq nid rts addr st = Some st' \<and> server_inv st'
    \<and> assoc_result env seq nid rts addr st st'"
proof (cases "Option.bind nid (ie_NodeID (e_api env))")
  case None
  then show ?thesis using inv by (simp add: handleAssociationSetupRequest_def assoc_result_def)
next
  case i: (Some i)
  show ?thesis
  proof (cases "i = [] \<or> Option.bind rts (ie_RecoveryTimeStamp (e_api env)) = None")
    case True
    then show ?thesis using inv i by (auto simp: handleAssociationSetupRequest_def assoc_result_def)
  next
    case False
    have fresh: "owner st j \<noteq> Some (new_addr st)" for j
      using inv unfolding server_inv_def nodes_inv_def rnodes_ok_def by blast
    show ?thesis
    proof (cases "map_of (rnodes st) i")
      case None
      let ?st = "setup_association env seq i addr st"
      have h: "handleAssociationSetupRequest env seq nid rts addr st = Some ?st"
        using i False None by (auto simp: handleAssociationSetupRequest_def)
      moreover have "owner ?st j = owner st j" for j using server_setup [OF inv] by (simp add: owner_def)
      ultimately show ?thesis using i False None fresh server_setup [OF inv, of env seq i addr]
        by (intro exI [of _ ?st]) (auto simp: assoc_result_def)
    next
      case (Some a)
      obtain st1 where st1: "RemoteNode_Reset (e_drv env) (e_api env) a st = Some st1" "server_inv st1"
        "\<And>j. LocalNode_Sess j (lnode st1) = (if owner st j = Some a then None else LocalNode_Sess j (lnode st))"
        "rnodes st1 = rnodes st" "rxTrans st1 = rxTrans st" "sent st1 = sent st" "new_addr st1 = new_addr st"
        using server_Reset [OF inv Some, of env] by blast
      let ?st2 = "st1\<lparr>rnodes := mdel i (rnodes st1)\<rparr>"
      let ?st = "setup_association env seq i addr ?st2"
      have inv2: "server_inv ?st2" using st1(2) by (auto simp: server_inv_def rnodes_ok_def)
      have h: "handleAssociationSetupRequest env seq nid rts addr st = Some ?st"
        using i False Some st1(1) by (auto simp: handleAssociationSetupRequest_def)
      have o: "owner ?st j \<noteq> Some (new_addr st)" for j
        using server_setup [OF inv2] st1(3) fresh [of j] by (simp add: owner_def)
      have "answered env m addr ?st2 z = answered env m addr st z" for m z
        using sendRspTo_local [of ?st2 st env m addr] st1(5,6) by (simp add: answered_def)
      then show ?thesis using i False Some h o st1(3,4,7) server_setup [OF inv2, of env seq i addr]
        by (intro exI [of _ ?st]) (auto simp: assoc_result_def)
    qed
  qed
qed

lemma association_inv: "server_inv st \<Longrightarrow> keeps_inv (handleAssociationSetupRequest env seq nid rts addr st)"
  using association_spec [of st env seq nid rts addr] by (auto simp: keeps_inv_def)


section \<open>Reports\<close>

lemma serveDLDReport_inv:
  "server_inv st \<Longrightarrow> server_inv (serveDLDReport env addr i k st) \<and> lnode (serveDLDReport env addr i k st) = lnode st"
  by (simp add: serveDLDReport_def server_inv_sendReqTo split: option.splits)

lemma usa_reports_keeps:
  "urrs_ok s \<Longrightarrow> urrs_ok (snd (usa_reports us s)) \<and> sess_hdr (snd (usa_reports us s)) = sess_hdr s"
  by (induction us arbitrary: s) (simp_all add: case_prod_beta Let_def split: option.splits)

lemma usa_reports_sess:
  "sess_ok s \<Longrightarrow> sess_ok (snd (usa_reports us s)) \<and> s_rnode (snd (usa_reports us s)) = s_rnode s
    \<and> LocalID (snd (usa_reports us s)) = LocalID s"
  using usa_reports_keeps [of s us] sess_ok_hdr [of "snd (usa_reports us s)" s] by (simp add: sess_ok_def)

lemma serveUSAReport_inv:
  assumes "server_inv st"
  shows "server_inv (serveUSAReport env addr i us st)"
proof (cases "LocalNode_Sess i (lnode st)")
  case None
  then show ?thesis using assms by (simp add: serveUSAReport_def)
next
  case (Some s)
  have "server_inv (st\<lparr>lnode := put_sess (snd (usa_reports us s)) (lnode st)\<rparr>)"
    using server_inv_put [OF assms Some] usa_reports_sess [OF server_sess_ok(1) [OF assms Some]] by blast
  then show ?thesis using Some
    by (simp add: serveUSAReport_def case_prod_beta Let_def server_inv_sendReqTo)
qed

lemma serve_push:
  assumes inv: "server_inv st" and s: "LocalNode_Sess i (lnode st) = Some s"
  shows "\<exists>s'. (if b then Push k p s else Some s) = Some s'
    \<and> server_inv (st\<lparr>lnode := put_sess s' (lnode st)\<rparr>)
    \<and> LocalNode_Sess i (put_sess s' (lnode st)) = Some s'"
proof -
  obtain s' where s': "(if b then Push k p s else Some s) = Some s'" "sess_ok s'" "s_rnode s' = s_rnode s"
    "LocalID s' = LocalID s"
    using Push_ok [OF server_sess_ok(1) [OF inv s], of k p] server_sess_ok(1) [OF inv s] by (cases b) auto
  then show ?thesis using server_inv_put [OF inv s s'(3,4,2)] by auto
qed

lemma serve_loop_inv:
  assumes "server_inv st" and "LocalNode_Sess i (lnode st) = Some s"
  shows "keeps_inv (serve_loop env laddr i rs us st)"
  using assms
proof (induction rs arbitrary: us st s)
  case Nil
  then show ?case by (simp add: serveUSAReport_inv)
next
  case (Cons r rs)
  show ?case
  proof (cases r)
    case (DLD d)
    obtain s' where s': "(if dl_Action d AND APPLY_ACT A_BUFF \<noteq> 0 \<and> BufPkt d \<noteq> []
          then Push (dl_PDRID d) (BufPkt d) s else Some s) = Some s'"
      "server_inv (st\<lparr>lnode := put_sess s' (lnode st)\<rparr>)" "LocalNode_Sess i (put_sess s' (lnode st)) = Some s'"
      using serve_push [OF Cons.prems] by blast
    let ?st = "serveDLDReport env laddr i (dl_PDRID d) (st\<lparr>lnode := put_sess s' (lnode st)\<rparr>)"
    have "keeps_inv (serve_loop env laddr i rs us ?st)"
      using Cons.IH serveDLDReport_inv [OF s'(2)] s'(3) by simp
    then show ?thesis using DLD Cons.prems(2) s'(1,2) by (simp add: Let_def)
  qed (use Cons in simp_all)
qed

lemma ServeReport_inv:
  assumes inv: "server_inv st"
  shows "keeps_inv (ServeReport env sr st)"
proof (cases "LocalNode_Sess (sr_SEID sr) (lnode st)")
  case None
  then show ?thesis using inv by (simp add: ServeReport_def)
next
  case (Some s)
  then obtain n where "Option.bind (s_rnode s) (map_of (heap st)) = Some n"
    using server_sess_ok(3) [OF inv Some] by auto
  then show ?thesis using Some inv serve_loop_inv [OF inv Some]
    by (simp add: ServeReport_def split: option.splits)
qed

section \<open>Transactions and timers\<close>

lemma trans_ok_put_rx: "trans_ok st \<Longrightarrow> rx_ok i rx \<Longrightarrow> trans_ok (st\<lparr>rxTrans := mput i rx (rxTrans st)\<rparr>)"
  by (simp add: trans_ok_def)

lemma timeout_inv:
  assumes "server_inv st"
  shows "server_inv (transaction_timeout env t i st)"
proof -
  have ok: "trans_ok st" "nodes_inv st" "rnodes_ok st" using assms by (simp_all add: server_inv_def)
  have rx: "trans_ok (RxTransaction_handleTimeout rx st)" for rx
    using ok(1) by (simp add: RxTransaction_handleTimeout_def trans_ok_def)
  have tx: "trans_ok (TxTransaction_handleTimeout env tx st)" if "map_of (txTrans st) i = Some tx" for tx
  proof (cases "retransCount tx < maxRetrans tx")
    case True
    have "tx_ok i tx" using ok(1) that by (simp add: trans_ok_def)
    then have "tx_ok i (tx\<lparr>retransCount := retransCount tx + 1, tx_timer := True\<rparr>)"
      using True inc_le by (auto simp: tx_ok_def)
    then show ?thesis using True ok(1) \<open>tx_ok i tx\<close>
      by (auto simp: TxTransaction_handleTimeout_def WriteTo_def trans_ok_def tx_ok_def)
  qed (use ok(1) in \<open>simp add: TxTransaction_handleTimeout_def trans_ok_def\<close>)
  show ?thesis
    using assms ok rx tx
    by (auto simp: transaction_timeout_def server_inv_def TxTransaction_handleTimeout_def WriteTo_def
        RxTransaction_handleTimeout_def split: TransType.splits option.splits)
qed


section \<open>Responses\<close>

lemma RemoteSess_Some:
  assumes "server_inv st" and "LocalNode_RemoteSess (heap st) r addr (lnode st) = Some (Some s)"
  shows "LocalNode_Sess (LocalID s) (lnode st) = Some s"
proof -
  have "RemoteSess_loop h r addr xs = Some (Some s) \<Longrightarrow> Some s \<in> set xs" for h xs
  proof (induction xs)
    case (Cons x xs)
    then show ?case by (cases x) (auto split: if_splits option.splits)
  qed simp
  then have "Some s \<in> set (ln_sess (lnode st))"
    using assms(2) by (simp add: LocalNode_RemoteSess_def)
  then obtain k where "k < length (ln_sess (lnode st))" "ln_sess (lnode st) ! k = Some s"
    by (metis in_set_conv_nth)
  then have k: "LocalNode_Sess (Suc k) (lnode st) = Some s" by (simp add: LocalNode_Sess_def)
  then show ?thesis using server_sess_ok(2) [OF assms(1) k] by simp
qed

text \<open>A report response with SEID 0 deletes the session of the peer; the other responses change nothing.\<close>

lemma report_response_inv:
  assumes inv: "server_inv st" and r: "handleSessionReportResponse env i addr req st = Some st'"
  shows "server_inv st'"
proof (cases "i = 0")
  case False
  then show ?thesis using inv r by (simp add: handleSessionReportResponse_def)
next
  case True
  then obtain rq where rq: "req = Some rq" using r by (auto simp: handleSessionReportResponse_def split: option.splits)
  consider "LocalNode_RemoteSess (heap st) (msg_SEID rq) addr (lnode st) = Some None" "st' = st"
    | s a where "LocalNode_RemoteSess (heap st) (msg_SEID rq) addr (lnode st) = Some (Some s)"
        "s_rnode s = Some a"
        "map_option snd (RemoteNode_DeleteSess (e_drv env) (e_api env) a (LocalID s) st) = Some st'"
    using r rq True by (auto simp: handleSessionReportResponse_def split: option.splits)
  then show ?thesis
  proof cases
    case 1
    then show ?thesis using inv by simp
  next
    case (2 s a)
    note l = RemoteSess_Some [OF inv 2(1)]
    obtain us s' st1 where "RemoteNode_DeleteSess (e_drv env) (e_api env) a (LocalID s) st = Some (Some (us, s'), st1)"
      "server_inv st1"
      by (rule server_DeleteSess [OF inv l 2(2), of env]) (rule that; assumption)
    then show ?thesis using 2(3) by simp
  qed
qed

lemma report_response_panics:
  assumes inv: "server_inv st" and r: "handleSessionReportResponse env i addr (Some rq) st = None"
  shows "i = 0 \<and> ln_free (lnode st) \<noteq> []"
proof (cases "i = 0 \<and> ln_free (lnode st) = []")
  case True
  have nodes: "nodes_inv st" using inv by (simp add: server_inv_def)
  obtain x where x: "LocalNode_RemoteSess (heap st) (msg_SEID rq) addr (lnode st) = Some x"
    using RemoteSess_spec [OF nodes] True by blast
  show ?thesis
  proof (cases x)
    case None
    then show ?thesis using r x True by (simp add: handleSessionReportResponse_def)
  next
    case (Some s)
    note l = RemoteSess_Some [OF inv x [unfolded Some]]
    obtain a where a: "s_rnode s = Some a" using server_sess_ok(3) [OF inv l] by blast
    obtain us s' st1 where "RemoteNode_DeleteSess (e_drv env) (e_api env) a (LocalID s) st = Some (Some (us, s'), st1)"
      by (rule server_DeleteSess [OF inv l a, of env]) (rule that; assumption)
    then show ?thesis using r x Some a True by (simp add: handleSessionReportResponse_def)
  qed
qed (use r in \<open>auto simp: handleSessionReportResponse_def split: if_splits\<close>)

section \<open>The main loop\<close>

lemma reqDispacher_inv: "server_inv st \<Longrightarrow> keeps_inv (reqDispacher env msg addr st)"
  by (cases msg) (simp_all add: reqDispacher_def server_inv_heartbeat association_inv establishment_inv
      modification_inv deletion_inv)

lemma receive_request_inv:
  assumes inv: "server_inv st"
  shows "keeps_inv (receive_request env msg addr st)"
proof (cases "map_of (rxTrans st) (trID addr (Sequence msg))")
  case None
  have "rx_ok (trID addr (Sequence msg)) (NewRxTransaction env addr (Sequence msg))"
    by (simp add: rx_ok_def NewRxTransaction_def)
  then have "server_inv (st\<lparr>rxTrans := mput (trID addr (Sequence msg))
      (NewRxTransaction env addr (Sequence msg)) (rxTrans st)\<rparr>)"
    using inv by (simp add: server_inv_def trans_ok_put_rx)
  then show ?thesis using None
    by (simp add: receive_request_def RxTransaction_recv_def reqDispacher_inv)
next
  case (Some rx)
  then show ?thesis using inv
    by (simp add: receive_request_def RxTransaction_recv_def WriteTo_def Let_def server_inv_def)
qed

lemma receive_response_inv:
  assumes inv: "server_inv st" and r: "receive_response env msg addr st = Some st'"
  shows "server_inv st'"
proof (cases "map_of (txTrans st) (trID addr (Sequence msg))")
  case None
  then show ?thesis using inv r by (simp add: receive_response_def)
next
  case (Some tx)
  have "trans_ok (st\<lparr>txTrans := mdel k (txTrans st)\<rparr>)" for k
    using inv by (simp add: server_inv_def trans_ok_def)
  then have "server_inv (st\<lparr>txTrans := mdel k (txTrans st)\<rparr>)" for k
    using inv by (simp add: server_inv_def)
  then show ?thesis using Some r
    by (auto simp: receive_response_def TxTransaction_recv_def rspDispacher_def
        split: if_splits message.splits intro: report_response_inv)
qed

lemma trans_ok_stop: "trans_ok st \<Longrightarrow> trans_ok (stopTrTimers st)"
  by (auto simp: trans_ok_def stopTrTimers_def map_of_map tx_ok_def rx_ok_def)

lemma stop_inv: "server_inv st \<Longrightarrow> server_inv (stopTrTimers st)"
  using trans_ok_stop [of st] by (simp add: server_inv_def stopTrTimers_def)

definition outcome_inv :: "('d, 'ie) PfcpServer outcome \<Rightarrow> bool" where
  "outcome_inv r \<longleftrightarrow> (case r of Running st \<Rightarrow> server_inv st | Stopped st \<Rightarrow> server_inv st | Panicked \<Rightarrow> True)"

lemma outcome_of_inv [simp]: "outcome_inv (outcome_of x) \<longleftrightarrow> (\<forall>st. x = Some st \<longrightarrow> server_inv st)"
  by (auto simp: outcome_inv_def outcome_of_def split: option.splits)

lemma server_step_inv:
  assumes inv: "server_inv st"
  shows "outcome_inv (server_step env ev st)"
proof (cases ev)
  case (SrEvent sr)
  then show ?thesis using ServeReport_inv [OF inv, of env sr] by (auto simp: server_step_def keeps_inv_def)
next
  case (TrEvent t i)
  then show ?thesis using timeout_inv [OF inv] by (simp add: server_step_def outcome_inv_def)
next
  case (RcvEvent addr buf)
  show ?thesis
  proof (cases "e_parse env buf")
    case None
    then show ?thesis using RcvEvent inv
      by (simp add: server_step_def receive_packet_def outcome_inv_def stop_inv)
  next
    case (Some msg)
    have "outcome_inv (outcome_of (receive_request env msg addr st))"
      using receive_request_inv [OF inv, of env msg addr] by (auto simp: keeps_inv_def)
    moreover have "outcome_inv (outcome_of (receive_response env msg addr st))"
      using receive_response_inv [OF inv] by auto
    moreover have "outcome_inv (Stopped (stopTrTimers st))" "outcome_inv (Running st)"
      using inv by (simp_all add: outcome_inv_def stop_inv)
    ultimately show ?thesis using RcvEvent Some by (simp add: server_step_def receive_packet_def)
  qed
qed

lemma new_server_inv: "server_inv (NewPfcpServer d)"
  using table_ok_empty
  by (simp add: NewPfcpServer_def server_inv_def nodes_inv_def rnodes_ok_def trans_ok_def owner_def
      LocalNode_Sess_def)

text \<open>The states the main loop reaches from a new server.\<close>

inductive reachable :: "('d, 'ie) UpfEnv \<Rightarrow> 'd \<Rightarrow> ('d, 'ie) PfcpServer \<Rightarrow> bool" for env d where
  init: "reachable env d (NewPfcpServer d)"
| step: "reachable env d st \<Longrightarrow> server_step env ev st = Running st' \<Longrightarrow> reachable env d st'"

lemma reachable_inv: "reachable env d st \<Longrightarrow> server_inv st"
proof (induction rule: reachable.induct)
  case init
  show ?case by (rule new_server_inv)
next
  case (step st ev st')
  then show ?case using server_step_inv [of st env ev] by (simp add: outcome_inv_def)
qed

lemma reachable_run: "server_run env es st = Running st' \<Longrightarrow> reachable env d st \<Longrightarrow> reachable env d st'"
  by (induction es arbitrary: st) (auto split: outcome.splits intro: reachable.step)


section \<open>What the handlers of requests leave alone\<close>

text \<open>A request handler sends no request, and it may record an answer but drops no receive transaction.\<close>

definition only_answers :: "('d, 'ie) PfcpServer \<Rightarrow> ('d, 'ie) PfcpServer \<Rightarrow> bool" where
  "only_answers st st' \<longleftrightarrow> txTrans st' = txTrans st \<and> txSeq st' = txSeq st
     \<and> dom (map_of (rxTrans st)) \<subseteq> dom (map_of (rxTrans st'))"

lemma only_answers_refl [simp]: "only_answers st st"
  by (simp add: only_answers_def)

lemma only_answers_trans: "only_answers a b \<Longrightarrow> only_answers b c \<Longrightarrow> only_answers a c"
  by (auto simp: only_answers_def)

lemma only_answers_sendRspTo [simp]: "only_answers st (snd (sendRspTo env m addr st))"
  using sendRspTo_frame [of env m addr st] by (auto simp: only_answers_def)

lemma only_answers_more: "Nodes.more st' = Nodes.more st \<Longrightarrow> only_answers st st'"
  by (cases st, cases st') (simp add: only_answers_def)

lemma node_ops_more:
  "RemoteNode_NewSess a r st = Some (s, st') \<Longrightarrow> Nodes.more st' = Nodes.more st"
  "RemoteNode_DeleteSess drv api a i st = Some (x, st') \<Longrightarrow> Nodes.more st' = Nodes.more st"
  by (auto simp: RemoteNode_NewSess_def RemoteNode_DeleteSess_def Let_def split: option.splits if_splits prod.splits)

lemma delete_loop_more: "delete_loop drv api a is st = Some st' \<Longrightarrow> Nodes.more st' = Nodes.more st"
  by (induction "is" arbitrary: st) (auto split: option.splits dest: node_ops_more(2))

lemma Reset_more: "RemoteNode_Reset drv api a st = Some st' \<Longrightarrow> Nodes.more st' = Nodes.more st"
  by (auto simp: RemoteNode_Reset_def split: option.splits dest: delete_loop_more)

lemma only_answers_updates [simp]:
  "only_answers st (s\<lparr>lnode := l\<rparr>) = only_answers st s" "only_answers st (s\<lparr>dstate := d\<rparr>) = only_answers st s"
  "only_answers st (s\<lparr>heap := h\<rparr>) = only_answers st s" "only_answers st (s\<lparr>rnodes := m\<rparr>) = only_answers st s"
  "only_answers st (s\<lparr>new_addr := a\<rparr>) = only_answers st s"
  by (simp_all add: only_answers_def)

lemma only_answers_send [simp]: "only_answers st s \<Longrightarrow> only_answers st (snd (sendRspTo env m addr s))"
  using only_answers_trans only_answers_sendRspTo by blast

lemma only_answers_NewSess: "RemoteNode_NewSess a r st = Some (s, st') \<Longrightarrow> only_answers st st'"
  by (intro only_answers_more node_ops_more(1))

lemma only_answers_DeleteSess:
  "RemoteNode_DeleteSess drv api a i s = Some (x, st') \<Longrightarrow> only_answers st s \<Longrightarrow> only_answers st st'"
  using only_answers_more [OF node_ops_more(2)] only_answers_trans by blast

lemma est_fail_only: "est_fail env seq addr a i c s = Some st' \<Longrightarrow> only_answers st s \<Longrightarrow> only_answers st st'"
  by (auto simp: est_fail_def sendSessEstFailRsp_def elim: only_answers_DeleteSess)

lemma establishment_only:
  assumes "handleSessionEstablishmentRequest env seq req addr st = Some st'"
  shows "only_answers st st'"
proof -
  have "only_answers st st'" if "est_session env seq req addr a r st = Some st'" for a r
    using that only_answers_NewSess [of a r st]
    by (auto simp: est_session_def Let_def split: option.splits sum.splits prod.splits elim!: est_fail_only)
  then show ?thesis using assms
    by (auto simp: handleSessionEstablishmentRequest_def sendSessEstFailRsp_def split: option.splits)
qed

lemma modification_only:
  assumes "handleSessionModificationRequest env seq i req addr st = Some st'"
  shows "only_answers st st'"
proof -
  have m: "only_answers st (mod_session env seq s req addr t)" if "only_answers st t" for s t
    using that by (simp add: mod_session_def sendSessModFailRsp_def Let_def case_prod_beta split: sum.splits)
  have "only_answers st t" if "UpdateNodeID a n st = Some t" for a n t
    using that by (auto simp: UpdateNodeID_def split: option.splits)
  then show ?thesis using assms m
    by (auto simp: handleSessionModificationRequest_def split: option.splits)
qed

lemma deletion_only: "handleSessionDeletionRequest env seq i addr st = Some st' \<Longrightarrow> only_answers st st'"
  by (auto simp: handleSessionDeletionRequest_def Let_def split: option.splits prod.splits
      dest!: only_answers_more [OF node_ops_more(2)])

lemma association_only: "handleAssociationSetupRequest env seq nid rts addr st = Some st' \<Longrightarrow> only_answers st st'"
  by (auto simp: handleAssociationSetupRequest_def setup_association_def NewNode_def
      split: option.splits if_splits dest!: only_answers_more [OF Reset_more] intro!: only_answers_send)

lemma reqDispacher_only: "reqDispacher env msg addr st = Some st' \<Longrightarrow> only_answers st st'"
  by (cases msg) (auto simp: reqDispacher_def handleHeartbeatRequest_def
      dest: establishment_only modification_only deletion_only association_only)

end
