(* ===== verification/Upf_Pfcp_Props.thy ===== *)
theory Upf_Pfcp_Props
  imports Upf_Pfcp_Inv
begin

unbundle bit_operations_syntax

text \<open>
  What the PFCP server guarantees over whole runs of its main loop, and a run that ends in a panic.
\<close>

section \<open>Pending requests\<close>

text \<open>Every pending request has been sent: its timer runs and the message is recorded.\<close>

definition txs_sent :: "('d, 'ie) PfcpServer \<Rightarrow> bool" where
  "txs_sent st \<longleftrightarrow> (\<forall>i tx. map_of (txTrans st) i = Some tx \<longrightarrow> tx_timer tx \<and> tx_req tx \<noteq> None)"

lemma txs_sent_cong: "txTrans st' = txTrans st \<Longrightarrow> txs_sent st' = txs_sent st"
  by (simp add: txs_sent_def)

lemma txs_sent_updates [simp]:
  "txs_sent (st\<lparr>lnode := l\<rparr>) = txs_sent st" "txs_sent (st\<lparr>dstate := d\<rparr>) = txs_sent st"
  "txs_sent (st\<lparr>rxTrans := r\<rparr>) = txs_sent st" "txs_sent (st\<lparr>sent := x\<rparr>) = txs_sent st"
  by (simp_all add: txs_sent_def)

lemma txs_sent_mdel: "txs_sent st \<Longrightarrow> txs_sent (st\<lparr>txTrans := mdel i (txTrans st)\<rparr>)"
  by (simp add: txs_sent_def)

lemma txs_sent_sendReqTo:
  assumes "\<And>m. e_marshal env m \<noteq> None" and "txs_sent st"
  shows "txs_sent (snd (sendReqTo env m addr st))"
proof -
  obtain b where "e_marshal env (setReqSeq m (txSeq st)) = Some b" using assms(1) by blast
  then show ?thesis using assms(2)
    by (simp add: sendReqTo_def TxTransaction_send_def NewTxTransaction_def WriteTo_def Let_def txs_sent_def)
qed

lemma serve_loop_sent:
  assumes m: "\<And>m. e_marshal env m \<noteq> None"
  shows "txs_sent st \<Longrightarrow> serve_loop env laddr i rs us st = Some st' \<Longrightarrow> txs_sent st'"
proof (induction rs arbitrary: us st)
  case Nil
  have "txs_sent (serveUSAReport env laddr i us st)" using Nil.prems(1)
    by (simp add: serveUSAReport_def case_prod_beta Let_def txs_sent_sendReqTo [OF m] split: option.splits)
  then show ?case using Nil.prems by (simp split: if_splits)
next
  case (Cons r rs)
  show ?case
  proof (cases r)
    case (DLD d)
    have "txs_sent (serveDLDReport env laddr i (dl_PDRID d) (st\<lparr>lnode := l\<rparr>))" for l
      using Cons.prems(1) by (simp add: serveDLDReport_def txs_sent_sendReqTo [OF m] split: option.splits)
    then show ?thesis using Cons DLD by (auto simp: Let_def split: option.splits if_splits)
  qed (use Cons in auto)
qed

lemma receive_request_only: "receive_request env msg addr st = Some z \<Longrightarrow> only_answers st z"
proof (cases "map_of (rxTrans st) (trID addr (Sequence msg))")
  case None
  let ?st = "st\<lparr>rxTrans := mput (trID addr (Sequence msg)) (NewRxTransaction env addr (Sequence msg)) (rxTrans st)\<rparr>"
  assume "receive_request env msg addr st = Some z"
  then have "only_answers ?st z"
    using None by (simp add: receive_request_def RxTransaction_recv_def reqDispacher_only)
  moreover have "only_answers st ?st" by (auto simp: only_answers_def)
  ultimately show ?thesis by (blast intro: only_answers_trans)
next
  case (Some rx)
  assume "receive_request env msg addr st = Some z"
  then show ?thesis using Some
    by (auto simp: receive_request_def RxTransaction_recv_def WriteTo_def Let_def only_answers_def
        split: if_splits)
qed

lemma report_response_only: "handleSessionReportResponse env i addr rq st = Some z \<Longrightarrow> only_answers st z"
  by (auto simp: handleSessionReportResponse_def split: option.splits if_splits
      dest: only_answers_more [OF node_ops_more(2)])

lemma receive_response_sent:
  assumes "receive_response env msg addr st = Some z" and "txs_sent st"
  shows "txs_sent z"
proof (cases "map_of (txTrans st) (trID addr (Sequence msg))")
  case None
  then show ?thesis using assms by (simp add: receive_response_def)
next
  case (Some tx)
  let ?st = "st\<lparr>txTrans := mdel (trID (tx_raddr tx) (tx_seq tx)) (txTrans st)\<rparr>"
  have "rspDispacher env msg addr (tx_req tx) ?st = Some z"
    using assms(1) Some by (simp add: receive_response_def TxTransaction_recv_def split: if_splits)
  then have "only_answers ?st z"
    by (cases msg) (simp_all add: rspDispacher_def report_response_only)
  then show ?thesis
    using txs_sent_mdel [OF assms(2)] txs_sent_cong [of z ?st] by (simp add: only_answers_def)
qed

lemma ServeReport_sent:
  assumes m: "\<And>m. e_marshal env m \<noteq> None" and "txs_sent st" and "ServeReport env sr st = Some st'"
  shows "txs_sent st'"
  using assms(2,3) serve_loop_sent [OF m, of st _ _ _ _ st']
  by (simp add: ServeReport_def split: option.splits)

lemma txs_sent_put:
  "txs_sent st \<Longrightarrow> tx_timer tx \<Longrightarrow> tx_req tx \<noteq> None \<Longrightarrow> txs_sent (st\<lparr>txTrans := mput i tx (txTrans st)\<rparr>)"
  by (simp add: txs_sent_def)

lemma timeout_sent: "txs_sent st \<Longrightarrow> txs_sent (transaction_timeout env t i st)"
proof -
  assume st: "txs_sent st"
  have "txs_sent (TxTransaction_handleTimeout env tx st)" if "map_of (txTrans st) i = Some tx" for tx
  proof -
    have "tx_req tx \<noteq> None" using st that by (simp add: txs_sent_def)
    then show ?thesis using st txs_sent_put [of "st\<lparr>sent := sent st @ [(tx_msgBuf tx, tx_raddr tx)]\<rparr>"]
      by (simp add: TxTransaction_handleTimeout_def WriteTo_def txs_sent_mdel)
  qed
  then show ?thesis using st
    by (simp add: transaction_timeout_def RxTransaction_handleTimeout_def split: TransType.split option.split)
qed

lemma server_step_sent:
  assumes m: "\<And>m. e_marshal env m \<noteq> None" and st: "txs_sent st" "server_step env ev st = Running st'"
  shows "txs_sent st'"
proof (cases ev)
  case (SrEvent sr)
  then have "ServeReport env sr st = Some st'"
    using st(2) by (simp add: server_step_def outcome_of_def split: option.splits)
  then show ?thesis using ServeReport_sent [OF m st(1)] by blast
next
  case (TrEvent t i)
  then show ?thesis using st(2) timeout_sent [OF st(1)] by (auto simp: server_step_def)
next
  case (RcvEvent addr buf)
  then consider "st' = st" | msg where "receive_request env msg addr st = Some st'"
    | msg where "receive_response env msg addr st = Some st'"
    using st(2) by (auto simp: server_step_def receive_packet_def outcome_of_def split: option.splits if_splits)
  then show ?thesis
  proof cases
    case (2 msg)
    then show ?thesis using receive_request_only [OF 2] txs_sent_cong [of st' st] st(1)
      by (simp add: only_answers_def)
  next
    case (3 msg)
    then show ?thesis using receive_response_sent st(1) by blast
  qed (use st(1) in simp)
qed

lemma reachable_sent:
  assumes "reachable env d st" and m: "\<And>m. e_marshal env m \<noteq> None"
  shows "txs_sent st"
  using assms(1)
proof (induction rule: reachable.induct)
  case init
  show ?case by (simp add: txs_sent_def NewPfcpServer_def)
next
  case (step st ev st')
  then show ?case using server_step_sent [OF m] by blast
qed



section \<open>A run that ends in a panic\<close>

text \<open>
  Six events at the example server: a peer sets up an association, establishes two sessions and
  deletes the first; the data plane reports on the second, and the peer answers the report with SEID 0.
\<close>

definition demo_pkt :: "u8 \<Rightarrow> bytes" where
  "demo_pkt k = [32, k, 0, 4, 0, 0, 0, 0]"

definition demo_est :: "plain_ie EstReq" where
  "demo_est = \<lparr>er_NodeID = Some (NodeIE ''10.0.0.1''), er_CPFSEID = Some (SeidIE 73), er_CreateFAR = [],
     er_CreateQER = [], er_CreateURR = [], er_CreateBAR = None, er_CreatePDR = []\<rparr>"

definition demo_msg :: "bytes \<Rightarrow> plain_ie message option" where
  "demo_msg b =
     (if b = demo_pkt 5 then Some (AssociationSetupRequest 1 (Some (NodeIE ''10.0.0.1'')) (Some (TimeIE 0)))
      else if b = demo_pkt 50 then Some (SessionEstablishmentRequest 2 demo_est)
      else if b = demo_pkt 51 then Some (SessionEstablishmentRequest 3 demo_est)
      else if b = demo_pkt 54 then Some (SessionDeletionRequest 4 1)
      else if b = demo_pkt 57 then Some (SessionReportResponse 0 0)
      else None)"

definition demo_env :: "(u32 list, plain_ie) UpfEnv" where
  "demo_env = (plain_env 2)\<lparr>e_parse := demo_msg\<rparr>"

definition demo_report :: SessReport where
  "demo_report = \<lparr>sr_SEID = 2, Reports = [DLD \<lparr>dl_PDRID = 1, dl_Action = APPLY_ACT A_NOCP, BufPkt = []\<rparr>]\<rparr>"

definition demo_events :: "event list" where
  "demo_events = [RcvEvent ''10.0.0.1:8805'' (demo_pkt 5), RcvEvent ''10.0.0.1:8805'' (demo_pkt 50),
     RcvEvent ''10.0.0.1:8805'' (demo_pkt 51), RcvEvent ''10.0.0.1:8805'' (demo_pkt 54), SrEvent demo_report]"

lemma demo_length: "validatePfcpPacketLength (demo_pkt k)"
  by (simp add: validatePfcpPacketLength_def demo_pkt_def)

lemma demo_pkt_simps: "demo_pkt k \<noteq> []" "demo_pkt k = demo_pkt j \<longleftrightarrow> k = j"
  by (simp_all add: demo_pkt_def)

lemmas demo_server_simps = server_step_def receive_packet_def demo_length demo_pkt_simps demo_env_def demo_msg_def
  receive_request_def NewPfcpServer_def RxTransaction_recv_def isRequest_def reqDispacher_def
  handleAssociationSetupRequest_def plain_env_def setup_association_def NewNode_def
  sendRspTo_def isResponse_def RxTransaction_send_def WriteTo_def NewRxTransaction_def outcome_of_def

lemmas demo_session_simps = handleSessionEstablishmentRequest_def demo_est_def est_session_def
  RemoteNode_NewSess_def LocalNode_NewSess_def NewRemoteNode_def empty_sess_def est_validate_def validate_creates_def
  and_then_def opt_list_def apply_creates_def put_sess_def est_rsp_def created_pdrs_def NewModificationPlan_def
  handleSessionDeletionRequest_def RemoteNode_DeleteSess_def LocalNode_DeleteSess_def LocalNode_Sess_def
  Close_def close_plan_def

lemmas demo_report_simps = ServeReport_def demo_report_def serveDLDReport_def sendReqTo_def TxTransaction_send_def
  NewTxTransaction_def receive_response_def TxTransaction_recv_def rspDispacher_def
  handleSessionReportResponse_def LocalNode_RemoteSess_def

lemma demo_consts: "itoa UpfPfcpDefaultPort = ''8805''" "APPLY_ACT A_NOCP = 8"
  by (simp_all add: UpfPfcpDefaultPort_def itoa.simps digit_def APPLY_ACT_def)

lemma demo_run:
  "\<exists>st. server_run demo_env demo_events (NewPfcpServer []) = Running st \<and> ln_free (lnode st) = [1]
    \<and> server_step demo_env (RcvEvent ''10.0.0.1:8805'' (demo_pkt 57)) st = Panicked"
  by (simp add: demo_events_def demo_server_simps demo_session_simps demo_report_simps plain_api_def plain_driver_def
      demo_consts Let_def)



section \<open>Guarantees over runs\<close>

text \<open>C4: Every reachable state of the server is consistent, whatever the peers send, the data plane
  reports, the forwarder answers and the timers do. Each live SEID names one session that points to a
  node of the heap, and that node lists the SEID; the free SEIDs are the empty slots; no session in the
  table has a closed packet queue or a URR marked as removed; every association names a node with that
  Node ID; and every transaction is stored under its own identifier.\<close>

theorem server_invariant:
  assumes "server_run env es (NewPfcpServer d) = Running st"
  shows "nodes_inv st \<and> rnodes_ok st \<and> trans_ok st
    \<and> (\<forall>i s. LocalNode_Sess i (lnode st) = Some s \<longrightarrow> sess_ok s \<and> LocalID s = i
         \<and> (\<exists>a n. s_rnode s = Some a \<and> map_of (heap st) a = Some n \<and> i \<in> set (rn_sess n)))"
proof -
  have inv: "server_inv st" using reachable_inv [OF reachable_run [OF assms reachable.init]] .
  have "\<exists>a n. s_rnode s = Some a \<and> map_of (heap st) a = Some n \<and> i \<in> set (rn_sess n)"
    if s: "LocalNode_Sess i (lnode st) = Some s" for i s
  proof -
    obtain a n where a: "s_rnode s = Some a" "map_of (heap st) a = Some n"
      using server_sess_ok(3) [OF inv s] by blast
    moreover have "owner st i = Some a" using s a(1) by (simp add: owner_def)
    ultimately show ?thesis using inv unfolding server_inv_def nodes_inv_def by blast
  qed
  then show ?thesis using inv server_sess_ok(1,2) [OF inv] by (simp add: server_inv_def)
qed

theorem server_invariant_witness:
  "\<exists>st. server_run demo_env demo_events (NewPfcpServer []) = Running st
     \<and> ln_free (lnode st) = [1] \<and> nodes_inv st \<and> trans_ok st"
proof -
  obtain st where st: "server_run demo_env demo_events (NewPfcpServer []) = Running st" "ln_free (lnode st) = [1]"
    using demo_run by blast
  then show ?thesis using server_invariant [OF st(1)] by blast
qed

lemma duplicate_step:
  assumes "e_parse env buf = Some msg" and "validatePfcpPacketLength buf" and "isRequest msg"
    and "map_of (rxTrans st) (trID addr (Sequence msg)) = Some rx"
  shows "server_step env (RcvEvent addr buf) st =
    Running (if rx_msgBuf rx = [] then st else st\<lparr>sent := sent st @ [(rx_msgBuf rx, rx_raddr rx)]\<rparr>)"
proof -
  have "buf \<noteq> []" using assms(2) by (auto simp: validatePfcpPacketLength_def split: if_splits)
  then show ?thesis using assms
    by (simp add: server_step_def receive_packet_def receive_request_def RxTransaction_recv_def WriteTo_def
        outcome_of_def)
qed




text \<open>C9: An association request starts from a clean slate for its peer. A request without a readable,
  non-empty Node ID or a readable recovery time stamp is dropped. Every other one creates a new node
  without sessions for the Node ID, deletes exactly the sessions of the node that the Node ID was
  associated with before, keeps all other associations and sessions, and is accepted; in every
  reachable state, without a panic, keeping the invariant.\<close>

theorem association_correct:
  assumes "server_inv st"
  shows "\<exists>st'. handleAssociationSetupRequest env seq nid rts addr st = Some st' \<and> server_inv st'
    \<and> assoc_result env seq nid rts addr st st'"
  using assms by (rule association_spec)

theorem association_correct_witness:
  "server_inv two_server
   \<and> (\<exists>st'. handleAssociationSetupRequest (plain_env 2) 9 (Some (NodeIE ''smf1'')) (Some (TimeIE 0))
          ''10.0.0.1:8805'' two_server = Some st'
        \<and> LocalNode_Sess 1 (lnode st') = None \<and> LocalNode_Sess 2 (lnode st') = LocalNode_Sess 2 (lnode two_server)
        \<and> map_of (rnodes st') ''smf1'' = Some 2 \<and> map_of (rnodes st') ''smf2'' = Some 1)"
proof -
  have b: "Option.bind (Some (NodeIE ''smf1'')) (ie_NodeID (e_api (plain_env 2))) = Some ''smf1''"
    "Option.bind (Some (TimeIE 0)) (ie_RecoveryTimeStamp (e_api (plain_env 2))) = Some 0"
    by (simp_all add: plain_env_def plain_api_def)
  have o: "owner two_server 1 = Some 0" "owner two_server 2 = Some 1" "map_of (rnodes two_server) ''smf1'' = Some 0"
    "map_of (rnodes two_server) ''smf2'' = Some 1" "new_addr two_server = 2"
    using two_nodes_Sess by (simp_all add: owner_def two_server_def empty_sess_def)
  obtain st' where st': "handleAssociationSetupRequest (plain_env 2) 9 (Some (NodeIE ''smf1'')) (Some (TimeIE 0))
      ''10.0.0.1:8805'' two_server = Some st'"
    "assoc_result (plain_env 2) 9 (Some (NodeIE ''smf1'')) (Some (TimeIE 0)) ''10.0.0.1:8805'' two_server st'"
    using association_correct [OF two_server_inv] by blast
  from st'(2) have "LocalNode_Sess 1 (lnode st') = None"
    "LocalNode_Sess 2 (lnode st') = LocalNode_Sess 2 (lnode two_server)"
    "map_of (rnodes st') = (map_of (rnodes two_server))(''smf1'' \<mapsto> 2)"
    unfolding assoc_result_def b using o by simp_all
  then show ?thesis using st'(1) o(4) two_server_inv by (intro conjI exI [of _ st']) simp_all
qed

text \<open>The length check accepts exactly the packets whose size is the one their header declares. A
  packet passes \<open>validatePfcpPacketLength\<close> if and only if it has at least eight bytes and its size is the
  big-endian number in bytes 2 and 3 plus 4; the sixteen-bit arithmetic of the source never wraps.\<close>

theorem validatePfcpPacketLength_iff:
  "validatePfcpPacketLength buf \<longleftrightarrow>
     8 \<le> length buf \<and> length buf = 4 + 256 * unat (buf ! 2) + unat (buf ! 3)"
  by (auto simp: validatePfcpPacketLength_def Let_def unat_join8)

text \<open>An empty datagram stops the PFCP server. The receiver hands every datagram to the main loop, also
  one of length zero, and the main loop takes an empty buffer for the closing of the socket: from every
  state, one empty UDP datagram from anybody ends the loop with all timers stopped, and no later event
  is served.\<close>

theorem empty_datagram_stops_server:
  "server_run env (receiver_event (Some (addr, [])) # es) st = Stopped (stopTrTimers st)"
  by (simp add: receiver_event_def server_step_def receive_packet_def)


section \<open>Reports of the data plane\<close>

lemma sendReqTo_sent:
  "sent (snd (sendReqTo env m addr st)) = sent st @
     (if isRequest m then case e_marshal env (setReqSeq m (txSeq st)) of None \<Rightarrow> [] | Some b \<Rightarrow> [(b, addr)] else [])"
  by (simp add: sendReqTo_def TxTransaction_send_def NewTxTransaction_def WriteTo_def Let_def split: option.splits)

lemma Push_items:
  assumes "sess_ok s" and "Push k p s = Some s'"
  shows "q_items k s' = (if length (q_items k s) < s_qlen s then q_items k s @ [p] else q_items k s)"
proof -
  have "queue_open k s"
    using assms(1) by (auto simp: queue_open_def sess_ok_def sess_open_def list_all_iff dest!: map_of_SomeD
        split: option.splits)
  then show ?thesis using sess_queue.push_law [of k s p] assms(2) by auto
qed

text \<open>A downlink data report buffers its packet and notifies the peer. For a session of the table whose
  node's address resolves, a report for a PDR appends the packet to the queue of that PDR when the action
  has BUFF and the queue has room (512 packets for a new session), and drops it otherwise; it writes one
  session report request for that PDR to the peer when the action has NOCP, and nothing otherwise; no
  other session changes and the invariant is kept.\<close>

lemma downlink_report_spec:
  assumes inv: "server_inv st" and s: "LocalNode_Sess i (lnode st) = Some s"
    and n: "Option.bind (s_rnode s) (map_of (heap st)) = Some n"
    and l: "ResolveUDPAddr env (rn_ID n @ '':'' @ itoa UpfPfcpDefaultPort) = Some laddr"
  shows "\<exists>st' s'. ServeReport env \<lparr>sr_SEID = i, Reports = [DLD r]\<rparr> st = Some st' \<and> server_inv st'
    \<and> (\<forall>j. LocalNode_Sess j (lnode st') = (if j = i then Some s' else LocalNode_Sess j (lnode st)))
    \<and> q_items (dl_PDRID r) s' = q_items (dl_PDRID r) s @
        (if dl_Action r AND APPLY_ACT A_BUFF \<noteq> 0 \<and> BufPkt r \<noteq> []
            \<and> length (q_items (dl_PDRID r) s) < s_qlen s then [BufPkt r] else [])
    \<and> sent st' = sent st @
        (if dl_Action r AND APPLY_ACT A_NOCP = 0 then []
         else case e_marshal env (SessionReportRequest (txSeq st) (RemoteID s)
                [R_ReportType 0 0 0 1, R_DownlinkDataReport (dl_PDRID r)] []) of
                None \<Rightarrow> [] | Some b \<Rightarrow> [(b, laddr)])"
proof -
  let ?buf = "dl_Action r AND APPLY_ACT A_BUFF \<noteq> 0 \<and> BufPkt r \<noteq> []"
  have ok: "sess_ok s" using server_sess_ok(1) [OF inv s] .
  obtain s' where s': "(if ?buf then Push (dl_PDRID r) (BufPkt r) s else Some s) = Some s'"
    "sess_ok s'" "s_rnode s' = s_rnode s" "LocalID s' = LocalID s" "RemoteID s' = RemoteID s"
    using Push_ok [OF ok, of "dl_PDRID r" "BufPkt r"] ok by (cases ?buf) auto
  have q: "q_items (dl_PDRID r) s' = q_items (dl_PDRID r) s @
      (if ?buf \<and> length (q_items (dl_PDRID r) s) < s_qlen s then [BufPkt r] else [])"
    using Push_items [OF ok] s'(1) by (cases ?buf) auto
  let ?st = "st\<lparr>lnode := put_sess s' (lnode st)\<rparr>"
  have put: "server_inv ?st" "\<And>j. LocalNode_Sess j (lnode ?st) = (if j = i then Some s' else LocalNode_Sess j (lnode st))"
    using server_inv_put [OF inv s s'(3,4,2)] by simp_all
  have "ServeReport env \<lparr>sr_SEID = i, Reports = [DLD r]\<rparr> st =
      Some (if dl_Action r AND APPLY_ACT A_NOCP = 0 then ?st else serveDLDReport env laddr i (dl_PDRID r) ?st)"
    using s n l s'(1) by (simp add: ServeReport_def Let_def)
  moreover have "sent (serveDLDReport env laddr i (dl_PDRID r) ?st) = sent st @
      (case e_marshal env (SessionReportRequest (txSeq st) (RemoteID s)
        [R_ReportType 0 0 0 1, R_DownlinkDataReport (dl_PDRID r)] []) of None \<Rightarrow> [] | Some b \<Rightarrow> [(b, laddr)])"
    using put(2) [of i] s'(5) by (simp add: serveDLDReport_def sendReqTo_sent isRequest_def)
  ultimately show ?thesis using put q serveDLDReport_inv [OF put(1)] by auto
qed

lemma downlink_report_example:
  "server_inv two_server
   \<and> (\<exists>st' s'. ServeReport (plain_env 2) \<lparr>sr_SEID = 1,
         Reports = [DLD \<lparr>dl_PDRID = 7, dl_Action = 12, BufPkt = [1, 2]\<rparr>]\<rparr> two_server = Some st'
        \<and> LocalNode_Sess 1 (lnode st') = Some s' \<and> q_items 7 s' = [[1, 2]]
        \<and> sent st' = [([1], ''smf1:8805'')])"
proof -
  have s: "LocalNode_Sess 1 (lnode two_server) = Some (empty_sess (Some 0) 1 71 512)"
    using two_nodes_Sess [of 1] by (simp add: two_server_def)
  have n: "Option.bind (s_rnode (empty_sess (Some 0) 1 71 512)) (map_of (heap two_server))
      = Some \<lparr>rn_ID = ''smf1'', rn_addr = ''10.0.0.1:8805'', rn_sess = [1]\<rparr>"
    by (simp add: empty_sess_def two_server_def two_nodes_def)
  have l: "ResolveUDPAddr (plain_env 2) (rn_ID \<lparr>rn_ID = ''smf1'', rn_addr = ''10.0.0.1:8805'', rn_sess = [1]\<rparr>
      @ '':'' @ itoa UpfPfcpDefaultPort) = Some ''smf1:8805''"
    by (simp add: plain_env_def demo_consts)
  have c: "(12 :: u16) AND APPLY_ACT A_BUFF \<noteq> 0" "(12 :: u16) AND APPLY_ACT A_NOCP \<noteq> 0"
    by (simp_all add: APPLY_ACT_def)
  have q: "q_items 7 (empty_sess (Some 0) 1 71 512) = []" "s_qlen (empty_sess (Some 0) 1 71 512) = 512"
    "sent two_server = []" "txSeq two_server = 1" "e_marshal (plain_env 2) m = Some [ucast (Sequence m)]" for m
    by (simp_all add: q_items_def empty_sess_def two_server_def plain_env_def)
  show ?thesis
    using downlink_report_spec [OF two_server_inv s n l, of "\<lparr>dl_PDRID = 7, dl_Action = 12, BufPkt = [1, 2]\<rparr>"]
      two_server_inv c q by auto
qed

section \<open>Take-over of a session\<close>



end
