(* ===== verification/Go_Text.thy ===== *)
theory Go_Text
  imports Go_Std
begin

unbundle bit_operations_syntax

text \<open>
  More of the Go library that the sources use: \<open>strings.Fields\<close>, \<open>Split\<close> and \<open>SplitN\<close>, \<open>strconv.ParseUint\<close>,
  \<open>net.CIDRMask\<close> and \<open>net.ParseCIDR\<close>. A string is its bytes. The lemmas say that parsing takes back what printing
  puts together.
\<close>

section \<open>Fields and separators\<close>

text \<open>
  The number of bytes of the white space at the start, 0 if there is none: the six ASCII characters and the UTF-8 forms of
  the other code points for which \<open>unicode.IsSpace\<close> holds.
\<close>

definition space_len :: "string \<Rightarrow> nat" where
  "space_len s =
     (case map of_char (take 3 s) :: nat list of
        [] \<Rightarrow> 0
      | a # r \<Rightarrow>
          if a = 32 \<or> (9 \<le> a \<and> a \<le> 13) then 1
          else (case r of
             [] \<Rightarrow> 0
           | b # r' \<Rightarrow>
               if a = 0xC2 \<and> (b = 0x85 \<or> b = 0xA0) then 2
               else (case r' of
                  [] \<Rightarrow> 0
                | c # _ \<Rightarrow>
                    if (a, b, c) \<in> {(0xE1, 0x9A, 0x80), (0xE2, 0x80, 0xA8), (0xE2, 0x80, 0xA9), (0xE2, 0x80, 0xAF),
                         (0xE2, 0x81, 0x9F), (0xE3, 0x80, 0x80)} \<or> (a = 0xE2 \<and> b = 0x80 \<and> 0x80 \<le> c \<and> c \<le> 0x8A)
                    then 3 else 0)))"

text \<open>The argument \<open>acc\<close> holds the field read so far, in reverse.\<close>

function fields_loop :: "string \<Rightarrow> string \<Rightarrow> string list" where
  "fields_loop acc [] = (if acc = [] then [] else [rev acc])"
| "fields_loop acc (c # s) =
     (if space_len (c # s) = 0 then fields_loop (c # acc) s
      else (if acc = [] then [] else [rev acc]) @ fields_loop [] (drop (space_len (c # s) - 1) s))"
  by pat_completeness auto
termination by (relation "measure (\<lambda>(acc, s). length s)") auto

definition Fields :: "string \<Rightarrow> string list" where
  "Fields s = fields_loop [] s"

fun Split :: "char \<Rightarrow> string \<Rightarrow> string list" where
  "Split sep [] = [[]]"
| "Split sep (c # s) =
     (if c = sep then [] # Split sep s
      else case Split sep s of [] \<Rightarrow> [[c]] | t # ts \<Rightarrow> (c # t) # ts)"

text \<open>\<open>SplitN(s, sep, 2)\<close>: at the first separator only.\<close>

definition SplitN2 :: "char \<Rightarrow> string \<Rightarrow> string list" where
  "SplitN2 sep s =
     (if sep \<in> set s then [takeWhile (\<lambda>c. c \<noteq> sep) s, tl (dropWhile (\<lambda>c. c \<noteq> sep) s)] else [s])"

section \<open>Numbers\<close>

definition ParseUint :: "nat \<Rightarrow> string \<Rightarrow> nat option" where
  "ParseUint bits s =
     (if s = [] \<or> \<not> list_all is_digit s then None
      else if atoi 0 s \<ge> 2 ^ bits then None
      else Some (atoi 0 s))"

section \<open>Networks\<close>

record IPNet =
  net_IP :: bytes
  net_Mask :: bytes

text \<open>\<open>ones\<close> is at most \<open>bits\<close>, which is 32 or 128; the last byte of the ones is \<open>^byte(0xff >> n)\<close>.\<close>

definition CIDRMask :: "nat \<Rightarrow> nat \<Rightarrow> bytes" where
  "CIDRMask ones bits =
     map (\<lambda>i. if 8 * i + 8 \<le> ones then 0xff
              else if ones \<le> 8 * i then 0
              else NOT (drop_bit (ones - 8 * i) 0xff)) [0..<bits div 8]"

text \<open>\<open>ParseCIDR\<close>: an IPv4 address has a mask of four bytes and a network address of four bytes.\<close>

definition ParseCIDR :: "string \<Rightarrow> IPNet option" where
  "ParseCIDR s =
     (if CHR ''/'' \<notin> set s then None
      else
        let addr = takeWhile (\<lambda>c. c \<noteq> CHR ''/'') s;
            mask = tl (dropWhile (\<lambda>c. c \<noteq> CHR ''/'') s);
            ip = (case List.find (\<lambda>c. c \<in> {CHR ''.'', CHR '':'', CHR ''%''}) addr of
                    Some c \<Rightarrow>
                      if c = CHR ''.'' then parseIPv4 addr
                      else if c = CHR '':'' \<and> CHR ''%'' \<notin> set addr then parseIPv6 addr
                      else None
                  | None \<Rightarrow> None)
        in case ip of
             None \<Rightarrow> None
           | Some a \<Rightarrow>
               if mask = [] \<or> \<not> list_all is_digit mask \<or> atoi 0 mask > 8 * length a then None
               else
                 let m = CIDRMask (atoi 0 mask) (8 * length a)
                 in Some \<lparr>net_IP = map2 (AND) a m, net_Mask = m\<rparr>)"

section \<open>Parsing what was printed\<close>

text \<open>A printable ASCII character other than the space: no field ends at it.\<close>

definition tok_char :: "char \<Rightarrow> bool" where
  "tok_char c \<longleftrightarrow> 33 \<le> (of_char c :: nat) \<and> (of_char c :: nat) < 127"

lemma space_len_tok: "tok_char c \<Longrightarrow> space_len (c # s) = 0"
  by (auto simp: tok_char_def space_len_def split: list.splits)

lemma space_len_space: "space_len (CHR '' '' # s) = 1"
  by (simp add: space_len_def)

lemma fields_loop_tok: "list_all tok_char t \<Longrightarrow> fields_loop acc (t @ s) = fields_loop (rev t @ acc) s"
  by (induction t arbitrary: acc) (simp_all add: space_len_tok)

lemma Fields_join:
  assumes "\<forall>t\<in>set ts. t \<noteq> [] \<and> list_all tok_char t"
  shows "Fields (join '' '' ts) = ts"
  using assms unfolding Fields_def
proof (induction "'' ''" ts rule: join.induct)
  case 1
  then show ?case by simp
next
  case (2 x)
  then show ?case using fields_loop_tok [of x "[]" "[]"] by simp
next
  case (3 x y xs)
  then show ?case
    using fields_loop_tok [of x "[]" "CHR '' '' # join '' '' (y # xs)"] by (simp add: space_len_space)
qed

lemma Split_no_sep: "sep \<notin> set s \<Longrightarrow> Split sep s = [s]"
  by (induction s) auto

lemma Split_append: "sep \<notin> set x \<Longrightarrow> Split sep (x @ sep # s) = x # Split sep s"
  by (induction x) auto

lemma Split_join:
  assumes "ts \<noteq> []" and "\<forall>t\<in>set ts. sep \<notin> set t"
  shows "Split sep (join [sep] ts) = ts"
  using assms by (induction "[sep]" ts rule: join.induct) (auto simp: Split_no_sep Split_append)

lemma SplitN2_pair: "sep \<notin> set x \<Longrightarrow> SplitN2 sep (x @ sep # y) = [x, y]"
  by (auto simp: SplitN2_def dropWhile_append takeWhile_append)

lemma is_digit_tok: "is_digit c \<Longrightarrow> tok_char c"
  by (auto simp: is_digit_def tok_char_def)

lemma itoa_tok: "list_all tok_char (itoa n)"
  using itoa_digits [of n] is_digit_tok by (metis list.pred_mono_strong)

lemma not_in_itoa: "\<not> is_digit c \<Longrightarrow> c \<notin> set (itoa n)"
  using dash_not_in_itoa by blast

lemma ParseUint_itoa: "n < 2 ^ b \<Longrightarrow> ParseUint b (itoa n) = Some n"
  by (simp add: ParseUint_def itoa_digits atoi_itoa)

lemma ParseUint_not_digit: "c \<in> set s \<Longrightarrow> \<not> is_digit c \<Longrightarrow> ParseUint b s = None"
  by (auto simp: ParseUint_def list_all_iff)

text \<open>The reader of IPv4 addresses takes back the printed octets.\<close>

lemma parse_v4_digits:
  assumes "list_all is_digit ds" and "atoi v ds \<le> 255" and "ds \<noteq> []" and "k = 0 \<and> v = 0 \<and> (length ds > 1 \<longrightarrow> hd ds \<noteq> CHR ''0'') \<or> v > 0"
  shows "parse_v4_loop prev fs v k (ds @ rest) = parse_v4_loop (Some (last ds)) fs (atoi v ds) (k + length ds) rest"
  using assms
proof (induction ds arbitrary: prev v k)
  case Nil
  then show ?case by simp
next
  case (Cons d ds)
  let ?v = "v * 10 + digit_val d"
  have mono: "w \<le> atoi w xs" for w xs
    by (induction xs arbitrary: w) (simp, metis atoi.simps(2) le_add1 le_trans mult.commute mult_le_mono1 nat_mult_1 numeral_le_iff one_le_numeral)
  have v: "?v \<le> 255" using Cons.prems(2) mono [of ?v ds] by simp
  show ?case
  proof (cases "ds = []")
    case True
    then show ?thesis using Cons.prems v by auto
  next
    case False
    have d: "is_digit d" using Cons.prems(1) by simp
    have pos: "?v > 0" using Cons.prems(4) False d by (auto simp: is_digit_def digit_val_def)
    have "parse_v4_loop prev fs v k ((d # ds) @ rest) = parse_v4_loop (Some d) fs ?v (k + 1) (ds @ rest)"
      using Cons.prems(4) d v by auto
    also have "\<dots> = parse_v4_loop (Some (last ds)) fs (atoi ?v ds) (k + 1 + length ds) rest"
      using Cons.IH [of ?v "k + 1" "Some d"] Cons.prems False pos by simp
    finally show ?thesis using False by simp
  qed
qed


lemma parse_v4_itoa:
  assumes "n \<le> 255"
  shows "parse_v4_loop prev fs 0 0 (itoa n @ rest) = parse_v4_loop (Some (last (itoa n))) fs n (length (itoa n)) rest"
proof -
  have "length (itoa n) > 1 \<longrightarrow> hd (itoa n) \<noteq> CHR ''0''"
  proof (cases "n = 0")
    case True
    then show ?thesis by (simp add: itoa.simps)
  next
    case False
    then show ?thesis using itoa_hd by blast
  qed
  then show ?thesis
    using parse_v4_digits [of "itoa n" 0 0 prev fs rest] assms by (simp add: itoa_digits atoi_itoa)
qed

lemma last_itoa_not_dot: "last (itoa n) \<noteq> CHR ''.''"
  using dash_not_in_itoa [OF last_in_set [OF itoa_not_Nil [of n]]] by (auto simp: is_digit_def)

lemma parse_v4_octet:
  assumes "n \<le> 255" and "length fs < 3" and "rest \<noteq> []"
  shows "parse_v4_loop prev fs 0 0 (itoa n @ CHR ''.'' # rest) = parse_v4_loop (Some CHR ''.'') (fs @ [n]) 0 0 rest"
  using assms last_itoa_not_dot [of n] by (simp add: parse_v4_itoa is_digit_def)

lemma parseIPv4_v4_string:
  assumes "length ip = 4"
  shows "parseIPv4 (v4_string ip) = Some ip"
proof -
  obtain a b c d where ip: "ip = [a, b, c, d]"
    using assms by (auto simp: numeral_eq_Suc length_Suc_conv)
  have le: "unat x \<le> 255" for x :: u8
  proof -
    have "unat x < 2 ^ LENGTH(8)" by (rule unsigned_less)
    then show ?thesis by simp
  qed
  show ?thesis
    using parse_v4_itoa [OF le [of d], of "Some CHR ''.''" "[unat a, unat b, unat c]" "[]"]
    by (simp add: parseIPv4_def v4_string_def ip parse_v4_octet le)
qed

lemma v4_string_chars: "c \<in> set (v4_string ip) \<Longrightarrow> is_digit c \<or> c = CHR ''.''"
  by (auto simp: v4_string_def dest: dash_not_in_itoa)

lemma v4_string_tok: "list_all tok_char (v4_string ip)"
  by (auto simp: list_all_iff dest!: v4_string_chars intro: is_digit_tok) (simp add: tok_char_def)

lemma v4_string_not_Nil [simp]: "v4_string ip \<noteq> []"
  by (simp add: v4_string_def)

text \<open>The first of the characters by which \<open>ParseAddr\<close> decides is a dot.\<close>

lemma find_digits: "list_all is_digit ds \<Longrightarrow> List.find (\<lambda>c. c \<in> {CHR ''.'', CHR '':'', CHR ''%''}) (ds @ s) =
    List.find (\<lambda>c. c \<in> {CHR ''.'', CHR '':'', CHR ''%''}) s"
  by (induction ds) (auto simp: is_digit_def)

lemma find_v4: "List.find (\<lambda>c. c \<in> {CHR ''.'', CHR '':'', CHR ''%''}) (v4_string ip) = Some CHR ''.''"
  using find_digits [OF itoa_digits] by (simp add: v4_string_def)

lemma ParseIP_v4_string: "length ip = 4 \<Longrightarrow> ParseIP (v4_string ip) = Some (v4_mapped ip)"
  using find_v4 [of ip] by (simp add: ParseIP_def parseIPv4_v4_string)

lemma slash_not_in_v4: "CHR ''/'' \<notin> set (v4_string ip)"
  by (auto dest!: v4_string_chars simp: is_digit_def)

lemma ParseCIDR_host: "ParseCIDR (v4_string ip) = None"
  by (simp add: ParseCIDR_def slash_not_in_v4)

lemma ParseCIDR_v4:
  assumes "length ip = 4" and "n \<le> 32"
  shows "ParseCIDR (v4_string ip @ CHR ''/'' # itoa n) = Some \<lparr>net_IP = map2 (AND) ip (CIDRMask n 32), net_Mask = CIDRMask n 32\<rparr>"
proof -
  have ne: "c \<in> set (v4_string ip) \<Longrightarrow> c \<noteq> CHR ''/''" for c using slash_not_in_v4 [of ip] by blast
  have "takeWhile (\<lambda>c. c \<noteq> CHR ''/'') (v4_string ip @ CHR ''/'' # itoa n) = v4_string ip"
    "dropWhile (\<lambda>c. c \<noteq> CHR ''/'') (v4_string ip @ CHR ''/'' # itoa n) = CHR ''/'' # itoa n"
    using ne by (simp_all add: takeWhile_append2 dropWhile_append2)
  then show ?thesis using assms find_v4 [of ip]
    by (simp add: ParseCIDR_def parseIPv4_v4_string itoa_digits atoi_itoa Let_def)
qed

text \<open>Masks have as many bytes as the address.\<close>

lemma length_CIDRMask [simp]: "length (CIDRMask n b) = b div 8"
  by (simp add: CIDRMask_def)

lemma expand_ellipsis_length: "expand_ellipsis ip e = Some x \<Longrightarrow> length ip \<le> 16 \<Longrightarrow> length x = 16"
  by (auto simp: expand_ellipsis_def split: option.splits if_splits)

lemma parse_v4_loop_length: "parse_v4_loop prev fs v k s = Some x \<Longrightarrow> length fs \<le> 3 \<Longrightarrow> length x = 4"
  by (induction prev fs v k s rule: parse_v4_loop.induct) (auto split: if_splits)

lemma parseIPv4_length: "parseIPv4 s = Some ip \<Longrightarrow> length ip = 4"
  by (auto simp: parseIPv4_def dest: parse_v4_loop_length)


declare parse_v6_loop.simps [simp del]

lemma parse_v6_loop_length: "parse_v6_loop f ip e s = Some x \<Longrightarrow> even (length ip) \<Longrightarrow> length ip \<le> 16 \<Longrightarrow> length x = 16"
proof (induction f arbitrary: ip e s)
  case 0
  then show ?case by (subst (asm) parse_v6_loop.simps) (auto split: if_splits dest: expand_ellipsis_length)
next
  case (Suc f)
  show ?case
  proof (cases "length ip \<ge> 16")
    case True
    then show ?thesis using Suc.prems
      by (subst (asm) parse_v6_loop.simps) (auto split: if_splits dest: expand_ellipsis_length)
  next
    case False
    then have l: "length ip \<le> 14" using Suc.prems(2) by (auto elim!: evenE)
    have next': "length x = 16" if "parse_v6_loop f (ip @ [a, b]) e' s' = Some x" for a b e' s'
      using Suc.IH [OF that] Suc.prems(2) l by simp
    have ends: "length x = 16" if "expand_ellipsis (ip @ [a, b]) e' = Some x" for a b e'
      using expand_ellipsis_length [OF that] l by simp
    show ?thesis using Suc.prems(1) False next' ends
      by (subst (asm) parse_v6_loop.simps)
        (auto split: if_splits option.splits list.splits prod.splits simp: Let_def
          dest!: parseIPv4_length dest: expand_ellipsis_length)
  qed
qed

lemma parseIPv6_length: "parseIPv6 s = Some ip \<Longrightarrow> length ip = 16"
  by (auto simp: parseIPv6_def dest: parse_v6_loop_length split: if_splits)

end
