(* ===== verification/Upf_Flow_Desc.thy ===== *)
theory Upf_Flow_Desc
  imports Go_Text
begin

unbundle bit_operations_syntax

text \<open>
  Flow descriptions, \<open>NFs/upf/internal/forwarder/flowdesc.go\<close>: the IP filter rules of a packet detection rule as text.
  \<open>ParseFlowDesc\<close> works on the fields of the text one after another, as the source does with \<open>pos\<close>. A rule of the
  grammar in the source is \<open>flow_rule\<close>, and \<open>print_rule\<close> its text.
\<close>

section \<open>The parser\<close>

record FlowDesc =
  fd_Action :: string
  fd_Dir :: string
  fd_Proto :: u8
  fd_Src :: IPNet
  fd_Dst :: IPNet
  fd_SrcPorts :: "u16 list list"
  fd_DstPorts :: "u16 list list"

datatype flow_error =
  TooFewFields nat
| UnknownAction string
| UnknownDirection string
| InvalidNumber string
| NotFrom
| NotTo
| InvalidAddress string

definition ParseFlowDescIPNet :: "string \<Rightarrow> IPNet option" where
  "ParseFlowDescIPNet s =
     (if s = ''any'' \<or> s = ''assigned'' then Some \<lparr>net_IP = replicate 16 0, net_Mask = CIDRMask 0 128\<rparr>
      else case ParseCIDR s of
             Some ipnet \<Rightarrow> Some ipnet
           | None \<Rightarrow>
               (case ParseIP s of
                  None \<Rightarrow> None
                | Some ip \<Rightarrow>
                    let ip' = (case To4 ip of Some v4 \<Rightarrow> v4 | None \<Rightarrow> ip); n = length ip' * 8
                    in Some \<lparr>net_IP = ip', net_Mask = CIDRMask n n\<rparr>))"

definition parse_port :: "string \<Rightarrow> u16 list option" where
  "parse_port port =
     (case SplitN2 CHR ''-'' port of
        [v] \<Rightarrow> map_option (\<lambda>v. [of_nat v]) (ParseUint 16 v)
      | [s, e] \<Rightarrow>
          (case ParseUint 16 s of
             None \<Rightarrow> None
           | Some start \<Rightarrow> map_option (\<lambda>e. [of_nat start, of_nat e]) (ParseUint 16 e))
      | _ \<Rightarrow> None)"

fun parse_ports :: "string list \<Rightarrow> u16 list list option" where
  "parse_ports [] = Some []"
| "parse_ports (port # rest) =
     (case parse_port port of
        None \<Rightarrow> None
      | Some v \<Rightarrow> map_option ((#) v) (parse_ports rest))"

definition ParseFlowDescPorts :: "string \<Rightarrow> u16 list list option" where
  "ParseFlowDescPorts s = parse_ports (Split CHR '','' s)"

definition parse_proto :: "string \<Rightarrow> u8 option" where
  "parse_proto t = (if t = ''ip'' then Some 0xff else map_option of_nat (ParseUint 8 t))"

text \<open>The source and its ports, up to \<open>to\<close>: an unreadable port list leaves its field for the next check.\<close>

definition parse_src :: "nat \<Rightarrow> string list \<Rightarrow> flow_error + (IPNet \<times> u16 list list \<times> string list)" where
  "parse_src n ts =
     (case ts of
        [] \<Rightarrow> Inl (TooFewFields n)
      | a # ts1 \<Rightarrow>
          (case ParseFlowDescIPNet a of
             None \<Rightarrow> Inl (InvalidAddress a)
           | Some src \<Rightarrow>
               (case ts1 of
                  [] \<Rightarrow> Inl (TooFewFields n)
                | p # ts2 \<Rightarrow>
                    Inr (case ParseFlowDescPorts p of
                           Some sports \<Rightarrow> (src, sports, ts2)
                         | None \<Rightarrow> (src, [], ts1)))))"

text \<open>The destination: an unreadable port list, and whatever follows it, is ignored.\<close>

definition parse_dst :: "nat \<Rightarrow> string list \<Rightarrow> flow_error + (IPNet \<times> u16 list list)" where
  "parse_dst n ts =
     (case ts of
        [] \<Rightarrow> Inl (TooFewFields n)
      | t # ts1 \<Rightarrow>
          if t \<noteq> ''to'' then Inl NotTo
          else (case ts1 of
             [] \<Rightarrow> Inl (TooFewFields n)
           | a # ts2 \<Rightarrow>
               (case ParseFlowDescIPNet a of
                  None \<Rightarrow> Inl (InvalidAddress a)
                | Some dst \<Rightarrow>
                    Inr (dst,
                      (case ts2 of
                         [] \<Rightarrow> []
                       | p # _ \<Rightarrow> (case ParseFlowDescPorts p of Some dports \<Rightarrow> dports | None \<Rightarrow> []))))))"

definition ParseFlowDesc :: "string \<Rightarrow> flow_error + FlowDesc" where
  "ParseFlowDesc s =
     (let token = Fields s; few = Inl (TooFewFields (length token))
      in case token of
           [] \<Rightarrow> few
         | act # ts1 \<Rightarrow>
             if act \<noteq> ''permit'' then Inl (UnknownAction act)
             else (case ts1 of
                [] \<Rightarrow> few
              | dir # ts2 \<Rightarrow>
                  if dir \<noteq> ''in'' \<and> dir \<noteq> ''out'' then Inl (UnknownDirection dir)
                  else (case ts2 of
                     [] \<Rightarrow> few
                   | pr # ts3 \<Rightarrow>
                       (case parse_proto pr of
                          None \<Rightarrow> Inl (InvalidNumber pr)
                        | Some proto \<Rightarrow>
                            (case ts3 of
                               [] \<Rightarrow> few
                             | f # ts4 \<Rightarrow>
                                 if f \<noteq> ''from'' then Inl NotFrom
                                 else (case parse_src (length token) ts4 of
                                    Inl e \<Rightarrow> Inl e
                                  | Inr (src, sports, ts5) \<Rightarrow>
                                      (case parse_dst (length token) ts5 of
                                         Inl e \<Rightarrow> Inl e
                                       | Inr (dst, dports) \<Rightarrow>
                                           Inr \<lparr>fd_Action = act, fd_Dir = dir, fd_Proto = proto, fd_Src = src,
                                             fd_Dst = dst, fd_SrcPorts = sports, fd_DstPorts = dports\<rparr>)))))))"

section \<open>What is accepted\<close>

text \<open>A network: a mask as long as the address, and no address bit outside the mask. A port entry is one port or a range.\<close>

definition net_ok :: "IPNet \<Rightarrow> bool" where
  "net_ok n \<longleftrightarrow> length (net_IP n) \<in> {4, 16} \<and> length (net_Mask n) = length (net_IP n)
     \<and> map2 (AND) (net_IP n) (net_Mask n) = net_IP n"

definition ports_ok :: "u16 list list \<Rightarrow> bool" where
  "ports_ok ps \<longleftrightarrow> (\<forall>p\<in>set ps. length p \<in> {1, 2})"

definition flow_ok :: "FlowDesc \<Rightarrow> bool" where
  "flow_ok fd \<longleftrightarrow> fd_Action fd = ''permit'' \<and> (fd_Dir fd = ''in'' \<or> fd_Dir fd = ''out'')
     \<and> net_ok (fd_Src fd) \<and> net_ok (fd_Dst fd) \<and> ports_ok (fd_SrcPorts fd) \<and> ports_ok (fd_DstPorts fd)"

lemma map2_and_idem: "length m = length a \<Longrightarrow> map2 (AND) (map2 (AND) a m) m = map2 (AND) (a :: bytes) m"
  by (induction a m rule: list_induct2') (simp_all add: and.assoc)

lemma ParseCIDR_ok: "ParseCIDR s = Some n \<Longrightarrow> net_ok n"
  by (auto simp: ParseCIDR_def net_ok_def Let_def map2_and_idem split: if_splits option.splits
      dest!: parseIPv4_length parseIPv6_length)

lemma full_mask: "CIDRMask (8 * n) (8 * n) = replicate n 0xff"
  by (auto simp: CIDRMask_def list_eq_iff_nth_eq)

lemma and_full_mask: "map2 (AND) a (replicate (length a) 0xff) = (a :: bytes)"
proof (induction a)
  case (Cons x a)
  have "x AND 0xff = x"
  proof -
    have "(0xff :: u8) = - 1" by simp
    then show ?thesis by (metis and.right_neutral)
  qed
  then show ?case using Cons by simp
qed simp

lemma ParseIP_length: "ParseIP s = Some ip \<Longrightarrow> length ip = 16"
  by (auto simp: ParseIP_def v4_mapped_def split: option.splits if_splits dest!: parseIPv4_length parseIPv6_length)

lemma To4_length: "To4 ip = Some v \<Longrightarrow> length v = 4"
  by (auto simp: To4_def split: if_splits)

lemma host_ok: "length ip \<in> {4, 16} \<Longrightarrow> net_ok \<lparr>net_IP = ip, net_Mask = CIDRMask (length ip * 8) (length ip * 8)\<rparr>"
  using full_mask [of "length ip"] and_full_mask [of ip] by (auto simp: net_ok_def mult.commute)

lemma any_ok: "net_ok \<lparr>net_IP = replicate 16 0, net_Mask = CIDRMask 0 128\<rparr>"
  by (auto simp: net_ok_def list_eq_iff_nth_eq)

lemma ParseFlowDescIPNet_ok: "ParseFlowDescIPNet s = Some n \<Longrightarrow> net_ok n"
  by (auto simp: ParseFlowDescIPNet_def Let_def split: if_splits option.splits
      intro: ParseCIDR_ok host_ok any_ok dest: ParseIP_length To4_length)

lemma parse_port_ok: "parse_port p = Some v \<Longrightarrow> length v \<in> {1, 2}"
  by (auto simp: parse_port_def split: list.splits option.splits)

lemma parse_ports_ok: "parse_ports ps = Some v \<Longrightarrow> ports_ok v"
  by (induction ps arbitrary: v) (use parse_port_ok in \<open>force simp: ports_ok_def split: option.splits\<close>)+

lemma ParseFlowDescPorts_ok: "ParseFlowDescPorts s = Some v \<Longrightarrow> ports_ok v"
  by (auto simp: ParseFlowDescPorts_def dest: parse_ports_ok)

lemma no_ports_ok [simp]: "ports_ok []"
  by (simp add: ports_ok_def)

lemma parse_src_ok: "parse_src n ts = Inr (src, ps, ts') \<Longrightarrow> net_ok src \<and> ports_ok ps"
  by (auto simp: parse_src_def split: list.splits option.splits dest: ParseFlowDescIPNet_ok ParseFlowDescPorts_ok)

lemma parse_dst_ok: "parse_dst n ts = Inr (dst, ps) \<Longrightarrow> net_ok dst \<and> ports_ok ps"
  by (auto simp: parse_dst_def split: list.splits option.splits if_splits
      dest: ParseFlowDescIPNet_ok ParseFlowDescPorts_ok)

section \<open>Rules as text\<close>

text \<open>The grammar of the source, for IPv4: host addresses and networks, ports and port ranges.\<close>

datatype flow_addr =
  FAny
| FAssigned
| FHost bytes
| FNet bytes nat

datatype flow_port =
  FPort u16
| FRange u16 u16

record flow_rule =
  fr_permit :: bool
  fr_in :: bool
  fr_proto :: "u8 option"
  fr_src :: flow_addr
  fr_sports :: "flow_port list"
  fr_dst :: flow_addr
  fr_dports :: "flow_port list"

fun print_addr :: "flow_addr \<Rightarrow> string" where
  "print_addr FAny = ''any''"
| "print_addr FAssigned = ''assigned''"
| "print_addr (FHost ip) = v4_string ip"
| "print_addr (FNet ip n) = v4_string ip @ CHR ''/'' # itoa n"

fun print_port :: "flow_port \<Rightarrow> string" where
  "print_port (FPort p) = itoa (unat p)"
| "print_port (FRange p q) = itoa (unat p) @ CHR ''-'' # itoa (unat q)"

definition print_ports :: "flow_port list \<Rightarrow> string list" where
  "print_ports ps = (if ps = [] then [] else [join '','' (map print_port ps)])"

definition rule_tokens :: "flow_rule \<Rightarrow> string list" where
  "rule_tokens r =
     [if fr_permit r then ''permit'' else ''deny'', if fr_in r then ''in'' else ''out'',
      case fr_proto r of None \<Rightarrow> ''ip'' | Some p \<Rightarrow> itoa (unat p), ''from'', print_addr (fr_src r)]
     @ print_ports (fr_sports r) @ [''to'', print_addr (fr_dst r)] @ print_ports (fr_dports r)"

definition print_rule :: "flow_rule \<Rightarrow> string" where
  "print_rule r = join '' '' (rule_tokens r)"

text \<open>What a rule means.\<close>

fun addr_ok :: "flow_addr \<Rightarrow> bool" where
  "addr_ok (FHost ip) \<longleftrightarrow> length ip = 4"
| "addr_ok (FNet ip n) \<longleftrightarrow> length ip = 4 \<and> n \<le> 32"
| "addr_ok _ \<longleftrightarrow> True"

fun addr_net :: "flow_addr \<Rightarrow> IPNet" where
  "addr_net (FHost ip) = \<lparr>net_IP = ip, net_Mask = replicate 4 0xff\<rparr>"
| "addr_net (FNet ip n) = \<lparr>net_IP = map2 (AND) ip (CIDRMask n 32), net_Mask = CIDRMask n 32\<rparr>"
| "addr_net _ = \<lparr>net_IP = replicate 16 0, net_Mask = replicate 16 0\<rparr>"

fun port_vals :: "flow_port \<Rightarrow> u16 list" where
  "port_vals (FPort p) = [p]"
| "port_vals (FRange p q) = [p, q]"

definition rule_desc :: "flow_rule \<Rightarrow> FlowDesc" where
  "rule_desc r =
     \<lparr>fd_Action = ''permit'', fd_Dir = (if fr_in r then ''in'' else ''out''),
      fd_Proto = (case fr_proto r of None \<Rightarrow> 0xff | Some p \<Rightarrow> p),
      fd_Src = addr_net (fr_src r), fd_Dst = addr_net (fr_dst r),
      fd_SrcPorts = map port_vals (fr_sports r), fd_DstPorts = map port_vals (fr_dports r)\<rparr>"

subsection \<open>Ports\<close>

lemma unat_bound: "unat (p :: u16) < 2 ^ 16" "unat (b :: u8) < 2 ^ 8"
proof -
  have "unat p < 2 ^ LENGTH(16)" "unat b < 2 ^ LENGTH(8)" by (rule unsigned_less)+
  then show "unat p < 2 ^ 16" "unat b < 2 ^ 8" by simp_all
qed

lemma dash_not_digit [simp]: "\<not> is_digit CHR ''-''" "\<not> is_digit CHR '',''" "\<not> is_digit CHR ''t''"
  by (simp_all add: is_digit_def)

lemma SplitN2_itoa: "SplitN2 CHR ''-'' (itoa n) = [itoa n]"
  by (simp add: SplitN2_def not_in_itoa)

lemma parse_port_print: "parse_port (print_port p) = Some (port_vals p)"
  by (cases p) (simp_all add: parse_port_def SplitN2_itoa SplitN2_pair not_in_itoa ParseUint_itoa [OF unat_bound(1)])

lemma parse_ports_print: "parse_ports (map print_port ps) = Some (map port_vals ps)"
  by (induction ps) (simp_all add: parse_port_print)

lemma comma_not_in_port: "CHR '','' \<notin> set (print_port p)"
  by (cases p) (auto simp: not_in_itoa)

lemma ParseFlowDescPorts_print:
  "ps \<noteq> [] \<Longrightarrow> ParseFlowDescPorts (join '','' (map print_port ps)) = Some (map port_vals ps)"
  by (simp add: ParseFlowDescPorts_def Split_join comma_not_in_port parse_ports_print)

lemma ParseFlowDescPorts_to: "ParseFlowDescPorts ''to'' = None"
  by (simp add: ParseFlowDescPorts_def parse_port_def SplitN2_def ParseUint_def)

subsection \<open>Addresses\<close>

lemma v4_not_word: "v4_string ip \<noteq> ''any''" "v4_string ip \<noteq> ''assigned''"
  "v4_string ip @ s \<noteq> ''any''" "v4_string ip @ s \<noteq> ''assigned''"
proof -
  have "hd (v4_string ip @ s) \<noteq> CHR ''a''" for s
    using v4_string_chars [of "hd (v4_string ip)" ip] by (auto simp: is_digit_def)
  then show "v4_string ip \<noteq> ''any''" "v4_string ip \<noteq> ''assigned''"
    "v4_string ip @ s \<noteq> ''any''" "v4_string ip @ s \<noteq> ''assigned''"
    by (metis append_Nil2 list.sel(1))+
qed

lemma To4_mapped: "length ip = 4 \<Longrightarrow> To4 (v4_mapped ip) = Some ip"
  by (simp add: To4_def v4_mapped_def)

lemma zero_mask: "CIDRMask 0 128 = replicate 16 0"
  by (simp add: CIDRMask_def list_eq_iff_nth_eq)

lemma ParseFlowDescIPNet_print: "addr_ok a \<Longrightarrow> ParseFlowDescIPNet (print_addr a) = Some (addr_net a)"
  using full_mask [of 4]
  by (cases a) (simp_all add: ParseFlowDescIPNet_def zero_mask v4_not_word ParseCIDR_host ParseIP_v4_string To4_mapped
      ParseCIDR_v4)

subsection \<open>Fields\<close>

lemma print_addr_tok: "print_addr a \<noteq> [] \<and> list_all tok_char (print_addr a)"
  by (cases a) (simp_all add: v4_string_tok itoa_tok, simp_all add: tok_char_def)

lemma print_port_tok: "print_port p \<noteq> [] \<and> list_all tok_char (print_port p)"
  by (cases p) (simp_all add: itoa_tok, simp_all add: tok_char_def)

lemma join_tok: "list_all tok_char sep \<Longrightarrow> \<forall>t\<in>set ts. t \<noteq> [] \<and> list_all tok_char t \<Longrightarrow> ts \<noteq> [] \<Longrightarrow>
    join sep ts \<noteq> [] \<and> list_all tok_char (join sep ts)"
  by (induction sep ts rule: join.induct) auto

lemma print_ports_tok: "t \<in> set (print_ports ps) \<Longrightarrow> t \<noteq> [] \<and> list_all tok_char t"
  using join_tok [of "'',''" "map print_port ps"] print_port_tok
  by (auto simp: print_ports_def tok_char_def split: if_splits)

lemma keyword_tok:
  "list_all tok_char ''permit''" "list_all tok_char ''deny''" "list_all tok_char ''in''" "list_all tok_char ''out''"
  "list_all tok_char ''ip''" "list_all tok_char ''from''" "list_all tok_char ''to''"
  by (simp_all add: tok_char_def)

lemma rule_tokens_tok: "\<forall>t\<in>set (rule_tokens r). t \<noteq> [] \<and> list_all tok_char t"
proof -
  have "(case fr_proto r of None \<Rightarrow> ''ip'' | Some p \<Rightarrow> itoa (unat p)) \<noteq> []"
    "list_all tok_char (case fr_proto r of None \<Rightarrow> ''ip'' | Some p \<Rightarrow> itoa (unat p))"
    using keyword_tok(5) by (simp_all add: itoa_tok del: list.pred_inject split: option.split)
  then show ?thesis
    using print_ports_tok print_addr_tok
    by (simp add: rule_tokens_def keyword_tok ball_Un del: list.pred_inject)
qed

lemma Fields_print: "Fields (print_rule r) = rule_tokens r"
  unfolding print_rule_def by (rule Fields_join) (rule rule_tokens_tok)

lemma parse_proto_print: "parse_proto (case p of None \<Rightarrow> ''ip'' | Some p \<Rightarrow> itoa (unat p)) = Some (case p of None \<Rightarrow> 0xff | Some p \<Rightarrow> p)"
proof (cases p)
  case (Some b)
  have "itoa (unat b) \<noteq> ''ip''" using itoa_digits [of "unat b"] by (auto simp: is_digit_def)
  then show ?thesis using Some by (simp add: parse_proto_def ParseUint_itoa [OF unat_bound(2)])
qed (simp add: parse_proto_def)

lemma parse_dst_print:
  "addr_ok a \<Longrightarrow> parse_dst n (''to'' # print_addr a # print_ports ps) = Inr (addr_net a, map port_vals ps)"
  by (simp add: parse_dst_def ParseFlowDescIPNet_print print_ports_def ParseFlowDescPorts_print)

lemma parse_src_print:
  "addr_ok a \<Longrightarrow> parse_src n (print_addr a # print_ports ps @ ''to'' # ts) = Inr (addr_net a, map port_vals ps, ''to'' # ts)"
  by (simp add: parse_src_def ParseFlowDescIPNet_print print_ports_def ParseFlowDescPorts_print ParseFlowDescPorts_to)

lemma ParseFlowDesc_rule:
  assumes "addr_ok (fr_src r)" and "addr_ok (fr_dst r)"
  shows "ParseFlowDesc (print_rule r) = (if fr_permit r then Inr (rule_desc r) else Inl (UnknownAction ''deny''))"
  using assms
  by (simp add: ParseFlowDesc_def Fields_print rule_tokens_def parse_proto_print parse_src_print parse_dst_print rule_desc_def)

definition demo_rule :: flow_rule where
  "demo_rule = \<lparr>fr_permit = True, fr_in = False, fr_proto = Some 17, fr_src = FNet [10, 1, 2, 3] 8,
     fr_sports = [FPort 80, FRange 100 200], fr_dst = FAny, fr_dports = []\<rparr>"

section \<open>Properties\<close>

text \<open>Printing a rule of the grammar and parsing it gives the rule back. For every rule with IPv4 addresses, networks of
  at most 32 bits, any protocol number and any lists of ports and ranges, \<open>ParseFlowDesc\<close> reads the text of a \<open>permit\<close>
  rule as exactly its direction, protocol, networks and ports; the text of a \<open>deny\<close> rule, which the grammar in the
  comment of the source allows, is refused as an unknown action.\<close>

theorem ParseFlowDesc_print:
  assumes "addr_ok (fr_src r)" and "addr_ok (fr_dst r)"
  shows "ParseFlowDesc (print_rule r) = (if fr_permit r then Inr (rule_desc r) else Inl (UnknownAction ''deny''))"
  using assms by (rule ParseFlowDesc_rule)

lemma ParseFlowDesc_print_witness:
  "ParseFlowDesc (print_rule demo_rule) = Inr (rule_desc demo_rule)
   \<and> ParseFlowDesc (print_rule (demo_rule\<lparr>fr_permit := False\<rparr>)) = Inl (UnknownAction ''deny'')"
  using ParseFlowDesc_print [of demo_rule] ParseFlowDesc_print [of "demo_rule\<lparr>fr_permit := False\<rparr>"]
  by (simp add: demo_rule_def)

text \<open>C24: Whatever text is accepted, the result is well formed. The action is \<open>permit\<close>, the direction \<open>in\<close> or \<open>out\<close>;
  source and destination are networks whose mask has the length of the address, four or sixteen bytes, and covers all its
  bits; every entry of a port list is one port or a pair, as the code that hands the ports to the kernel requires.\<close>

theorem ParseFlowDesc_ok:
  assumes "ParseFlowDesc s = Inr fd"
  shows "flow_ok fd"
  using assms
  by (auto simp: ParseFlowDesc_def flow_ok_def Let_def split: list.splits if_splits option.splits sum.splits prod.splits
      dest: parse_src_ok parse_dst_ok)

lemma ParseFlowDesc_ok_witness:
  "ParseFlowDesc (print_rule demo_rule) = Inr (rule_desc demo_rule) \<and> flow_ok (rule_desc demo_rule)"
proof -
  have p: "ParseFlowDesc (print_rule demo_rule) = Inr (rule_desc demo_rule)"
    using ParseFlowDesc_rule [of demo_rule] by (simp add: demo_rule_def)
  show ?thesis using p ParseFlowDesc_ok [OF p] by simp
qed

end
