(* ===== verification/Upf_Gtp5g.thy ===== *)
theory Upf_Gtp5g
  imports Upf_Plan Upf_Flow_Desc
begin

unbundle bit_operations_syntax

text \<open>
  The forwarder for the kernel module gtp5g, \<open>NFs/upf/internal/forwarder/gtp5g.go\<close>, first part: the \<open>Build*Plan\<close>
  methods, which turn the information elements of a request into netlink attributes before anything is executed.

  The accessors of go-pfcp and the parser of free5gc/util that only this file calls are the fields of \<open>pfcp_ies\<close>; it
  holds the accessors that other files call, \<open>ie_api\<close>, as a field. The constants of go-gtp5gnl that appear as values are
  fields too; attribute types are named by the constant. Results are of type \<open>gores\<close>: an index out of range in
  \<open>newSdfFilter\<close> would be a panic.
\<close>

section \<open>The elements\<close>

record SDFFilterFields =
  sdf_HasFD :: bool
  sdf_HasTTC :: bool
  sdf_HasSPI :: bool
  sdf_HasFL :: bool
  sdf_HasBID :: bool
  sdf_FlowDescription :: string
  sdf_ID :: u32

record OuterHeaderCreationFields =
  ohc_Description :: u16
  ohc_HasTEID :: bool
  ohc_HasIPv4 :: bool
  ohc_TEID :: u32
  ohc_PortNumber :: u16
  ohc_IPv4Address :: bytes

record VolumeFields =
  vf_Flags :: u8
  vf_HasTOVOL :: bool
  vf_HasULVOL :: bool
  vf_HasDLVOL :: bool
  vf_TotalVolume :: u64
  vf_UplinkVolume :: u64
  vf_DownlinkVolume :: u64

record 'ie pfcp_ies =
  base_api :: "'ie ie_api"
  ie_Payload :: "'ie \<Rightarrow> bytes"
  ie_SourceInterface :: "'ie \<Rightarrow> u8 option"
  ie_FTEID :: "'ie \<Rightarrow> (u32 \<times> bytes) option"
  ie_SDFFilter :: "'ie \<Rightarrow> SDFFilterFields option"
  ie_ForwardingPolicyIdentifier :: "'ie \<Rightarrow> string option"
  ie_PFCPSMReqFlags :: "'ie \<Rightarrow> u8 option"
  ParseOuterHeaderCreation :: "bytes \<Rightarrow> OuterHeaderCreationFields option"
  ie_VolumeThreshold :: "'ie \<Rightarrow> VolumeFields option"
  ie_VolumeQuota :: "'ie \<Rightarrow> VolumeFields option"
  ie_Precedence :: "'ie \<Rightarrow> u32 option"
  ie_OuterHeaderRemovalDescription :: "'ie \<Rightarrow> u8 option"
  ie_UpdatePDR :: "'ie \<Rightarrow> 'ie list option"
  ie_CreateFAR :: "'ie \<Rightarrow> 'ie list option"
  ie_UpdateFAR :: "'ie \<Rightarrow> 'ie list option"
  ie_CreateQER :: "'ie \<Rightarrow> 'ie list option"
  ie_UpdateQER :: "'ie \<Rightarrow> 'ie list option"
  ie_CreateURR :: "'ie \<Rightarrow> 'ie list option"
  ie_UpdateURR :: "'ie \<Rightarrow> 'ie list option"
  ie_CreateBAR :: "'ie \<Rightarrow> 'ie list option"
  ie_UpdateBAR :: "'ie \<Rightarrow> 'ie list option"
  ie_ApplyAction :: "'ie \<Rightarrow> bytes option"
  ie_ForwardingParameters :: "'ie \<Rightarrow> 'ie list option"
  ie_UpdateForwardingParameters :: "'ie \<Rightarrow> 'ie list option"
  ie_QERCorrelationID :: "'ie \<Rightarrow> u32 option"
  ie_GateStatus :: "'ie \<Rightarrow> u8 option"
  ie_MBRUL :: "'ie \<Rightarrow> u64 option"
  ie_MBRDL :: "'ie \<Rightarrow> u64 option"
  ie_GBRUL :: "'ie \<Rightarrow> u64 option"
  ie_GBRDL :: "'ie \<Rightarrow> u64 option"
  ie_QFI :: "'ie \<Rightarrow> u8 option"
  ie_RQI :: "'ie \<Rightarrow> u8 option"
  ie_PagingPolicyIndicator :: "'ie \<Rightarrow> u8 option"
  ie_MeasurementMethod :: "'ie \<Rightarrow> u8 option"
  ie_ReportingTriggers :: "'ie \<Rightarrow> bytes option"
  ie_MeasurementPeriod :: "'ie \<Rightarrow> int option"
  ie_MeasurementInformation :: "'ie \<Rightarrow> nat option"
  ie_DownlinkDataNotificationDelay :: "'ie \<Rightarrow> int option"
  ie_SuggestedBufferingPacketsCount :: "'ie \<Rightarrow> nat option"
  SDF_FILTER_PERMIT :: u8
  SDF_FILTER_IN :: u8
  SDF_FILTER_OUT :: u8
  PdrAddrForNetlink :: string

text \<open>A duration is a number of nanoseconds. \<open>SrcInterfaceAccess\<close> is the value of TS 29.244, clause 8.2.2.\<close>

definition SrcInterfaceAccess :: u8 where
  "SrcInterfaceAccess = 0"

definition UpfGtpDefaultPort :: u16 where
  "UpfGtpDefaultPort = 2152"

section \<open>Packet filters\<close>

text \<open>A port entry is written as a native word, little-endian: the start of the range in its upper half.\<close>

definition convert_port :: "u16 list \<Rightarrow> bytes" where
  "convert_port p =
     le32 (case p of
             [a] \<Rightarrow> push_bit 16 (ucast a) OR ucast a
           | [a, b] \<Rightarrow> push_bit 16 (ucast a) OR ucast b
           | _ \<Rightarrow> 0)"

definition convertSlice :: "u16 list list \<Rightarrow> bytes" where
  "convertSlice ports = concat (map convert_port ports)"

definition newFlowDesc :: "'ie pfcp_ies \<Rightarrow> string \<Rightarrow> bool \<Rightarrow> attrs option" where
  "newFlowDesc api s swapSrcDst =
     (case ParseFlowDesc s of
        Inl _ \<Rightarrow> None
      | Inr fd0 \<Rightarrow>
          let fd = (if swapSrcDst
                    then fd0\<lparr>fd_Src := fd_Dst fd0, fd_Dst := fd_Src fd0, fd_SrcPorts := fd_DstPorts fd0,
                           fd_DstPorts := fd_SrcPorts fd0\<rparr>
                    else fd0)
          in if fd_Action fd \<noteq> ''permit'' then None
             else if fd_Dir fd \<noteq> ''in'' \<and> fd_Dir fd \<noteq> ''out'' then None
             else Some
               [(''FLOW_DESCRIPTION_ACTION'', AttrU8 (SDF_FILTER_PERMIT api)),
                (''FLOW_DESCRIPTION_DIRECTION'',
                  AttrU8 (if fd_Dir fd = ''in'' then SDF_FILTER_IN api else SDF_FILTER_OUT api)),
                (''FLOW_DESCRIPTION_PROTOCOL'', AttrU8 (fd_Proto fd)),
                (''FLOW_DESCRIPTION_SRC_IPV4'', AttrBytes (net_IP (fd_Src fd))),
                (''FLOW_DESCRIPTION_SRC_MASK'', AttrBytes (net_Mask (fd_Src fd))),
                (''FLOW_DESCRIPTION_DEST_IPV4'', AttrBytes (net_IP (fd_Dst fd))),
                (''FLOW_DESCRIPTION_DEST_MASK'', AttrBytes (net_Mask (fd_Dst fd))),
                (''FLOW_DESCRIPTION_SRC_PORT'', AttrBytes (convertSlice (fd_SrcPorts fd))),
                (''FLOW_DESCRIPTION_DEST_PORT'', AttrBytes (convertSlice (fd_DstPorts fd)))])"

text \<open>The check of the length of the flow description; \<open>None\<close> is an index out of range.\<close>

definition sdf_length_ok :: "bytes \<Rightarrow> bool option" where
  "sdf_length_ok p =
     (if p = [] then None
      else if p ! 0 AND 1 = 0 then Some True
      else if length p < 4 then Some False
      else Some (unat (push_bit 8 (ucast (p ! 2)) OR ucast (p ! 3) :: u16) \<le> length p - 4))"

definition newSdfFilter :: "'ie pfcp_ies \<Rightarrow> 'ie \<Rightarrow> u8 \<Rightarrow> attrs gores" where
  "newSdfFilter api i srcIf =
     (case sdf_length_ok (ie_Payload api i) of
        None \<Rightarrow> Panic
      | Some False \<Rightarrow> Err
      | Some True \<Rightarrow>
          must (ie_SDFFilter api i) (\<lambda>v.
            gbind (if sdf_HasFD v
                   then must (newFlowDesc api (sdf_FlowDescription v) (srcIf = SrcInterfaceAccess))
                          (\<lambda>fd. Val [(''SDF_FILTER_FLOW_DESCRIPTION'', AttrList fd)])
                   else Val []) (\<lambda>attrs.
            Val (attrs
              @ (if sdf_HasTTC v then [(''SDF_FILTER_TOS_TRAFFIC_CLASS'', AttrU16 29)] else [])
              @ (if sdf_HasSPI v then [(''SDF_FILTER_SECURITY_PARAMETER_INDEX'', AttrU32 30)] else [])
              @ (if sdf_HasFL v then [(''SDF_FILTER_FLOW_LABEL'', AttrU32 31)] else [])
              @ (if sdf_HasBID v then [(''SDF_FILTER_SDF_FILTER_ID'', AttrU32 (sdf_ID v))] else [])))))"

text \<open>The first loop of \<open>newPdi\<close> gathers the attributes, the source interface and the filters.\<close>

definition pdi_ie :: "'ie pfcp_ies \<Rightarrow> 'ie \<Rightarrow> attrs \<times> u8 \<times> 'ie list \<Rightarrow> (attrs \<times> u8 \<times> 'ie list) gores" where
  "pdi_ie api x s =
     (case s of (attrs, srcIf, sdfIEs) \<Rightarrow>
       (case ie_Type (base_api api) x of
          T_SourceInterface \<Rightarrow>
            may (ie_SourceInterface api x) s (\<lambda>v. (attrs @ [(''PDI_SRC_INTF'', AttrU8 v)], v, sdfIEs))
        | T_FTEID \<Rightarrow>
            may (ie_FTEID api x) s (\<lambda>(teid, ip).
              (attrs @ [(''PDI_F_TEID'', AttrList [(''F_TEID_I_TEID'', AttrU32 teid),
                 (''F_TEID_GTPU_ADDR_IPV4'', AttrBytes ip)])], srcIf, sdfIEs))
        | T_UEIPAddress \<Rightarrow>
            may (ie_UEIPAddress (base_api api) x) s (\<lambda>ip.
              (attrs @ [(''PDI_UE_ADDR_IPV4'', AttrBytes ip)], srcIf, sdfIEs))
        | T_SDFFilter \<Rightarrow>
            if length (ie_Payload api x) < 3 then Err else Val (attrs, srcIf, sdfIEs @ [x])
        | _ \<Rightarrow> Val s))"

definition newPdi :: "'ie pfcp_ies \<Rightarrow> 'ie \<Rightarrow> attrs gores" where
  "newPdi api i =
     must (ie_PDI (base_api api) i) (\<lambda>ies.
       gbind (gloop (pdi_ie api) ies ([], 0, [])) (\<lambda>(attrs, srcIf, sdfIEs).
       gloop (\<lambda>x as. gbind (newSdfFilter api x srcIf) (\<lambda>v. Val (as @ [(''PDI_SDF_FILTER'', AttrList v)])))
         sdfIEs attrs))"

section \<open>PDR plans\<close>

type_synonym pdr_state = "u16 \<times> attrs \<times> u32 list"

definition pdi_attr :: "'ie pfcp_ies \<Rightarrow> 'ie \<Rightarrow> pdr_state \<Rightarrow> pdr_state gores" where
  "pdi_attr api i s =
     (case s of (pdrid, attrs, urrids) \<Rightarrow>
        gbind (newPdi api i) (\<lambda>v.
          Val (if v \<noteq> [] then (pdrid, attrs @ [(''PDR_PDI'', AttrList v)], urrids) else s)))"

definition create_pdr_ie :: "'ie pfcp_ies \<Rightarrow> 'ie \<Rightarrow> pdr_state \<Rightarrow> pdr_state gores" where
  "create_pdr_ie api i s =
     (case s of (pdrid, attrs, urrids) \<Rightarrow>
       (case ie_Type (base_api api) i of
          T_PDRID \<Rightarrow> must (ie_PDRID (base_api api) i) (\<lambda>v. Val (v, attrs, urrids))
        | T_Precedence \<Rightarrow>
            must (ie_Precedence api i) (\<lambda>v. Val (pdrid, attrs @ [(''PDR_PRECEDENCE'', AttrU32 v)], urrids))
        | T_PDI \<Rightarrow> pdi_attr api i s
        | T_OuterHeaderRemoval \<Rightarrow>
            must (ie_OuterHeaderRemovalDescription api i) (\<lambda>v.
              Val (pdrid, attrs @ [(''PDR_OUTER_HEADER_REMOVAL'', AttrU8 v)], urrids))
        | T_FARID \<Rightarrow>
            must (ie_FARID (base_api api) i) (\<lambda>v. Val (pdrid, attrs @ [(''PDR_FAR_ID'', AttrU32 v)], urrids))
        | T_QERID \<Rightarrow>
            may (ie_QERID (base_api api) i) s (\<lambda>v. (pdrid, attrs @ [(''PDR_QER_ID'', AttrU32 v)], urrids))
        | T_URRID \<Rightarrow>
            may (ie_URRID (base_api api) i) s (\<lambda>v.
              (pdrid, attrs @ [(''PDR_URR_ID'', AttrU32 v)], urrids @ [v]))
        | _ \<Rightarrow> Val s))"

definition gtp5g_BuildCreatePDRPlan :: "'ie pfcp_ies \<Rightarrow> nat \<Rightarrow> 'ie \<Rightarrow> 'ie PDRPlan gores" where
  "gtp5g_BuildCreatePDRPlan api lSeid req =
     must (ie_CreatePDR (base_api api) (Some req)) (\<lambda>ies.
       gbind (gloop (create_pdr_ie api) ies (0, [], [])) (\<lambda>(pdrid, attrs, urrids).
       Val \<lparr>pp_Op = OpCreate, pp_OID = [lSeid, unat pdrid],
         pp_Attrs = attrs @ [(''PDR_UNIX_SOCKET_PATH'', AttrString (PdrAddrForNetlink api))],
         pp_OriginalIE = Some req, pp_PDRID = pdrid, pp_URRIDs = urrids\<rparr>))"

definition update_pdr_ie :: "'ie pfcp_ies \<Rightarrow> 'ie \<Rightarrow> pdr_state \<Rightarrow> pdr_state gores" where
  "update_pdr_ie api i s =
     (case s of (pdrid, attrs, urrids) \<Rightarrow>
       (case ie_Type (base_api api) i of
          T_PDRID \<Rightarrow> must (ie_PDRID (base_api api) i) (\<lambda>v. Val (v, attrs, urrids))
        | T_Precedence \<Rightarrow>
            may (ie_Precedence api i) s (\<lambda>v. (pdrid, attrs @ [(''PDR_PRECEDENCE'', AttrU32 v)], urrids))
        | T_PDI \<Rightarrow> pdi_attr api i s
        | T_OuterHeaderRemoval \<Rightarrow>
            may (ie_OuterHeaderRemovalDescription api i) s (\<lambda>v.
              (pdrid, attrs @ [(''PDR_OUTER_HEADER_REMOVAL'', AttrU8 v)], urrids))
        | T_FARID \<Rightarrow>
            may (ie_FARID (base_api api) i) s (\<lambda>v. (pdrid, attrs @ [(''PDR_FAR_ID'', AttrU32 v)], urrids))
        | T_QERID \<Rightarrow>
            may (ie_QERID (base_api api) i) s (\<lambda>v. (pdrid, attrs @ [(''PDR_QER_ID'', AttrU32 v)], urrids))
        | T_URRID \<Rightarrow>
            may (ie_URRID (base_api api) i) s (\<lambda>v.
              (pdrid, attrs @ [(''PDR_URR_ID'', AttrU32 v)], urrids @ [v]))
        | _ \<Rightarrow> Val s))"

definition gtp5g_BuildUpdatePDRPlan :: "'ie pfcp_ies \<Rightarrow> nat \<Rightarrow> 'ie \<Rightarrow> 'ie PDRPlan gores" where
  "gtp5g_BuildUpdatePDRPlan api lSeid req =
     must (ie_UpdatePDR api req) (\<lambda>ies.
       gbind (gloop (update_pdr_ie api) ies (0, [], [])) (\<lambda>(pdrid, attrs, urrids).
       Val \<lparr>pp_Op = OpUpdate, pp_OID = [lSeid, unat pdrid], pp_Attrs = attrs,
         pp_OriginalIE = Some req, pp_PDRID = pdrid, pp_URRIDs = urrids\<rparr>))"

definition gtp5g_BuildRemovePDRPlan :: "'ie pfcp_ies \<Rightarrow> nat \<Rightarrow> 'ie \<Rightarrow> 'ie PDRPlan gores" where
  "gtp5g_BuildRemovePDRPlan api lSeid req =
     must (ie_PDRID (base_api api) req) (\<lambda>v.
       Val \<lparr>pp_Op = OpRemove, pp_OID = [lSeid, unat v], pp_Attrs = [],
         pp_OriginalIE = Some req, pp_PDRID = v, pp_URRIDs = []\<rparr>)"

section \<open>FAR plans\<close>

definition outer_header :: "OuterHeaderCreationFields \<Rightarrow> attrs" where
  "outer_header v =
     [(''OUTER_HEADER_CREATION_DESCRIPTION'', AttrU16 (ohc_Description v))]
     @ (if ohc_HasTEID v
        then [(''OUTER_HEADER_CREATION_O_TEID'', AttrU32 (ohc_TEID v)),
              (''OUTER_HEADER_CREATION_PORT'', AttrU16 UpfGtpDefaultPort)]
        else [(''OUTER_HEADER_CREATION_PORT'', AttrU16 (ohc_PortNumber v))])
     @ (if ohc_HasIPv4 v
        then [(''OUTER_HEADER_CREATION_PEER_ADDR_IPV4'', AttrBytes (ohc_IPv4Address v))] else [])"

definition fwd_param_ie :: "'ie pfcp_ies \<Rightarrow> 'ie \<Rightarrow> attrs \<Rightarrow> attrs" where
  "fwd_param_ie api x attrs =
     (case ie_Type (base_api api) x of
        T_OuterHeaderCreation \<Rightarrow>
          (case ParseOuterHeaderCreation api (ie_Payload api x) of
             None \<Rightarrow> attrs
           | Some v \<Rightarrow> attrs @ [(''FORWARDING_PARAMETER_OUTER_HEADER_CREATION'', AttrList (outer_header v))])
      | T_ForwardingPolicy \<Rightarrow>
          (case ie_ForwardingPolicyIdentifier api x of
             None \<Rightarrow> attrs
           | Some v \<Rightarrow> attrs @ [(''FORWARDING_PARAMETER_FORWARDING_POLICY'', AttrString v)])
      | T_PFCPSMReqFlags \<Rightarrow>
          (case ie_PFCPSMReqFlags api x of
             None \<Rightarrow> attrs
           | Some v \<Rightarrow> attrs @ [(''FORWARDING_PARAMETER_PFCPSM_REQ_FLAGS'', AttrU8 v)])
      | _ \<Rightarrow> attrs)"

definition newForwardingParameter :: "'ie pfcp_ies \<Rightarrow> 'ie list \<Rightarrow> attrs" where
  "newForwardingParameter api ies = fold (fwd_param_ie api) ies []"

type_synonym far_state = "u32 \<times> attrs \<times> ApplyAction option"

text \<open>\<open>params\<close> is the type of the element with the forwarding parameters, and its accessor.\<close>

definition far_ie :: "'ie pfcp_ies \<Rightarrow> ie_type \<times> ('ie \<Rightarrow> 'ie list option) \<Rightarrow> 'ie \<Rightarrow> far_state \<Rightarrow> far_state gores" where
  "far_ie api params i s =
     (case s of (farid, attrs, act) \<Rightarrow>
        if ie_Type (base_api api) i = T_FARID then
          must (ie_FARID (base_api api) i) (\<lambda>v. Val (v, attrs, act))
        else if ie_Type (base_api api) i = T_ApplyAction then
          must (ie_ApplyAction api i) (\<lambda>b.
          must (ApplyAction_Unmarshal b) (\<lambda>a.
            Val (farid, attrs @ [(''FAR_APPLY_ACTION'', AttrU16 (aa_Flags a))], Some a)))
        else if ie_Type (base_api api) i = fst params then
          must (snd params i) (\<lambda>xs.
            let v = newForwardingParameter api xs
            in Val (if v \<noteq> [] then (farid, attrs @ [(''FAR_FORWARDING_PARAMETER'', AttrList v)], act) else s))
        else if ie_Type (base_api api) i = T_BARID then
          may (ie_BARID (base_api api) i) s (\<lambda>v. (farid, attrs @ [(''FAR_BAR_ID'', AttrU8 v)], act))
        else Val s)"

definition gtp5g_BuildCreateFARPlan :: "'ie pfcp_ies \<Rightarrow> nat \<Rightarrow> 'ie \<Rightarrow> 'ie FARPlan gores" where
  "gtp5g_BuildCreateFARPlan api lSeid req =
     must (ie_CreateFAR api req) (\<lambda>ies.
       gbind (gloop (far_ie api (T_ForwardingParameters, ie_ForwardingParameters api)) ies (0, [], None))
         (\<lambda>(farid, attrs, _).
       Val \<lparr>fp_Op = OpCreate, fp_OID = [lSeid, unat farid], fp_Attrs = attrs,
         fp_OriginalIE = Some req, fp_FARID = farid, fp_ApplyAction = None\<rparr>))"

definition gtp5g_BuildUpdateFARPlan :: "'ie pfcp_ies \<Rightarrow> nat \<Rightarrow> 'ie \<Rightarrow> 'ie FARPlan gores" where
  "gtp5g_BuildUpdateFARPlan api lSeid req =
     must (ie_UpdateFAR api req) (\<lambda>ies.
       gbind (gloop (far_ie api (T_UpdateForwardingParameters, ie_UpdateForwardingParameters api)) ies (0, [], None))
         (\<lambda>(farid, attrs, act).
       Val \<lparr>fp_Op = OpUpdate, fp_OID = [lSeid, unat farid], fp_Attrs = attrs,
         fp_OriginalIE = Some req, fp_FARID = farid, fp_ApplyAction = act\<rparr>))"

definition gtp5g_BuildRemoveFARPlan :: "'ie pfcp_ies \<Rightarrow> nat \<Rightarrow> 'ie \<Rightarrow> 'ie FARPlan gores" where
  "gtp5g_BuildRemoveFARPlan api lSeid req =
     must (ie_FARID (base_api api) req) (\<lambda>v.
       Val \<lparr>fp_Op = OpRemove, fp_OID = [lSeid, unat v], fp_Attrs = [],
         fp_OriginalIE = Some req, fp_FARID = v, fp_ApplyAction = None\<rparr>)"

section \<open>QER plans\<close>

text \<open>A rate of 40 bits goes to the kernel as its upper 32 and its lower 8 bits.\<close>

definition rate_attrs :: "string \<Rightarrow> u64 \<Rightarrow> u64 \<Rightarrow> attrs" where
  "rate_attrs name ul dl =
     [(name @ ''_UL_HIGH32'', AttrU32 (ucast (drop_bit 8 ul))), (name @ ''_UL_LOW8'', AttrU8 (ucast ul)),
      (name @ ''_DL_HIGH32'', AttrU32 (ucast (drop_bit 8 dl))), (name @ ''_DL_LOW8'', AttrU8 (ucast dl))]"

definition qer_rate :: "string \<Rightarrow> u64 option \<Rightarrow> u64 option \<Rightarrow> u32 \<times> attrs \<Rightarrow> u32 \<times> attrs" where
  "qer_rate name ul dl s =
     (case (ul, dl) of
        (Some u, Some d) \<Rightarrow> (fst s, snd s @ [(name, AttrList (rate_attrs name u d))])
      | _ \<Rightarrow> s)"

definition qer_attr :: "string \<Rightarrow> u8 option \<Rightarrow> u32 \<times> attrs \<Rightarrow> u32 \<times> attrs" where
  "qer_attr name x s = (case x of None \<Rightarrow> s | Some v \<Rightarrow> (fst s, snd s @ [(name, AttrU8 v)]))"

definition qer_ie :: "'ie pfcp_ies \<Rightarrow> 'ie \<Rightarrow> u32 \<times> attrs \<Rightarrow> u32 \<times> attrs" where
  "qer_ie api i s =
     (case ie_Type (base_api api) i of
        T_QERID \<Rightarrow> (case ie_QERID (base_api api) i of None \<Rightarrow> s | Some v \<Rightarrow> (v, snd s))
      | T_QERCorrelationID \<Rightarrow>
          (case ie_QERCorrelationID api i of None \<Rightarrow> s | Some v \<Rightarrow> (fst s, snd s @ [(''QER_CORR_ID'', AttrU32 v)]))
      | T_GateStatus \<Rightarrow> qer_attr ''QER_GATE'' (ie_GateStatus api i) s
      | T_MBR \<Rightarrow> qer_rate ''QER_MBR'' (ie_MBRUL api i) (ie_MBRDL api i) s
      | T_GBR \<Rightarrow> qer_rate ''QER_GBR'' (ie_GBRUL api i) (ie_GBRDL api i) s
      | T_QFI \<Rightarrow> qer_attr ''QER_QFI'' (ie_QFI api i) s
      | T_RQI \<Rightarrow> qer_attr ''QER_RQI'' (ie_RQI api i) s
      | T_PagingPolicyIndicator \<Rightarrow> qer_attr ''QER_PPI'' (ie_PagingPolicyIndicator api i) s
      | _ \<Rightarrow> s)"

definition gtp5g_BuildCreateQERPlan :: "'ie pfcp_ies \<Rightarrow> nat \<Rightarrow> 'ie \<Rightarrow> 'ie QERPlan gores" where
  "gtp5g_BuildCreateQERPlan api lSeid req =
     must (ie_CreateQER api req) (\<lambda>ies.
       let (qerid, attrs) = fold (qer_ie api) ies (0, [])
       in Val \<lparr>qp_Op = OpCreate, qp_OID = [lSeid, unat qerid], qp_Attrs = attrs, qp_OriginalIE = Some req,
            qp_QERID = qerid\<rparr>)"

definition gtp5g_BuildUpdateQERPlan :: "'ie pfcp_ies \<Rightarrow> nat \<Rightarrow> 'ie \<Rightarrow> 'ie QERPlan gores" where
  "gtp5g_BuildUpdateQERPlan api lSeid req =
     must (ie_UpdateQER api req) (\<lambda>ies.
       let (qerid, attrs) = fold (qer_ie api) ies (0, [])
       in Val \<lparr>qp_Op = OpUpdate, qp_OID = [lSeid, unat qerid], qp_Attrs = attrs, qp_OriginalIE = Some req,
            qp_QERID = qerid\<rparr>)"

definition gtp5g_BuildRemoveQERPlan :: "'ie pfcp_ies \<Rightarrow> nat \<Rightarrow> 'ie \<Rightarrow> 'ie QERPlan gores" where
  "gtp5g_BuildRemoveQERPlan api lSeid req =
     must (ie_QERID (base_api api) req) (\<lambda>v.
       Val \<lparr>qp_Op = OpRemove, qp_OID = [lSeid, unat v], qp_Attrs = [], qp_OriginalIE = Some req, qp_QERID = v\<rparr>)"

section \<open>URR plans\<close>

definition volume_attrs :: "string \<Rightarrow> VolumeFields \<Rightarrow> attrs" where
  "volume_attrs name v =
     [(name @ ''_FLAG'', AttrU8 (vf_Flags v))]
     @ (if vf_HasTOVOL v then [(name @ ''_TOVOL'', AttrU64 (vf_TotalVolume v))] else [])
     @ (if vf_HasULVOL v then [(name @ ''_UVOL'', AttrU64 (vf_UplinkVolume v))] else [])
     @ (if vf_HasDLVOL v then [(name @ ''_DVOL'', AttrU64 (vf_DownlinkVolume v))] else [])"

definition newVolumeThreshold :: "'ie pfcp_ies \<Rightarrow> 'ie \<Rightarrow> attrs option" where
  "newVolumeThreshold api i = map_option (volume_attrs ''URR_VOLUME_THRESHOLD'') (ie_VolumeThreshold api i)"

definition newVolumeQuota :: "'ie pfcp_ies \<Rightarrow> 'ie \<Rightarrow> attrs option" where
  "newVolumeQuota api i = map_option (volume_attrs ''URR_VOLUME_QUOTA'') (ie_VolumeQuota api i)"

text \<open>The plan under construction is the state of the loop. A duration is narrowed to the width of its attribute.\<close>

definition urr_attr :: "string \<Rightarrow> attr_value \<Rightarrow> 'ie URRPlan \<Rightarrow> 'ie URRPlan" where
  "urr_attr name v p = p\<lparr>up_Attrs := up_Attrs p @ [(name, v)]\<rparr>"

definition urr_common_ie :: "'ie pfcp_ies \<Rightarrow> 'ie \<Rightarrow> 'ie URRPlan \<Rightarrow> 'ie URRPlan gores" where
  "urr_common_ie api i p =
     (case ie_Type (base_api api) i of
        T_URRID \<Rightarrow> must (ie_URRID (base_api api) i) (\<lambda>v. Val (p\<lparr>up_URRID := v\<rparr>))
      | T_MeasurementMethod \<Rightarrow>
          must (ie_MeasurementMethod api i) (\<lambda>v.
            Val (urr_attr ''URR_MEASUREMENT_METHOD'' (AttrU8 v) (p\<lparr>up_MeasureMethod := v\<rparr>)))
      | T_MeasurementInformation \<Rightarrow>
          must (ie_MeasurementInformation api i) (\<lambda>v.
            Val (urr_attr ''URR_MEASUREMENT_INFO'' (AttrU64 (of_nat v)) (p\<lparr>up_MeasureInfoIE := Some i\<rparr>)))
      | T_VolumeThreshold \<Rightarrow>
          may (newVolumeThreshold api i) p (\<lambda>v. urr_attr ''URR_VOLUME_THRESHOLD'' (AttrList v) p)
      | T_VolumeQuota \<Rightarrow>
          may (newVolumeQuota api i) p (\<lambda>v. urr_attr ''URR_VOLUME_QUOTA'' (AttrList v) p)
      | _ \<Rightarrow> Val p)"

definition create_urr_ie :: "'ie pfcp_ies \<Rightarrow> 'ie \<Rightarrow> 'ie URRPlan \<Rightarrow> 'ie URRPlan gores" where
  "create_urr_ie api i p =
     (case ie_Type (base_api api) i of
        T_ReportingTriggers \<Rightarrow>
          must (ie_ReportingTriggers api i) (\<lambda>b.
          must (ReportingTrigger_Unmarshal b) (\<lambda>t.
            Val (urr_attr ''URR_REPORTING_TRIGGER'' (AttrU32 (rt_Flags t)) (p\<lparr>up_ReportingTrigger := t\<rparr>))))
      | T_MeasurementPeriod \<Rightarrow>
          must (ie_MeasurementPeriod api i) (\<lambda>v.
            if v \<le> 0 then Err
            else Val (urr_attr ''URR_MEASUREMENT_PERIOD'' (AttrU32 (of_int v)) (p\<lparr>up_MeasurePeriod := v\<rparr>)))
      | _ \<Rightarrow> urr_common_ie api i p)"

definition gtp5g_BuildCreateURRPlan :: "'ie pfcp_ies \<Rightarrow> nat \<Rightarrow> 'ie \<Rightarrow> 'ie URRPlan gores" where
  "gtp5g_BuildCreateURRPlan api lSeid req =
     must (ie_CreateURR api req) (\<lambda>ies.
       gbind (gloop (create_urr_ie api) ies zero_URRPlan) (\<lambda>p.
         if ReportingTrigger_has (up_ReportingTrigger p) R_PERIO \<and> up_MeasurePeriod p \<le> 0 then Err
         else Val (p\<lparr>up_Op := OpCreate, up_OID := [lSeid, unat (up_URRID p)], up_OriginalIE := Some req\<rparr>)))"

definition update_urr_ie :: "'ie pfcp_ies \<Rightarrow> 'ie \<Rightarrow> 'ie URRPlan \<Rightarrow> 'ie URRPlan gores" where
  "update_urr_ie api i p =
     (case ie_Type (base_api api) i of
        T_ReportingTriggers \<Rightarrow>
          must (ie_ReportingTriggers api i) (\<lambda>b.
          must (ReportingTrigger_Unmarshal b) (\<lambda>t.
            Val (urr_attr ''URR_REPORTING_TRIGGER'' (AttrU32 (rt_Flags t)) p)))
      | T_MeasurementPeriod \<Rightarrow>
          must (ie_MeasurementPeriod api i) (\<lambda>v.
            Val (urr_attr ''URR_MEASUREMENT_PERIOD'' (AttrU32 (of_int v)) p))
      | _ \<Rightarrow> urr_common_ie api i p)"

definition gtp5g_BuildUpdateURRPlan :: "'ie pfcp_ies \<Rightarrow> nat \<Rightarrow> 'ie \<Rightarrow> 'ie URRPlan gores" where
  "gtp5g_BuildUpdateURRPlan api lSeid req =
     must (ie_UpdateURR api req) (\<lambda>ies.
       gbind (gloop (update_urr_ie api) ies zero_URRPlan) (\<lambda>p.
         Val (p\<lparr>up_Op := OpUpdate, up_OID := [lSeid, unat (up_URRID p)], up_OriginalIE := Some req\<rparr>)))"

definition gtp5g_BuildRemoveURRPlan :: "'ie pfcp_ies \<Rightarrow> nat \<Rightarrow> 'ie \<Rightarrow> 'ie URRPlan gores" where
  "gtp5g_BuildRemoveURRPlan api lSeid req =
     must (ie_URRID (base_api api) req) (\<lambda>v.
       Val (zero_URRPlan\<lparr>up_Op := OpRemove, up_OID := [lSeid, unat v], up_OriginalIE := Some req, up_URRID := v\<rparr>))"

definition gtp5g_BuildQueryURRPlan :: "'ie pfcp_ies \<Rightarrow> nat \<Rightarrow> 'ie \<Rightarrow> 'ie URRPlan gores" where
  "gtp5g_BuildQueryURRPlan api lSeid req =
     must (ie_URRID (base_api api) req) (\<lambda>v.
       Val (zero_URRPlan\<lparr>up_Op := OpRemove, up_OID := [lSeid, unat v], up_OriginalIE := Some req, up_QueryURRID := v\<rparr>))"

section \<open>BAR plans\<close>

definition bar_ie :: "'ie pfcp_ies \<Rightarrow> 'ie \<Rightarrow> u8 \<times> attrs \<Rightarrow> (u8 \<times> attrs) gores" where
  "bar_ie api i s =
     (case s of (barid, attrs) \<Rightarrow>
       (case ie_Type (base_api api) i of
          T_BARID \<Rightarrow> must (ie_BARID (base_api api) i) (\<lambda>v. Val (v, attrs))
        | T_DownlinkDataNotificationDelay \<Rightarrow>
            must (ie_DownlinkDataNotificationDelay api i) (\<lambda>v.
              Val (barid, attrs @ [(''BAR_DOWNLINK_DATA_NOTIFICATION_DELAY'', AttrU8 (of_int v))]))
        | T_SuggestedBufferingPacketsCount \<Rightarrow>
            must (ie_SuggestedBufferingPacketsCount api i) (\<lambda>v.
              Val (barid, attrs @ [(''BAR_BUFFERING_PACKETS_COUNT'', AttrU16 (of_nat v))]))
        | _ \<Rightarrow> Val s))"

definition gtp5g_BuildCreateBARPlan :: "'ie pfcp_ies \<Rightarrow> nat \<Rightarrow> 'ie \<Rightarrow> 'ie BARPlan gores" where
  "gtp5g_BuildCreateBARPlan api lSeid req =
     must (ie_CreateBAR api req) (\<lambda>ies.
       gbind (gloop (bar_ie api) ies (0, [])) (\<lambda>(barid, attrs).
       Val \<lparr>bp_Op = OpCreate, bp_OID = [lSeid, unat barid], bp_Attrs = attrs, bp_OriginalIE = Some req,
         bp_BARID = barid\<rparr>))"

definition gtp5g_BuildUpdateBARPlan :: "'ie pfcp_ies \<Rightarrow> nat \<Rightarrow> 'ie \<Rightarrow> 'ie BARPlan gores" where
  "gtp5g_BuildUpdateBARPlan api lSeid req =
     must (ie_UpdateBAR api req) (\<lambda>ies.
       gbind (gloop (bar_ie api) ies (0, [])) (\<lambda>(barid, attrs).
       Val \<lparr>bp_Op = OpUpdate, bp_OID = [lSeid, unat barid], bp_Attrs = attrs, bp_OriginalIE = Some req,
         bp_BARID = barid\<rparr>))"

definition gtp5g_BuildRemoveBARPlan :: "'ie pfcp_ies \<Rightarrow> nat \<Rightarrow> 'ie \<Rightarrow> 'ie BARPlan gores" where
  "gtp5g_BuildRemoveBARPlan api lSeid req =
     must (ie_BARID (base_api api) req) (\<lambda>v.
       Val \<lparr>bp_Op = OpRemove, bp_OID = [lSeid, unat v], bp_Attrs = [], bp_OriginalIE = Some req, bp_BARID = v\<rparr>)"

section \<open>No plan builder panics\<close>

text \<open>The first loop of \<open>newPdi\<close> keeps only filters whose payload has at least three bytes.\<close>

lemma pdi_ie_sdf:
  assumes "pdi_ie api x (as, i, sdfs) = Val (as', i', sdfs')" and "\<forall>y\<in>set sdfs. 3 \<le> length (ie_Payload api y)"
  shows "\<forall>y\<in>set sdfs'. 3 \<le> length (ie_Payload api y)"
  using assms by (auto simp: pdi_ie_def may_def split: ie_type.splits option.splits if_splits)

lemma newSdfFilter_no_panic:
  assumes "ie_Payload api x \<noteq> []"
  shows "newSdfFilter api x srcIf \<noteq> Panic"
proof -
  have "sdf_length_ok (ie_Payload api x) \<noteq> None" using assms by (auto simp: sdf_length_ok_def)
  then show ?thesis
    by (auto simp: newSdfFilter_def split: option.splits bool.splits if_splits)
qed

lemma pdi_ie_no_panic: "pdi_ie api x s \<noteq> Panic"
  by (auto simp: pdi_ie_def split: prod.splits ie_type.splits if_splits)

lemma newPdi_no_panic: "newPdi api i \<noteq> Panic"
proof
  let ?f = "\<lambda>srcIf x as. gbind (newSdfFilter api x srcIf) (\<lambda>v. Val (as @ [(''PDI_SDF_FILTER'', AttrList v)]))"
  assume "newPdi api i = Panic"
  then obtain ies attrs srcIf sdfs where r: "gloop (pdi_ie api) ies ([], 0, []) = Val (attrs, srcIf, sdfs)"
      and p: "gloop (?f srcIf) sdfs attrs = Panic"
    using gloop_Panic [of "pdi_ie api"] pdi_ie_no_panic by (fastforce simp: newPdi_def)
  have "\<forall>y\<in>set (snd (snd (attrs, srcIf, sdfs))). 3 \<le> length (ie_Payload api y)"
    by (rule gloop_inv [OF r]) (use pdi_ie_sdf in \<open>force\<close>)+
  then have "ie_Payload api y \<noteq> []" if "y \<in> set sdfs" for y using that by auto
  moreover obtain y where "y \<in> set sdfs" "newSdfFilter api y srcIf = Panic" using gloop_Panic [OF p] by auto
  ultimately show False using newSdfFilter_no_panic by metis
qed

lemma pdr_ie_no_panic: "create_pdr_ie api i s \<noteq> Panic" "update_pdr_ie api i s \<noteq> Panic"
  by (auto simp: create_pdr_ie_def update_pdr_ie_def pdi_attr_def newPdi_no_panic split: prod.splits ie_type.splits)

lemma rule_ie_no_panic:
  "far_ie api ps i far \<noteq> Panic" "create_urr_ie api i urr \<noteq> Panic" "update_urr_ie api i urr \<noteq> Panic" "bar_ie api i bar \<noteq> Panic"
  by (auto simp: far_ie_def create_urr_ie_def update_urr_ie_def urr_common_ie_def bar_ie_def Let_def
      split: prod.splits ie_type.splits if_splits)

lemmas build_create_defs = gtp5g_BuildCreatePDRPlan_def gtp5g_BuildCreateFARPlan_def gtp5g_BuildCreateQERPlan_def
  gtp5g_BuildCreateURRPlan_def gtp5g_BuildCreateBARPlan_def

lemmas build_update_defs = gtp5g_BuildUpdatePDRPlan_def gtp5g_BuildUpdateFARPlan_def gtp5g_BuildUpdateQERPlan_def
  gtp5g_BuildUpdateURRPlan_def gtp5g_BuildUpdateBARPlan_def


section \<open>What reaches the kernel\<close>

subsection \<open>Ports\<close>

text \<open>How the kernel module reads a port list: native words, the first port of a range in the upper half.\<close>

fun decode_ports :: "bytes \<Rightarrow> (u16 \<times> u16) list" where
  "decode_ports (a # b # c # d # bs) =
     (let w = of_le32 a b c d in (ucast (drop_bit 16 w), ucast w) # decode_ports bs)"
| "decode_ports _ = []"

lemma of_le32_le32: "of_le32 (ucast w) (ucast (drop_bit 8 w)) (ucast (drop_bit 16 w)) (ucast (drop_bit 24 w)) = w"
proof (rule bit_word_eqI)
  fix n
  assume n: "n < LENGTH(32)"
  consider "n < 8" | "8 \<le> n" "n < 16" | "16 \<le> n" "n < 24" | "24 \<le> n" "n < 32"
    using n by fastforce
  then show "bit (of_le32 (ucast w) (ucast (drop_bit 8 w)) (ucast (drop_bit 16 w)) (ucast (drop_bit 24 w))) n = bit w n"
    by cases (auto simp: of_le32_def bit_or_iff bit_push_bit_iff bit_ucast_iff bit_drop_bit_eq)
qed

lemma halves: "ucast (drop_bit 16 (push_bit 16 (ucast a) OR ucast b :: u32)) = (a :: u16)"
  "ucast (push_bit 16 (ucast a) OR ucast b :: u32) = (b :: u16)"
  by (rule bit_word_eqI, auto simp: bit_or_iff bit_push_bit_iff bit_ucast_iff bit_drop_bit_eq dest: bit_imp_le_length)+

lemma decode_ports_le32: "decode_ports (le32 w @ bs) = (ucast (drop_bit 16 w), ucast w) # decode_ports bs"
  by (simp add: le32_def of_le32_le32)

lemma decode_convert_port:
  "length p \<in> {1, 2} \<Longrightarrow> decode_ports (convert_port p @ bs) = (hd p, last p) # decode_ports bs"
  by (cases p; cases "tl p") (auto simp: convert_port_def decode_ports_le32 halves halves(1) [simplified])

lemma decode_convertSlice: "ports_ok ps \<Longrightarrow> decode_ports (convertSlice ps) = map (\<lambda>p. (hd p, last p)) ps"
  by (induction ps) (simp_all add: convertSlice_def ports_ok_def decode_convert_port)

lemma port_vals_ok: "ports_ok (map port_vals ps)"
proof -
  have "length (port_vals p) \<in> {1, 2}" for p by (cases p) simp_all
  then show ?thesis by (simp add: ports_ok_def)
qed

fun port_range :: "flow_port \<Rightarrow> u16 \<times> u16" where
  "port_range (FPort p) = (p, p)"
| "port_range (FRange p q) = (p, q)"

lemma decode_port_vals: "decode_ports (convertSlice (map port_vals ps)) = map port_range ps"
proof -
  have "(hd (port_vals p), last (port_vals p)) = port_range p" for p by (cases p) simp_all
  then show ?thesis by (simp add: decode_convertSlice port_vals_ok)
qed

text \<open>The reader of a filter's attributes: protocol, and addresses, masks and ports of both ends.\<close>

definition filter_of :: "attrs \<Rightarrow> (u8 \<times> (bytes \<times> bytes \<times> (u16 \<times> u16) list) \<times> (bytes \<times> bytes \<times> (u16 \<times> u16) list)) option" where
  "filter_of as =
     (case as of
        [_, _, (_, AttrU8 proto), (_, AttrBytes sip), (_, AttrBytes smask), (_, AttrBytes dip), (_, AttrBytes dmask),
         (_, AttrBytes sports), (_, AttrBytes dports)] \<Rightarrow>
          Some (proto, (sip, smask, decode_ports sports), (dip, dmask, decode_ports dports))
      | _ \<Rightarrow> None)"

definition rule_end :: "flow_addr \<Rightarrow> flow_port list \<Rightarrow> bytes \<times> bytes \<times> (u16 \<times> u16) list" where
  "rule_end a ps = (net_IP (addr_net a), net_Mask (addr_net a), map port_range ps)"


subsection \<open>Rates and delays\<close>

text \<open>The two parts of a bit rate make up its lower 40 bits. For the maximum and the guaranteed bit rates, uplink and
  downlink, the 32-bit and the 8-bit attribute together give back the rate modulo 2 to the 40th, that is the rate itself for
  every rate the protocol can carry.\<close>

theorem rate_attrs_value:
  "\<exists>uh ul dh dl. map snd (rate_attrs name u d) = [AttrU32 uh, AttrU8 ul, AttrU32 dh, AttrU8 dl]
     \<and> push_bit 8 (ucast uh) OR ucast ul = take_bit 40 u \<and> push_bit 8 (ucast dh) OR ucast dl = take_bit 40 d"
proof -
  have "push_bit 8 (ucast (ucast (drop_bit 8 w) :: u32)) OR ucast (ucast w :: u8) = take_bit 40 w" for w :: u64
    by (rule bit_word_eqI)
      (auto simp: bit_or_iff bit_push_bit_iff bit_ucast_iff bit_drop_bit_eq bit_take_bit_iff)
  then show ?thesis by (simp add: rate_attrs_def)
qed

lemma mult_128: "(128 :: u8) * x = (if odd x then 128 else 0)"
proof -
  have z: "(256 :: u8) = 0" by simp
  have e: "128 * (2 * y) = 256 * y" "128 * (2 * y + 1) = 256 * y + 128" for y :: u8 by (simp_all add: algebra_simps)
  show ?thesis
  proof (cases "odd x")
    case True
    then obtain y where "x = 2 * y + 1" by (auto elim: oddE)
    then have "128 * x = 256 * y + 128" using e(2) by simp
    then show ?thesis using True unfolding z by simp
  next
    case False
    then obtain y where "x = 2 * y" by (auto elim: evenE)
    then have "128 * x = 256 * y" using e(1) by simp
    then show ?thesis using False unfolding z by simp
  qed
qed
text \<open>C30: The downlink data notification delay is lost. A delay of \<open>n\<close> units of 50 milliseconds, as the protocol
  counts it, is a number of nanoseconds, of which the attribute keeps the lower eight bits: it is 128 for odd \<open>n\<close> and 0 for
  even \<open>n\<close>, whatever the delay.\<close>

theorem bar_delay_lost:
  assumes "ie_Type (base_api api) i = T_DownlinkDataNotificationDelay"
    and "ie_DownlinkDataNotificationDelay api i = Some (n * 50000000)"
  shows "bar_ie api i (b, as) = Val (b, as @ [(''BAR_DOWNLINK_DATA_NOTIFICATION_DELAY'', AttrU8 (if odd n then 128 else 0))])"
proof -
  have "(50000000 :: u8) = 128" by simp
  then have "(of_int (n * 50000000) :: u8) = 128 * of_int n" by (metis mult.commute of_int_mult of_int_numeral)
  also have "\<dots> = (if odd n then 128 else 0)" by (simp add: mult_128 even_of_int_iff)
  finally show ?thesis using assms by (simp add: bar_ie_def must_def)
qed

section \<open>Elements for examples\<close>

text \<open>An element with its type, a number, bytes and the elements it groups, and accessors that read them.\<close>

datatype elem = Elem (el_type: ie_type) (el_num: int) (el_bytes: bytes) (el_subs: "elem list")

definition elem_api :: "elem ie_api" where
  "elem_api =
     \<lparr>ie_empty = Elem (T_Other 0) 0 [] [], ie_Type = el_type,
      ie_NodeID = (\<lambda>i. Some (itoa (nat (el_num i)))), ie_FSEID = (\<lambda>i. Some (nat (el_num i))),
      ie_RecoveryTimeStamp = (\<lambda>i. Some (el_num i)), ie_CreatePDR = map_option el_subs, ie_PDI = (\<lambda>i. Some (el_subs i)),
      ie_UEIPAddress = (\<lambda>i. Some (el_bytes i)), ie_PDRID = (\<lambda>i. Some (of_int (el_num i))),
      ie_FARID = (\<lambda>i. Some (of_int (el_num i))), ie_QERID = (\<lambda>i. Some (of_int (el_num i))),
      ie_URRID = (\<lambda>i. Some (of_int (el_num i))), ie_BARID = (\<lambda>i. Some (of_int (el_num i))),
      ie_MeasureMethod = (\<lambda>_. \<lparr>DURAT = False, VOLUM = True, EVENT = False\<rparr>),
      ie_MeasureInfo = (\<lambda>_. \<lparr>MBQE = False, INAM = False, RADI = False, ISTM = False, MNOP = True,
        SSPOC = False, ASPOC = False, CIAM = False\<rparr>),
      NewRemoveFAR = (\<lambda>i. Elem T_FARID (uint i) [] []), NewRemoveQER = (\<lambda>i. Elem T_QERID (uint i) [] []),
      NewRemoveURR = (\<lambda>i. Elem T_URRID (uint i) [] []), NewRemoveBAR = (\<lambda>i. Elem T_BARID (uint i) [] []),
      NewRemovePDR = (\<lambda>i. Elem T_PDRID (uint i) [] [])\<rparr>"

definition elem_ies :: "elem pfcp_ies" where
  "elem_ies =
     \<lparr>base_api = elem_api, ie_Payload = el_bytes, ie_SourceInterface = (\<lambda>i. Some (of_int (el_num i))),
      ie_FTEID = (\<lambda>i. Some (of_int (el_num i), el_bytes i)), ie_SDFFilter = (\<lambda>_. None),
      ie_ForwardingPolicyIdentifier = (\<lambda>_. None), ie_PFCPSMReqFlags = (\<lambda>i. Some (of_int (el_num i))),
      ParseOuterHeaderCreation = (\<lambda>_. None), ie_VolumeThreshold = (\<lambda>_. None), ie_VolumeQuota = (\<lambda>_. None),
      ie_Precedence = (\<lambda>i. Some (of_int (el_num i))), ie_OuterHeaderRemovalDescription = (\<lambda>i. Some (of_int (el_num i))),
      ie_UpdatePDR = (\<lambda>i. Some (el_subs i)), ie_CreateFAR = (\<lambda>i. Some (el_subs i)), ie_UpdateFAR = (\<lambda>i. Some (el_subs i)),
      ie_CreateQER = (\<lambda>i. Some (el_subs i)), ie_UpdateQER = (\<lambda>i. Some (el_subs i)), ie_CreateURR = (\<lambda>i. Some (el_subs i)),
      ie_UpdateURR = (\<lambda>i. Some (el_subs i)), ie_CreateBAR = (\<lambda>i. Some (el_subs i)), ie_UpdateBAR = (\<lambda>i. Some (el_subs i)),
      ie_ApplyAction = (\<lambda>i. Some (el_bytes i)), ie_ForwardingParameters = (\<lambda>i. Some (el_subs i)),
      ie_UpdateForwardingParameters = (\<lambda>i. Some (el_subs i)), ie_QERCorrelationID = (\<lambda>i. Some (of_int (el_num i))),
      ie_GateStatus = (\<lambda>i. Some (of_int (el_num i))), ie_MBRUL = (\<lambda>i. Some (of_int (el_num i))),
      ie_MBRDL = (\<lambda>i. Some (of_int (el_num i))), ie_GBRUL = (\<lambda>i. Some (of_int (el_num i))),
      ie_GBRDL = (\<lambda>i. Some (of_int (el_num i))), ie_QFI = (\<lambda>i. Some (of_int (el_num i))),
      ie_RQI = (\<lambda>i. Some (of_int (el_num i))), ie_PagingPolicyIndicator = (\<lambda>i. Some (of_int (el_num i))),
      ie_MeasurementMethod = (\<lambda>i. Some (of_int (el_num i))), ie_ReportingTriggers = (\<lambda>i. Some (el_bytes i)),
      ie_MeasurementPeriod = (\<lambda>i. Some (el_num i)), ie_MeasurementInformation = (\<lambda>i. Some (nat (el_num i))),
      ie_DownlinkDataNotificationDelay = (\<lambda>i. Some (el_num i)),
      ie_SuggestedBufferingPacketsCount = (\<lambda>i. Some (nat (el_num i))),
      SDF_FILTER_PERMIT = 1, SDF_FILTER_IN = 1, SDF_FILTER_OUT = 2, PdrAddrForNetlink = []\<rparr>"


lemma bar_delay_lost_witness:
  "bar_ie elem_ies (Elem T_DownlinkDataNotificationDelay 300000000 [] []) (1, [])
     = Val (1, [(''BAR_DOWNLINK_DATA_NOTIFICATION_DELAY'', AttrU8 0)])"
  using bar_delay_lost [of elem_ies "Elem T_DownlinkDataNotificationDelay 300000000 [] []" 6 1 "[]"]
  by (simp add: elem_ies_def elem_api_def)

end
