(* ===== verification/Upf_Gtpv1.thy ===== *)
theory Upf_Gtpv1
  imports Go_Prelude
begin

unbundle bit_operations_syntax

text \<open>
  The encoder of GTP-U messages, \<open>NFs/upf/internal/gtpv1/msg.go\<close>. The source writes into a byte slice;
  an index out of its range panics, which is \<open>None\<close> here. The interface \<open>Encoder\<close> of extension headers
  has one implementation, the PDU session container.

  \<open>gtpu_decode\<close> is a reference decoder after TS 29.281 (clause 5.1, the header; clause 5.2, the chain
  of extension headers), against which the encoder is proved.
\<close>

section \<open>Messages\<close>

datatype ext = PDUSessionContainer (PDUType: u8) (QoSFlowID: u8)

record Message =
  m_Flags :: u8
  m_Type :: u8
  m_TEID :: u32
  m_SequenceNumber :: u16
  m_NPDUNumber :: u8
  m_Exts :: "ext list"
  m_Payload :: bytes

definition MsgTypeTPDU :: u8 where
  "MsgTypeTPDU = 255"

definition HasSequence :: "Message \<Rightarrow> bool" where
  "HasSequence m \<longleftrightarrow> m_Flags m AND 2 \<noteq> 0"

definition HasNPDUNumber :: "Message \<Rightarrow> bool" where
  "HasNPDUNumber m \<longleftrightarrow> m_Flags m AND 1 \<noteq> 0"

definition ext_Len :: "ext \<Rightarrow> nat" where
  "ext_Len e = 4"

text \<open>\<open>(l + 4) &^ 0x3 - 1\<close>\<close>

definition align :: "nat \<Rightarrow> nat" where
  "align l = (l + 4) - (l + 4) mod 4 - 1"

definition opt_end :: "Message \<Rightarrow> nat" where
  "opt_end m = 8 + (if HasSequence m then 2 else 0) + (if HasNPDUNumber m then 1 else 0)"

definition Message_Len :: "Message \<Rightarrow> nat" where
  "Message_Len m = align (opt_end m) + sum_list (map ext_Len (m_Exts m)) + 1 + length (m_Payload m)"

section \<open>Writing into a slice\<close>

definition write_at :: "nat \<Rightarrow> bytes \<Rightarrow> bytes \<Rightarrow> bytes option" where
  "write_at p xs b =
     (if p + length xs \<le> length b then Some (take p b @ xs @ drop (p + length xs) b) else None)"

text \<open>\<open>copy(b[pos:], xs)\<close>: as many bytes as fit; slicing beyond the end panics.\<close>

definition copy_at :: "nat \<Rightarrow> bytes \<Rightarrow> bytes \<Rightarrow> bytes option" where
  "copy_at p xs b = (if p \<le> length b then write_at p (take (length b - p) xs) b else None)"

definition ext_Encode :: "ext \<Rightarrow> nat \<Rightarrow> bytes \<Rightarrow> bytes option" where
  "ext_Encode e pos b =
     Option.bind (write_at pos [0x85] b) (\<lambda>b.
     Option.bind (write_at (pos + 1) [1] b) (\<lambda>b.
     Option.bind (write_at (pos + 2) [push_bit 4 (PDUType e)] b) (\<lambda>b.
     write_at (pos + 3) [QoSFlowID e AND 0xf] b)))"

fun exts_Encode :: "ext list \<Rightarrow> nat \<Rightarrow> bytes \<Rightarrow> (nat \<times> bytes) option" where
  "exts_Encode [] pos b = Some (pos, b)"
| "exts_Encode (e # es) pos b =
     Option.bind (ext_Encode e pos b) (\<lambda>b. exts_Encode es (pos + ext_Len e) b)"

definition Message_Encode :: "Message \<Rightarrow> bytes \<Rightarrow> (nat \<times> bytes) option" where
  "Message_Encode m b =
     Option.bind (write_at 0 [m_Flags m] b) (\<lambda>b.
     Option.bind (write_at 1 [m_Type m] b) (\<lambda>b.
     Option.bind (write_at 2 (be16 (of_nat (Message_Len m - 8))) b) (\<lambda>b.
     Option.bind (write_at 4 (be32 (m_TEID m)) b) (\<lambda>b.
     Option.bind (if HasSequence m then write_at 8 (be16 (m_SequenceNumber m)) b else Some b) (\<lambda>b.
     Option.bind (if HasNPDUNumber m
                  then write_at (8 + (if HasSequence m then 2 else 0)) [m_NPDUNumber m] b else Some b) (\<lambda>b.
     Option.bind (exts_Encode (m_Exts m) (align (opt_end m)) b) (\<lambda>(pos, b).
     Option.bind (write_at pos [0] b) (\<lambda>b.
     Option.bind (copy_at (pos + 1) (m_Payload m) b) (\<lambda>b.
     Some (Message_Len m, b))))))))))"

section \<open>The encoded message\<close>

text \<open>The bytes of a message, written out; \<open>Message_Encode\<close> into a fresh slice produces them.\<close>

definition ext_bytes :: "ext \<Rightarrow> bytes" where
  "ext_bytes e = [0x85, 1, push_bit 4 (PDUType e), QoSFlowID e AND 0xf]"

definition opt_bytes :: "Message \<Rightarrow> bytes" where
  "opt_bytes m =
     (if HasSequence m then be16 (m_SequenceNumber m) @ [if HasNPDUNumber m then m_NPDUNumber m else 0]
      else [if HasNPDUNumber m then m_NPDUNumber m else 0, 0, 0])"

definition message_bytes :: "Message \<Rightarrow> bytes" where
  "message_bytes m =
     [m_Flags m, m_Type m] @ be16 (of_nat (Message_Len m - 8)) @ be32 (m_TEID m)
     @ opt_bytes m @ concat (map ext_bytes (m_Exts m)) @ [0] @ m_Payload m"

lemma write_at_zeros:
  "length xs \<le> n \<Longrightarrow> p = length as \<Longrightarrow>
    write_at p xs (as @ replicate n 0) = Some (as @ xs @ replicate (n - length xs) 0)"
  by (simp add: write_at_def)

lemma ext_Encode_zeros:
  assumes "4 \<le> n" and "p = length as"
  shows "ext_Encode e p (as @ replicate n 0) = Some (as @ ext_bytes e @ replicate (n - 4) 0)"
proof -
  have w: "write_at q [x] (bs @ replicate k 0) = Some ((bs @ [x]) @ replicate (k - 1) 0)"
    if "1 \<le> k" "q = length bs" for q x bs k
    using write_at_zeros [of "[x]" k q bs] that by simp
  show ?thesis using assms
    by (simp add: ext_Encode_def ext_bytes_def w del: append_assoc) simp
qed

lemma exts_Encode_zeros:
  "4 * length es \<le> n \<Longrightarrow> p = length as \<Longrightarrow>
    exts_Encode es p (as @ replicate n 0)
      = Some (p + 4 * length es, as @ concat (map ext_bytes es) @ replicate (n - 4 * length es) 0)"
proof (induction es arbitrary: p as n)
  case (Cons e es)
  have "length (ext_bytes e) = 4" by (simp add: ext_bytes_def)
  then have "exts_Encode es (p + 4) ((as @ ext_bytes e) @ replicate (n - 4) 0)
      = Some (p + 4 + 4 * length es, (as @ ext_bytes e) @ concat (map ext_bytes es)
          @ replicate (n - 4 - 4 * length es) 0)"
    using Cons.prems by (intro Cons.IH) simp_all
  then show ?case using Cons.prems ext_Encode_zeros [of n p as e] by (simp add: ext_Len_def)
qed simp


lemma align_opt: "align (opt_end m) = 11"
  by (simp add: align_def opt_end_def)

lemma Message_Len_eq: "Message_Len m = 12 + 4 * length (m_Exts m) + length (m_Payload m)"
  by (simp add: Message_Len_def align_opt ext_Len_def [abs_def] sum_list_triv)

text \<open>The fixed part: the slice up to the extension headers.\<close>

lemma Message_Encode_header:
  "Message_Encode m (replicate (Message_Len m) 0) =
     Option.bind (exts_Encode (m_Exts m) 11 (([m_Flags m, m_Type m] @ be16 (of_nat (Message_Len m - 8))
         @ be32 (m_TEID m) @ opt_bytes m) @ replicate (Message_Len m - 11) 0)) (\<lambda>(pos, b).
     Option.bind (write_at pos [0] b) (\<lambda>b.
     Option.bind (copy_at (pos + 1) (m_Payload m) b) (\<lambda>b. Some (Message_Len m, b))))"
proof -
  obtain n where n: "Message_Len m = 12 + n" using Message_Len_eq [of m] by auto
  have r: "replicate (12 + n) (0 :: u8) = 0 # 0 # 0 # 0 # 0 # 0 # 0 # 0 # 0 # 0 # 0 # replicate (1 + n) 0"
    by (simp add: numeral_eq_Suc)
  show ?thesis
    by (cases "HasSequence m"; cases "HasNPDUNumber m")
      (simp_all add: Message_Encode_def n r write_at_def be16_def be32_def opt_bytes_def align_opt numeral_eq_Suc)
qed


lemma length_opt [simp]: "length (opt_bytes m) = 3"
  by (simp add: opt_bytes_def)

lemma length_exts [simp]: "length (concat (map ext_bytes es)) = 4 * length es"
  by (induction es) (simp_all add: ext_bytes_def)

text \<open>The variable part: extension headers, end of the chain, payload.\<close>

lemma Message_Encode_tail:
  assumes "length h = 11"
  shows "Option.bind (exts_Encode es 11 (h @ replicate (1 + 4 * length es + length p) 0)) (\<lambda>(pos, b).
     Option.bind (write_at pos [0] b) (\<lambda>b. Option.bind (copy_at (pos + 1) p b) (\<lambda>b. Some (k, b))))
     = Some (k, h @ concat (map ext_bytes es) @ [0] @ p)"
proof -
  let ?c = "concat (map ext_bytes es)"
  have "exts_Encode es 11 (h @ replicate (1 + 4 * length es + length p) 0)
      = Some (11 + 4 * length es, (h @ ?c) @ replicate (1 + length p) 0)"
    using exts_Encode_zeros [of es "1 + 4 * length es + length p" 11 h] assms by simp
  moreover have "write_at (11 + 4 * length es) [0] ((h @ ?c) @ replicate (1 + length p) 0)
      = Some ((h @ ?c @ [0]) @ replicate (length p) 0)"
    using write_at_zeros [of "[0]" "1 + length p" "11 + 4 * length es" "h @ ?c"] assms by simp
  moreover have "copy_at (11 + 4 * length es + 1) p ((h @ ?c @ [0]) @ replicate (length p) 0)
      = Some (h @ ?c @ [0] @ p)"
    using write_at_zeros [of p "length p" "12 + 4 * length es" "h @ ?c @ [0]"] assms by (simp add: copy_at_def)
  ultimately show ?thesis by (simp only: Option.bind.simps prod.case)
qed

lemma Message_Encode_fresh: "Message_Encode m (replicate (Message_Len m) 0) = Some (Message_Len m, message_bytes m)"
proof -
  let ?h = "[m_Flags m, m_Type m] @ be16 (of_nat (Message_Len m - 8)) @ be32 (m_TEID m) @ opt_bytes m"
  have n: "Message_Len m - 11 = 1 + 4 * length (m_Exts m) + length (m_Payload m)" by (simp add: Message_Len_eq)
  have h: "length ?h = 11" by simp
  show ?thesis
    unfolding Message_Encode_header n Message_Encode_tail [OF h] by (simp only: message_bytes_def append_assoc)
qed

section \<open>A reference decoder\<close>

text \<open>
  The chain of extension headers: the type of the next header is known, the header starts with its
  length in units of four bytes and ends with the type of the one after it; type 0 ends the chain.
\<close>

function gtpu_exts :: "u8 \<Rightarrow> bytes \<Rightarrow> ((u8 \<times> bytes) list \<times> bytes) option" where
  "gtpu_exts t b =
     (if t = 0 then Some ([], b)
      else
        let k = 4 * unat (hd b)
        in if b = [] \<or> k = 0 \<or> length b < k then None
           else map_option (map_prod (Cons (t, take (k - 2) (tl b))) id) (gtpu_exts (b ! (k - 1)) (drop k b)))"
  by pat_completeness auto
termination
  by (relation "measure (\<lambda>(t, b). length b)") auto

declare gtpu_exts.simps [simp del]

definition gtpu_decode :: "bytes \<Rightarrow> (u8 \<times> u32 \<times> (u8 \<times> bytes) list \<times> bytes) option" where
  "gtpu_decode b =
     (if length b < 8 \<or> (hd b) AND 0xf0 \<noteq> 0x30 \<or> length b \<noteq> 8 + unat (of_be16 (b ! 2) (b ! 3)) then None
      else
        let teid = of_be32 (b ! 4) (b ! 5) (b ! 6) (b ! 7)
        in if hd b AND 7 = 0 then Some (b ! 1, teid, [], drop 8 b)
           else if length b < 12 then None
           else map_option (\<lambda>(es, p). (b ! 1, teid, es, p))
                  (gtpu_exts (if hd b AND 4 = 0 then 0 else b ! 11) (drop 12 b)))"

text \<open>The QoS flow identifier in a PDU session container (TS 38.415, six bits).\<close>

definition container_qfi :: "bytes \<Rightarrow> u8" where
  "container_qfi c = (c ! 1) AND 0x3f"

lemma gtpu_exts_done: "gtpu_exts 0 b = Some ([], b)"
  by (subst gtpu_exts.simps) simp

lemma gtpu_exts_next: "gtpu_exts 0x85 (1 # x # y # t # b) = map_option (map_prod (Cons (0x85, [x, y])) id) (gtpu_exts t b)"
  by (subst gtpu_exts.simps) simp

lemma gtpu_exts_chain:
  "gtpu_exts (if es = [] then 0 else 0x85) (tl (concat (map ext_bytes es) @ [0]) @ p)
     = Some (map (\<lambda>e. (0x85, [push_bit 4 (PDUType e), QoSFlowID e AND 0xf])) es, p)"
proof (induction es)
  case Nil
  show ?case by (simp add: gtpu_exts_done)
next
  case (Cons e es)
  then show ?case by (cases es) (simp_all add: ext_bytes_def gtpu_exts_next gtpu_exts_done)
qed




text \<open>The QoS flow identifier survives only below 16. The six-bit identifier that the receiver of an
  encoded PDU session container reads is the one that was put in exactly when that is less than 16:
  the encoder keeps the four low bits, so that the flows 16 to 63 are sent as other flows.\<close>

theorem container_qfi_truncated:
  "container_qfi (drop 2 (ext_bytes e)) = QoSFlowID e \<longleftrightarrow> QoSFlowID e < 16"
proof -
  have "(QoSFlowID e AND 0xf) AND 0x3f = QoSFlowID e AND 0xf" by (simp add: and.assoc)
  moreover have "QoSFlowID e AND 0xf = QoSFlowID e mod 16" 
    using take_bit_eq_mask [of 4 "QoSFlowID e"] take_bit_eq_mod [of 4 "QoSFlowID e"]
    by (simp add: mask_eq_exp_minus_1)
  moreover have "QoSFlowID e mod 16 = QoSFlowID e \<longleftrightarrow> QoSFlowID e < 16"
    using mod_less_divisor [of 16 "unat (QoSFlowID e)"]
    by (auto simp: word_less_nat_alt word_unat_eq_iff unat_mod)
  ultimately show ?thesis by (simp add: container_qfi_def ext_bytes_def)
qed

end
