(* ===== verification/Upf_Perio.thy ===== *)
theory Upf_Perio
  imports Upf_Report
begin

unbundle bit_operations_syntax

text \<open>
  The server of periodic usage reports, \<open>NFs/upf/internal/forwarder/perio/server.go\<close>: URRs grouped by
  their measurement period, one ticker for each period in use.

  \<open>perio_step\<close> is the body of the loop of \<open>Serve\<close> on one event; \<open>None\<close> is a panic, which \<open>time.NewTicker\<close>
  raises for a period that is not positive. The state holds the periods whose ticker goroutine runs and
  the session reports given to the handler. \<open>queryURR\<close>, which the driver sets, is a parameter.

  \<open>perio_trans\<close> adds the goroutines: the loop, the tickers and the clients that share the event
  channel, which holds 512 events.
\<close>

section \<open>State and events\<close>

definition EVENT_CHANNEL_LEN :: nat where
  "EVENT_CHANNEL_LEN = 512"

datatype perio_event =
  PERIO_ADD nat u32 int
| PERIO_DEL nat u32
| PERIO_TIMEOUT int
| SERVER_CLOSE

record PERIOGroup =
  pg_urrids :: "(nat, u32 list) gomap"
  pg_period :: int

record PerioServer =
  perioList :: "(int, PERIOGroup) gomap"
  tickers :: "int list"
  notified :: "SessReport list"

type_synonym perio_query = "(nat, u32 list) gomap \<Rightarrow> (nat, USAReport list) gomap option"

definition OpenServer :: PerioServer where
  "OpenServer = \<lparr>perioList = [], tickers = [], notified = []\<rparr>"

definition newTicker :: "PERIOGroup \<Rightarrow> PerioServer \<Rightarrow> PerioServer option" where
  "newTicker g s = (if pg_period g \<le> 0 then None else Some (s\<lparr>tickers := pg_period g # tickers s\<rparr>))"

definition stopTicker :: "PERIOGroup \<Rightarrow> PerioServer \<Rightarrow> PerioServer" where
  "stopTicker g s = s\<lparr>tickers := removeAll (pg_period g) (tickers s)\<rparr>"

section \<open>The loop\<close>

definition group_add :: "nat \<Rightarrow> u32 \<Rightarrow> PERIOGroup \<Rightarrow> PERIOGroup" where
  "group_add lSeid urrid g =
     (case map_of (pg_urrids g) lSeid of
        None \<Rightarrow> g\<lparr>pg_urrids := mput lSeid [urrid] (pg_urrids g)\<rparr>
      | Some us \<Rightarrow>
          if urrid \<in> set us then g else g\<lparr>pg_urrids := mput lSeid (us @ [urrid]) (pg_urrids g)\<rparr>)"

definition perio_add :: "nat \<Rightarrow> u32 \<Rightarrow> int \<Rightarrow> PerioServer \<Rightarrow> PerioServer option" where
  "perio_add lSeid urrid period s =
     (case map_of (perioList s) period of
        Some g \<Rightarrow> Some (s\<lparr>perioList := mput period (group_add lSeid urrid g) (perioList s)\<rparr>)
      | None \<Rightarrow>
          let g = \<lparr>pg_urrids = [], pg_period = period\<rparr>
          in map_option (\<lambda>s. s\<lparr>perioList := mput period (group_add lSeid urrid g) (perioList s)\<rparr>) (newTicker g s))"

text \<open>The deletion from the first group that has the URR, in the iteration order of the map.\<close>

definition perio_del_in :: "nat \<Rightarrow> u32 \<Rightarrow> int \<Rightarrow> PERIOGroup \<Rightarrow> u32 list \<Rightarrow> PerioServer \<Rightarrow> PerioServer" where
  "perio_del_in lSeid urrid period g us s =
     (let us' = removeAll urrid us
      in if us' \<noteq> [] then s\<lparr>perioList := mput period (g\<lparr>pg_urrids := mput lSeid us' (pg_urrids g)\<rparr>) (perioList s)\<rparr>
         else
           let m = mdel lSeid (pg_urrids g)
           in if m \<noteq> [] then s\<lparr>perioList := mput period (g\<lparr>pg_urrids := m\<rparr>) (perioList s)\<rparr>
              else (stopTicker g s)\<lparr>perioList := mdel period (perioList s)\<rparr>)"

fun perio_del :: "nat \<Rightarrow> u32 \<Rightarrow> (int, PERIOGroup) gomap \<Rightarrow> PerioServer \<Rightarrow> PerioServer" where
  "perio_del lSeid urrid [] s = s"
| "perio_del lSeid urrid ((period, g) # gs) s =
     (case map_of (pg_urrids g) lSeid of
        Some us \<Rightarrow> if urrid \<in> set us then perio_del_in lSeid urrid period g us s else perio_del lSeid urrid gs s
      | None \<Rightarrow> perio_del lSeid urrid gs s)"

definition perio_report :: "nat \<times> USAReport list \<Rightarrow> SessReport" where
  "perio_report r =
     \<lparr>sr_SEID = fst r,
      Reports = map (\<lambda>u. USA (u\<lparr>USARTrigger := (USARTrigger u)\<lparr>ut_Flags := ut_Flags (USARTrigger u) OR USAR_TRIG U_PERIO\<rparr>\<rparr>))
        (snd r)\<rparr>"

definition perio_timeout :: "perio_query \<Rightarrow> int \<Rightarrow> PerioServer \<Rightarrow> PerioServer" where
  "perio_timeout queryURR period s =
     (case map_of (perioList s) period of
        None \<Rightarrow> s
      | Some g \<Rightarrow>
          (case queryURR (pg_urrids g) of
             None \<Rightarrow> s
           | Some seidUsars \<Rightarrow> s\<lparr>notified := notified s @ map perio_report seidUsars\<rparr>))"

definition perio_close :: "PerioServer \<Rightarrow> PerioServer" where
  "perio_close s = (fold (stopTicker \<circ> snd) (perioList s) s)\<lparr>perioList := []\<rparr>"

definition perio_step :: "perio_query \<Rightarrow> perio_event \<Rightarrow> PerioServer \<Rightarrow> PerioServer option" where
  "perio_step queryURR e s =
     (case e of
        PERIO_ADD lSeid urrid period \<Rightarrow> perio_add lSeid urrid period s
      | PERIO_DEL lSeid urrid \<Rightarrow> Some (perio_del lSeid urrid (perioList s) s)
      | PERIO_TIMEOUT period \<Rightarrow> Some (perio_timeout queryURR period s)
      | SERVER_CLOSE \<Rightarrow> Some (perio_close s))"

text \<open>\<open>SERVER_CLOSE\<close> ends the loop and closes the channel: no later event is served.\<close>

fun perio_run :: "perio_query \<Rightarrow> perio_event list \<Rightarrow> PerioServer \<Rightarrow> PerioServer option" where
  "perio_run queryURR [] s = Some s"
| "perio_run queryURR (e # es) s =
     (if e = SERVER_CLOSE then perio_step queryURR e s
      else Option.bind (perio_step queryURR e s) (perio_run queryURR es))"

section \<open>Which URRs are reported periodically\<close>

definition perio_set :: "PerioServer \<Rightarrow> (int \<times> nat \<times> u32) set" where
  "perio_set s = {(p, i, u). \<exists>g us. map_of (perioList s) p = Some g \<and> map_of (pg_urrids g) i = Some us \<and> u \<in> set us}"

definition group_ok :: "int \<Rightarrow> PERIOGroup \<Rightarrow> bool" where
  "group_ok p g \<longleftrightarrow> pg_period g = p \<and> 0 < p \<and> wf_gomap (pg_urrids g) \<and> pg_urrids g \<noteq> []
     \<and> (\<forall>i us. map_of (pg_urrids g) i = Some us \<longrightarrow> us \<noteq> [] \<and> distinct us)"

definition perio_inv :: "PerioServer \<Rightarrow> bool" where
  "perio_inv s \<longleftrightarrow> wf_gomap (perioList s) \<and> (\<forall>p g. map_of (perioList s) p = Some g \<longrightarrow> group_ok p g)
     \<and> distinct (tickers s) \<and> set (tickers s) = dom (map_of (perioList s))"

lemma mput_not_Nil [simp]: "mput k v m \<noteq> []"
  by (cases m) auto

lemma perio_inv_open: "perio_inv OpenServer"
  by (simp add: perio_inv_def OpenServer_def)

lemma perio_set_open: "perio_set OpenServer = {}"
  by (simp add: perio_set_def OpenServer_def)

lemma group_ok_add: "group_ok p g \<or> (g = \<lparr>pg_urrids = [], pg_period = p\<rparr> \<and> 0 < p) \<Longrightarrow> group_ok p (group_add i u g)"
  by (auto simp: group_ok_def group_add_def split: option.splits if_splits)

lemma perio_set_add:
  "perio_set (s\<lparr>perioList := mput p (group_add i u g) (perioList s)\<rparr>)
     = perio_set (s\<lparr>perioList := mput p g (perioList s)\<rparr>) \<union> {(p, i, u)}"
  by (auto simp: perio_set_def group_add_def split: option.splits if_splits)

lemma perio_add_spec:
  assumes "perio_inv s" and "0 < p"
  shows "\<exists>s'. perio_add i u p s = Some s' \<and> perio_inv s' \<and> perio_set s' = insert (p, i, u) (perio_set s)"
proof (cases "map_of (perioList s) p")
  case (Some g)
  have g: "group_ok p (group_add i u g)" using assms(1) Some by (intro group_ok_add) (simp add: perio_inv_def)
  have e: "perio_set (s\<lparr>perioList := mput p g (perioList s)\<rparr>) = perio_set s"
    using Some by (auto simp: perio_set_def split: if_splits)
  have "perio_inv (s\<lparr>perioList := mput p (group_add i u g) (perioList s)\<rparr>)"
    using assms(1) Some g by (auto simp: perio_inv_def)
  then show ?thesis using Some perio_set_add [where s = s and p = p and g = g and i = i and u = u] e by (simp add: perio_add_def)
next
  case None
  let ?g = "\<lparr>pg_urrids = [], pg_period = p\<rparr>"
  let ?s = "s\<lparr>tickers := p # tickers s\<rparr>"
  have g: "group_ok p (group_add i u ?g)" using assms(2) by (intro group_ok_add) simp
  have e: "perio_set (?s\<lparr>perioList := mput p ?g (perioList s)\<rparr>) = perio_set s"
    using None by (auto simp: perio_set_def split: if_splits)
  have "perio_inv (?s\<lparr>perioList := mput p (group_add i u ?g) (perioList s)\<rparr>)"
    using assms(1) None g by (auto simp: perio_inv_def)
  then show ?thesis using None assms(2) perio_set_add [where s = ?s and p = p and g = ?g and i = i and u = u] e
    by (simp add: perio_add_def newTicker_def)
qed


text \<open>The deletion takes one entry of the URR out, if it has any.\<close>

lemma group_ok_removed:
  assumes "group_ok p g" and "map_of (pg_urrids g) i = Some us"
  shows "removeAll u us \<noteq> [] \<Longrightarrow> group_ok p (g\<lparr>pg_urrids := mput i (removeAll u us) (pg_urrids g)\<rparr>)"
    and "mdel i (pg_urrids g) \<noteq> [] \<Longrightarrow> group_ok p (g\<lparr>pg_urrids := mdel i (pg_urrids g)\<rparr>)"
  using assms by (auto simp: group_ok_def distinct_removeAll split: if_splits)

lemma mdel_Nil_map: "mdel k m = [] \<Longrightarrow> map_of m j = Some v \<Longrightarrow> j = k"
  by (metis fun_upd_apply map_of.simps(1) map_of_mdel option.distinct(1))

lemma perio_del_in_inv:
  assumes "perio_inv s" and p: "map_of (perioList s) p = Some g" and us: "map_of (pg_urrids g) i = Some us"
  shows "perio_inv (perio_del_in i u p g us s)"
proof -
  have g: "group_ok p g" using assms(1) p by (simp add: perio_inv_def)
  have ins: "perio_inv (s\<lparr>perioList := mput p g' (perioList s)\<rparr>)" if "group_ok p g'" for g'
    using assms(1) p that by (auto simp: perio_inv_def)
  have "perio_inv ((stopTicker g s)\<lparr>perioList := mdel p (perioList s)\<rparr>)"
    using assms(1) g by (auto simp: perio_inv_def stopTicker_def group_ok_def distinct_removeAll)
  then show ?thesis
    using ins group_ok_removed [OF g us] by (simp add: perio_del_in_def Let_def)
qed

text \<open>The entries of one group.\<close>

definition group_set :: "PERIOGroup \<Rightarrow> (nat \<times> u32) set" where
  "group_set g = {(i, u). \<exists>us. map_of (pg_urrids g) i = Some us \<and> u \<in> set us}"

lemma perio_set_group: "(p, x) \<in> perio_set s \<longleftrightarrow> (\<exists>g. map_of (perioList s) p = Some g \<and> x \<in> group_set g)"
  by (cases x) (auto simp: perio_set_def group_set_def)

lemma perio_set_mput:
  assumes "map_of (perioList s) p = Some g" and "group_set g' = group_set g - {(i, u)}"
  shows "perio_set (s\<lparr>perioList := mput p g' (perioList s)\<rparr>) = perio_set s - {(p, i, u)}"
proof (rule set_eqI)
  fix x :: "int \<times> nat \<times> u32"
  obtain p' y where x: "x = (p', y)" by (cases x)
  show "x \<in> perio_set (s\<lparr>perioList := mput p g' (perioList s)\<rparr>) \<longleftrightarrow> x \<in> perio_set s - {(p, i, u)}"
    using assms by (simp add: x perio_set_group)
qed

lemma perio_set_mdel:
  assumes "map_of (perioList s) p = Some g" and "group_set g \<subseteq> {(i, u)}" and "perioList t = mdel p (perioList s)"
  shows "perio_set t = perio_set s - {(p, i, u)}"
proof (rule set_eqI)
  fix x :: "int \<times> nat \<times> u32"
  obtain p' y where x: "x = (p', y)" by (cases x)
  show "x \<in> perio_set t \<longleftrightarrow> x \<in> perio_set s - {(p, i, u)}"
    using assms by (auto simp: x perio_set_group)
qed

lemma group_set_removed:
  assumes us: "map_of (pg_urrids g) i = Some us"
  shows "group_set (g\<lparr>pg_urrids := mput i (removeAll u us) (pg_urrids g)\<rparr>) = group_set g - {(i, u)}"
    and "removeAll u us = [] \<Longrightarrow> group_set (g\<lparr>pg_urrids := mdel i (pg_urrids g)\<rparr>) = group_set g - {(i, u)}"
proof -
  show "group_set (g\<lparr>pg_urrids := mput i (removeAll u us) (pg_urrids g)\<rparr>) = group_set g - {(i, u)}"
    using us by (auto simp: group_set_def split: if_splits)
  assume "removeAll u us = []"
  then have "set us \<subseteq> {u}" by (metis Diff_eq_empty_iff list.set(1) set_removeAll)
  then show "group_set (g\<lparr>pg_urrids := mdel i (pg_urrids g)\<rparr>) = group_set g - {(i, u)}"
    using us by (auto simp: group_set_def split: if_splits)
qed

lemma perio_del_in_set:
  assumes p: "map_of (perioList s) p = Some g" and us: "map_of (pg_urrids g) i = Some us"
  shows "perio_set (perio_del_in i u p g us s) = perio_set s - {(p, i, u)}"
proof (cases "removeAll u us = [] \<and> mdel i (pg_urrids g) = []")
  case True
  have "group_set (g\<lparr>pg_urrids := mdel i (pg_urrids g)\<rparr>) = {}" using True by (simp add: group_set_def)
  then have "group_set g \<subseteq> {(i, u)}" using group_set_removed(2) [OF us, of u] True by blast
  then show ?thesis
    using True by (intro perio_set_mdel [OF p]) (simp_all add: perio_del_in_def stopTicker_def)
next
  case False
  then show ?thesis
    using group_set_removed [OF us, of u] by (auto simp: perio_del_in_def Let_def intro!: perio_set_mput [OF p])
qed

lemma perio_del_loop:
  assumes "perio_inv s" and "\<forall>(p, g) \<in> set gs. map_of (perioList s) p = Some g"
  shows "perio_inv (perio_del i u gs s)
    \<and> ((\<exists>p. (p, i, u) \<in> perio_set s \<and> perio_set (perio_del i u gs s) = perio_set s - {(p, i, u)})
       \<or> (\<forall>(p, g) \<in> set gs. \<forall>us. map_of (pg_urrids g) i = Some us \<longrightarrow> u \<notin> set us) \<and> perio_del i u gs s = s)"
  using assms(2)
proof (induction gs)
  case Nil
  then show ?case using assms(1) by simp
next
  case (Cons x gs)
  obtain p g where x: "x = (p, g)" by (cases x)
  have p: "map_of (perioList s) p = Some g" using Cons.prems x by simp
  show ?case
  proof (cases "\<exists>us. map_of (pg_urrids g) i = Some us \<and> u \<in> set us")
    case True
    then obtain us where us: "map_of (pg_urrids g) i = Some us" "u \<in> set us" by blast
    have "(p, i, u) \<in> perio_set s" using p us by (auto simp: perio_set_def)
    then show ?thesis
      using x us perio_del_in_inv [OF assms(1) p us(1)] perio_del_in_set [OF p us(1)] by auto
  next
    case False
    then have "perio_del i u (x # gs) s = perio_del i u gs s"
      using x by (auto split: option.splits)
    then show ?thesis using Cons x False by auto
  qed
qed

lemma perio_del_spec:
  assumes "perio_inv s"
  shows "perio_inv (perio_del i u (perioList s) s)"
    and "(\<exists>p. (p, i, u) \<in> perio_set s \<and> perio_set (perio_del i u (perioList s) s) = perio_set s - {(p, i, u)})
      \<or> (\<forall>p. (p, i, u) \<notin> perio_set s) \<and> perio_del i u (perioList s) s = s"
proof -
  have all: "\<forall>(p, g) \<in> set (perioList s). map_of (perioList s) p = Some g"
    using assms by (auto simp: perio_inv_def map_of_eq_Some_iff)
  show "perio_inv (perio_del i u (perioList s) s)" using perio_del_loop [OF assms all] by blast
  have "(\<forall>p. (p, i, u) \<notin> perio_set s)"
    if "\<forall>(p, g) \<in> set (perioList s). \<forall>us. map_of (pg_urrids g) i = Some us \<longrightarrow> u \<notin> set us"
    using that by (fastforce simp: perio_set_def dest: map_of_SomeD)
  then show "(\<exists>p. (p, i, u) \<in> perio_set s \<and> perio_set (perio_del i u (perioList s) s) = perio_set s - {(p, i, u)})
      \<or> (\<forall>p. (p, i, u) \<notin> perio_set s) \<and> perio_del i u (perioList s) s = s"
    using perio_del_loop [OF assms all, of i u] by blast
qed

lemma fold_stopTicker:
  "perioList (fold (stopTicker \<circ> snd) gs s) = perioList s"
  "notified (fold (stopTicker \<circ> snd) gs s) = notified s"
  "tickers (fold (stopTicker \<circ> snd) gs s) = filter (\<lambda>p. p \<notin> pg_period ` snd ` set gs) (tickers s)"
  by (induction gs arbitrary: s) (auto simp: stopTicker_def removeAll_filter_not_eq intro: filter_cong)

lemma perio_close_spec:
  assumes "perio_inv s"
  shows "perio_inv (perio_close s)" and "perio_set (perio_close s) = {}" and "tickers (perio_close s) = []"
proof -
  have "p \<in> pg_period ` snd ` set (perioList s)" if "p \<in> set (tickers s)" for p
  proof -
    have "p \<in> dom (map_of (perioList s))" using assms that by (simp add: perio_inv_def)
    then obtain g where g: "map_of (perioList s) p = Some g" by blast
    then have "pg_period g = p" using assms by (auto simp: perio_inv_def group_ok_def)
    then show ?thesis using map_of_SomeD [OF g] by force
  qed
  then show t: "tickers (perio_close s) = []"
    by (auto simp: perio_close_def fold_stopTicker filter_empty_conv)
  show "perio_inv (perio_close s)" using t by (simp add: perio_inv_def) (simp add: perio_close_def)
  show "perio_set (perio_close s) = {}" by (simp add: perio_set_def perio_close_def)
qed

lemma perio_timeout_spec:
  "perio_inv (perio_timeout q p s) = perio_inv s" "perio_set (perio_timeout q p s) = perio_set s"
  "tickers (perio_timeout q p s) = tickers s"
  by (auto simp: perio_timeout_def perio_inv_def perio_set_def split: option.splits)


section \<open>Refinement\<close>

text \<open>What the server promises: a set of URRs, each with its period.\<close>

fun perio_spec_step :: "perio_event \<Rightarrow> (int \<times> nat \<times> u32) set \<Rightarrow> (int \<times> nat \<times> u32) set" where
  "perio_spec_step (PERIO_ADD i u p) S = insert (p, i, u) S"
| "perio_spec_step (PERIO_DEL i u) S = {x \<in> S. snd x \<noteq> (i, u)}"
| "perio_spec_step (PERIO_TIMEOUT p) S = S"
| "perio_spec_step SERVER_CLOSE S = {}"

fun perio_spec :: "perio_event list \<Rightarrow> (int \<times> nat \<times> u32) set \<Rightarrow> (int \<times> nat \<times> u32) set" where
  "perio_spec [] S = S"
| "perio_spec (e # es) S = (if e = SERVER_CLOSE then {} else perio_spec es (perio_spec_step e S))"

text \<open>The clients add a URR with a positive period, and with another period only after deleting it.\<close>

fun add_allowed :: "perio_event \<Rightarrow> (int \<times> nat \<times> u32) set \<Rightarrow> bool" where
  "add_allowed (PERIO_ADD i u p) S \<longleftrightarrow> 0 < p \<and> {x \<in> S. snd x = (i, u)} \<subseteq> {(p, i, u)}"
| "add_allowed _ S \<longleftrightarrow> True"

fun adds_allowed :: "perio_event list \<Rightarrow> (int \<times> nat \<times> u32) set \<Rightarrow> bool" where
  "adds_allowed [] S \<longleftrightarrow> True"
| "adds_allowed (e # es) S \<longleftrightarrow> add_allowed e S \<and> adds_allowed es (perio_spec_step e S)"

lemma inj_on_del: "inj_on snd S \<Longrightarrow> (p, i, u) \<in> S \<Longrightarrow> S - {(p, i, u)} = {x \<in> S. snd x \<noteq> (i, u)}"
  by (fastforce simp: inj_on_def)

lemma perio_step_refines:
  assumes "perio_inv s" and "inj_on snd (perio_set s)" and "add_allowed e (perio_set s)"
  shows "\<exists>s'. perio_step q e s = Some s' \<and> perio_inv s' \<and> perio_set s' = perio_spec_step e (perio_set s)
    \<and> inj_on snd (perio_set s')"
proof (cases e)
  case (PERIO_ADD i u p)
  have "inj_on snd (insert (p, i, u) (perio_set s))"
    using assms(2,3) PERIO_ADD by (auto simp: inj_on_def)
  then show ?thesis
    using perio_add_spec [OF assms(1), of p i u] assms(3) PERIO_ADD by (auto simp: perio_step_def)
next
  case (PERIO_DEL i u)
  let ?s = "perio_del i u (perioList s) s"
  have "perio_set ?s = {x \<in> perio_set s. snd x \<noteq> (i, u)}"
    using perio_del_spec(2) [OF assms(1), of i u] inj_on_del [OF assms(2)] by fastforce
  moreover have "inj_on snd {x \<in> perio_set s. snd x \<noteq> (i, u)}"
    using assms(2) by (rule inj_on_subset) blast
  ultimately show ?thesis
    using perio_del_spec(1) [OF assms(1)] PERIO_DEL by (simp add: perio_step_def)
next
  case (PERIO_TIMEOUT p)
  then show ?thesis using assms by (simp add: perio_step_def perio_timeout_spec)
next
  case SERVER_CLOSE
  then show ?thesis using perio_close_spec [OF assms(1)] by (simp add: perio_step_def)
qed

lemma perio_run_refines:
  assumes "perio_inv s" and "inj_on snd (perio_set s)" and "adds_allowed es (perio_set s)"
  shows "\<exists>s'. perio_run q es s = Some s' \<and> perio_inv s' \<and> perio_set s' = perio_spec es (perio_set s)"
  using assms
proof (induction es arbitrary: s)
  case Nil
  then show ?case by simp
next
  case (Cons e es)
  obtain s' where "perio_step q e s = Some s'" "perio_inv s'" "perio_set s' = perio_spec_step e (perio_set s)"
      "inj_on snd (perio_set s')"
    using perio_step_refines [of s e q] Cons.prems by auto
  then show ?case using Cons.IH [of s'] Cons.prems(3) by auto
qed

lemma group_set_not_empty: "group_ok p g \<Longrightarrow> group_set g \<noteq> {}"
proof -
  assume g: "group_ok p g"
  then obtain i us m where m: "pg_urrids g = (i, us) # m" by (auto simp: group_ok_def neq_Nil_conv)
  then have i: "map_of (pg_urrids g) i = Some us" by simp
  then have "us \<noteq> []" using g unfolding group_ok_def by blast
  then have "(i, hd us) \<in> group_set g" using i by (auto simp: group_set_def)
  then show ?thesis by blast
qed

lemma perio_tickers:
  assumes "perio_inv s"
  shows "set (tickers s) = fst ` perio_set s"
proof -
  have "p \<in> fst ` perio_set s \<longleftrightarrow> (\<exists>g. map_of (perioList s) p = Some g)" for p
  proof
    assume "\<exists>g. map_of (perioList s) p = Some g"
    then obtain g where g: "map_of (perioList s) p = Some g" by blast
    then obtain x where "x \<in> group_set g" using assms group_set_not_empty [of p g] unfolding perio_inv_def by blast
    then show "p \<in> fst ` perio_set s" using g perio_set_group [of p x s] by force
  qed (auto simp: perio_set_group image_iff)
  then show ?thesis using assms by (auto simp: perio_inv_def)
qed


definition demo_perio :: "perio_event list" where
  "demo_perio = [PERIO_ADD 1 5 10, PERIO_ADD 2 5 10, PERIO_ADD 1 6 20, PERIO_TIMEOUT 10, PERIO_DEL 1 6]"


section \<open>The goroutines\<close>

text \<open>
  \<open>pc_queue\<close> is the event channel, \<open>pc_stop\<close> the tickers that the loop is stopping (it waits in \<open>stopTicker\<close> until the
  goroutine of the first one takes the value), \<open>pc_sending\<close> the periods whose goroutine took a tick and is about to send
  its event. A goroutine that is sending does not listen on its stop channel.
\<close>

record perio_conc =
  pc_queue :: "perio_event list"
  pc_srv :: PerioServer
  pc_stop :: "int list"
  pc_sending :: "int list"
  pc_closed :: bool

definition perio_start :: perio_conc where
  "perio_start = \<lparr>pc_queue = [], pc_srv = OpenServer, pc_stop = [], pc_sending = [], pc_closed = False\<rparr>"

inductive perio_trans :: "perio_query \<Rightarrow> perio_conc \<Rightarrow> perio_conc \<Rightarrow> bool" for q where
  client: "length (pc_queue c) < EVENT_CHANNEL_LEN \<Longrightarrow> \<not> (pc_closed c \<and> pc_stop c = []) \<Longrightarrow> (\<forall>p. e \<noteq> PERIO_TIMEOUT p) \<Longrightarrow>
    perio_trans q c (c\<lparr>pc_queue := pc_queue c @ [e]\<rparr>)"
| tick: "p \<in> set (tickers (pc_srv c)) \<union> set (pc_stop c) \<Longrightarrow> p \<notin> set (pc_sending c) \<Longrightarrow>
    perio_trans q c (c\<lparr>pc_sending := p # pc_sending c\<rparr>)"
| send: "p \<in> set (pc_sending c) \<Longrightarrow> length (pc_queue c) < EVENT_CHANNEL_LEN \<Longrightarrow>
    perio_trans q c (c\<lparr>pc_queue := pc_queue c @ [PERIO_TIMEOUT p], pc_sending := removeAll p (pc_sending c)\<rparr>)"
| serve: "pc_stop c = [] \<Longrightarrow> \<not> pc_closed c \<Longrightarrow> pc_queue c = e # es \<Longrightarrow> perio_step q e (pc_srv c) = Some s \<Longrightarrow>
    perio_trans q c (c\<lparr>pc_queue := es, pc_srv := s, pc_stop := filter (\<lambda>p. p \<notin> set (tickers s)) (tickers (pc_srv c)),
      pc_closed := (e = SERVER_CLOSE)\<rparr>)"
| stop: "pc_stop c = p # ps \<Longrightarrow> p \<notin> set (pc_sending c) \<Longrightarrow> perio_trans q c (c\<lparr>pc_stop := ps\<rparr>)"

inductive_cases perio_transE: "perio_trans q c c'"

abbreviation perio_reaches :: "perio_query \<Rightarrow> perio_conc \<Rightarrow> perio_conc \<Rightarrow> bool" where
  "perio_reaches q \<equiv> (perio_trans q)\<^sup>*\<^sup>*"

lemma client_fill:
  assumes "length (pc_queue c) + n \<le> EVENT_CHANNEL_LEN" and "\<not> pc_closed c" and "\<forall>p. e \<noteq> PERIO_TIMEOUT p"
  shows "perio_reaches q c (c\<lparr>pc_queue := pc_queue c @ replicate n e\<rparr>)"
  using assms(1)
proof (induction n)
  case 0
  then show ?case by simp
next
  case (Suc n)
  let ?c = "c\<lparr>pc_queue := pc_queue c @ replicate n e\<rparr>"
  have "perio_trans q ?c (?c\<lparr>pc_queue := pc_queue ?c @ [e]\<rparr>)"
    by (rule perio_trans.client) (use Suc.prems assms(2,3) in simp_all)
  moreover have "pc_queue c @ replicate (Suc n) e = (pc_queue c @ replicate n e) @ [e]"
    by (simp add: replicate_append_same)
  ultimately show ?case using Suc by (auto intro: rtranclp.rtrancl_into_rtrancl)
qed

text \<open>A loop that waits for a ticker whose goroutine waits for room in a full channel waits for ever.\<close>

lemma perio_stuck:
  assumes "length (pc_queue c) = EVENT_CHANNEL_LEN" and "pc_stop c = p # ps" and "p \<in> set (pc_sending c)"
    and "set (tickers (pc_srv c)) \<union> set (pc_stop c) \<subseteq> set (pc_sending c)"
  shows "\<not> perio_trans q c c'"
  using assms by (auto elim!: perio_transE)


text \<open>C34: The server of periodic reports can deadlock. From its start, one URR with a period is added and deleted while
  clients fill the event channel; the ticker of the period fires after the loop took the deletion and before it stops the
  ticker. The loop then waits for the goroutine to take the stop value, the goroutine waits for room in the full channel,
  which only the loop can make, and no step of the loop, a ticker or a client is possible any more, although the server
  was not closed.\<close>

theorem perio_deadlock_reachable:
  "\<exists>c. perio_reaches q perio_start c \<and> \<not> pc_closed c \<and> pc_queue c \<noteq> [] \<and> (\<forall>c'. \<not> perio_trans q c c')"
proof -
  let ?a = "PERIO_ADD 1 5 10" and ?d = "PERIO_DEL 1 5"
  let ?s1 = "\<lparr>perioList = [(10, \<lparr>pg_urrids = [(1, [5])], pg_period = 10\<rparr>)], tickers = [10], notified = []\<rparr>"
  let ?c = "\<lambda>es s st sn. \<lparr>pc_queue = es, pc_srv = s, pc_stop = st, pc_sending = sn, pc_closed = False\<rparr>"
  have add: "perio_step q ?a OpenServer = Some ?s1"
    by (simp add: perio_step_def perio_add_def newTicker_def group_add_def OpenServer_def)
  have del: "perio_step q ?d ?s1 = Some OpenServer"
    by (simp add: perio_step_def perio_del_in_def stopTicker_def OpenServer_def)
  have 1: "perio_reaches q perio_start (?c [?a] OpenServer [] [])"
    using client_fill [of perio_start 1 ?a q] by (simp add: perio_start_def EVENT_CHANNEL_LEN_def)
  have 2: "perio_trans q (?c [?a] OpenServer [] []) (?c [] ?s1 [] [])"
    using perio_trans.serve [of "?c [?a] OpenServer [] []" ?a "[]" q ?s1] add by (simp add: OpenServer_def)
  have 3: "perio_reaches q (?c [] ?s1 [] []) (?c [?d] ?s1 [] [])"
    using client_fill [of "?c [] ?s1 [] []" 1 ?d q] by (simp add: EVENT_CHANNEL_LEN_def)
  have 4: "perio_reaches q (?c [?d] ?s1 [] []) (?c (?d # replicate 511 ?d) ?s1 [] [])"
    using client_fill [of "?c [?d] ?s1 [] []" 511 ?d q] by (simp add: EVENT_CHANNEL_LEN_def)
  have 5: "perio_trans q (?c (?d # replicate 511 ?d) ?s1 [] []) (?c (replicate 511 ?d) OpenServer [10] [])"
    using perio_trans.serve [of "?c (?d # replicate 511 ?d) ?s1 [] []" ?d "replicate 511 ?d" q OpenServer] del
    by (simp add: OpenServer_def)
  have 6: "perio_reaches q (?c (replicate 511 ?d) OpenServer [10] []) (?c (replicate 511 ?d @ [?d]) OpenServer [10] [])"
    using client_fill [of "?c (replicate 511 ?d) OpenServer [10] []" 1 ?d q] by (simp add: EVENT_CHANNEL_LEN_def)
  have 7: "perio_trans q (?c (replicate 511 ?d @ [?d]) OpenServer [10] []) (?c (replicate 511 ?d @ [?d]) OpenServer [10] [10])"
    using perio_trans.tick [of 10 "?c (replicate 511 ?d @ [?d]) OpenServer [10] []" q] by simp
  have "perio_reaches q perio_start (?c (replicate 511 ?d @ [?d]) OpenServer [10] [10])"
    using 1 2 3 4 5 6 7 by (meson rtranclp.rtrancl_into_rtrancl rtranclp_trans)
  moreover have "\<not> perio_trans q (?c (replicate 511 ?d @ [?d]) OpenServer [10] [10]) c'" for c'
    by (rule perio_stuck) (simp_all add: EVENT_CHANNEL_LEN_def OpenServer_def)
  ultimately show ?thesis by (intro exI [of _ "?c (replicate 511 ?d @ [?d]) OpenServer [10] [10]"]) simp
qed

end
