(* ===== verification/Upf_Gtp5g_Exec.thy ===== *)
theory Upf_Gtp5g_Exec
  imports Upf_Gtp5g Upf_Gtpv1 Upf_Perio Upf_Plain_Driver
begin

unbundle bit_operations_syntax

text \<open>
  The forwarder for the kernel module gtp5g, \<open>NFs/upf/internal/forwarder/gtp5g.go\<close>, second part: the execution of plans,
  the queries for usage reports and the delivery of buffered packets; together with the \<open>Build*Plan\<close> methods this is an
  instance of the \<open>Driver\<close> interface, \<open>gtp5g_driver\<close>.

  The kernel, reached through go-gtp5gnl, is a parameter: \<open>gtp5gnl\<close> holds its operations on a kernel state. The state of
  the forwarder is the kernel state, the events sent to the server of periodic reports, and the packets written to the
  GTP-U socket, in order. An operation of the kernel returns whether it succeeded; where the source only logs a failure,
  the result is dropped. \<open>None\<close> is a panic, which the encoder of GTP-U messages could raise.
\<close>

section \<open>The kernel interface\<close>

datatype rule_kind = KPDR | KFAR | KQER | KURR | KBAR

record kernel_usar =
  ku_SEID :: nat
  ku_URRID :: u32
  ku_QueryUrrRef :: u32
  ku_StartTime :: int
  ku_EndTime :: int
  ku_USARTrigger :: u32
  ku_TotalVolume :: u64
  ku_UplinkVolume :: u64
  ku_DownlinkVolume :: u64
  ku_TotalPktNum :: u64
  ku_UplinkPktNum :: u64
  ku_DownlinkPktNum :: u64

text \<open>A FAR has the address, the port and the TEID of its outer header, if it has forwarding parameters with one.\<close>

record kernel_FAR =
  kf_Action :: u16
  kf_PDRIDs :: "u16 list"
  kf_Creation :: "(bytes \<times> u16 \<times> u32) option"

record 'k gtp5gnl =
  nl_Create :: "rule_kind \<Rightarrow> nat list \<Rightarrow> attrs \<Rightarrow> 'k \<Rightarrow> bool \<times> 'k"
  nl_Update :: "rule_kind \<Rightarrow> nat list \<Rightarrow> attrs \<Rightarrow> 'k \<Rightarrow> bool \<times> 'k"
  nl_Remove :: "rule_kind \<Rightarrow> nat list \<Rightarrow> 'k \<Rightarrow> bool \<times> 'k"
  nl_UpdateURR :: "nat list \<Rightarrow> attrs \<Rightarrow> 'k \<Rightarrow> kernel_usar list \<times> 'k"
  nl_RemoveURR :: "nat list \<Rightarrow> 'k \<Rightarrow> kernel_usar list \<times> 'k"
  nl_GetFAR :: "nat list \<Rightarrow> 'k \<Rightarrow> kernel_FAR option"
  nl_GetPDR :: "nat list \<Rightarrow> 'k \<Rightarrow> u32 list option"
  nl_GetQER :: "nat list \<Rightarrow> 'k \<Rightarrow> u8 option"
  nl_GetReport :: "nat list \<Rightarrow> 'k \<Rightarrow> kernel_usar list option \<times> 'k"
  nl_GetMultiReports :: "nat list list \<Rightarrow> 'k \<Rightarrow> kernel_usar list option \<times> 'k"
  MaxNetlinkUsageReportNum :: nat

text \<open>\<open>nl_GetPDR\<close> returns the QERs of a PDR, \<open>nl_GetQER\<close> the QoS flow identifier of a QER, all that is read of them.\<close>

record 'k Gtp5g =
  g_kernel :: 'k
  g_perio :: "perio_event list"
  g_sent :: "(bytes \<times> bytes \<times> u16) list"

definition kernel_op :: "('k \<Rightarrow> 'r \<times> 'k) \<Rightarrow> 'k Gtp5g \<Rightarrow> 'r \<times> 'k Gtp5g" where
  "kernel_op f g = (let (r, k) = f (g_kernel g) in (r, g\<lparr>g_kernel := k\<rparr>))"

section \<open>Usage reports\<close>

definition plain_report :: "kernel_usar \<Rightarrow> USAReport" where
  "plain_report r =
     \<lparr>ur_URRID = ku_URRID r, URSEQN = 0, USARTrigger = \<lparr>ut_Flags = 0\<rparr>,
      VolumMeasure = \<lparr>vm_Flags = 0, TotalVolume = ku_TotalVolume r, UplinkVolume = ku_UplinkVolume r,
        DownlinkVolume = ku_DownlinkVolume r, TotalPktNum = ku_TotalPktNum r, UplinkPktNum = ku_UplinkPktNum r,
        DownlinkPktNum = ku_DownlinkPktNum r\<rparr>,
      DuratMeasure = \<lparr>DurationValue = 0\<rparr>, QueryUrrRef = ku_QueryUrrRef r, StartTime = ku_StartTime r, EndTime = ku_EndTime r\<rparr>"

definition convertUSAReport :: "kernel_usar \<Rightarrow> USAReport" where
  "convertUSAReport r = (plain_report r)\<lparr>USARTrigger := \<lparr>ut_Flags = ku_USARTrigger r\<rparr>\<rparr>"

definition gtp5g_QueryURR :: "'k gtp5gnl \<Rightarrow> nat \<Rightarrow> u32 \<Rightarrow> 'k Gtp5g \<Rightarrow> USAReport list option \<times> 'k Gtp5g" where
  "gtp5g_QueryURR nl lSeid urrid g =
     (let (rs, g') = kernel_op (nl_GetReport nl [lSeid, unat urrid]) g
      in (map_option (map plain_report) rs, g'))"

text \<open>
  The nested loops of \<open>queryMultiURR\<close> visit the pairs of a SEID and a URR of \<open>multi_oids\<close> in order. The state is the
  OIDs not asked for yet, with the reports so far; \<open>None\<close> is a failed request.
\<close>

definition multi_oids :: "(nat, u32 list) gomap \<Rightarrow> nat list list" where
  "multi_oids m = concat (map (\<lambda>(seid, us). map (\<lambda>u. [seid, unat u]) us) m)"

fun multi_loop :: "'k gtp5gnl \<Rightarrow> nat list list \<Rightarrow> nat list list \<Rightarrow> kernel_usar list \<Rightarrow> 'k Gtp5g
    \<Rightarrow> (nat list list \<times> kernel_usar list) option \<times> 'k Gtp5g" where
  "multi_loop nl [] oids reports g = (Some (oids, reports), g)"
| "multi_loop nl (x # xs) oids reports g =
     (let oids' = oids @ [x]
      in if length oids' \<ge> MaxNetlinkUsageReportNum nl
         then (case kernel_op (nl_GetMultiReports nl oids') g of
                 (None, g') \<Rightarrow> (None, g')
               | (Some rs, g') \<Rightarrow> multi_loop nl xs [] (reports @ rs) g')
         else multi_loop nl xs oids' reports g)"

definition group_report :: "kernel_usar \<Rightarrow> (nat, USAReport list) gomap \<Rightarrow> (nat, USAReport list) gomap" where
  "group_report r m =
     mput (ku_SEID r) ((case map_of m (ku_SEID r) of None \<Rightarrow> [] | Some us \<Rightarrow> us) @ [plain_report r]) m"

definition queryMultiURR ::
  "'k gtp5gnl \<Rightarrow> (nat, u32 list) gomap \<Rightarrow> 'k Gtp5g \<Rightarrow> (nat, USAReport list) gomap option \<times> 'k Gtp5g" where
  "queryMultiURR nl m g =
     (case multi_loop nl (multi_oids m) [] [] g of
        (None, g') \<Rightarrow> (None, g')
      | (Some (oids, reports), g') \<Rightarrow>
          if oids = [] then (Some (fold group_report reports []), g')
          else (case kernel_op (nl_GetMultiReports nl oids) g' of
                  (None, g'') \<Rightarrow> (None, g'')
                | (Some rs, g'') \<Rightarrow> (Some (fold group_report (reports @ rs) []), g'')))"

section \<open>Buffered packets\<close>

text \<open>The error of a FAR without an outer header is only logged.\<close>

definition WritePacket :: "kernel_FAR \<Rightarrow> u8 option \<Rightarrow> bytes \<Rightarrow> 'k Gtp5g \<Rightarrow> 'k Gtp5g option" where
  "WritePacket far qer pkt g =
     (case kf_Creation far of
        None \<Rightarrow> Some g
      | Some (ip, port, teid) \<Rightarrow>
          let msg = \<lparr>m_Flags = 0x34, m_Type = MsgTypeTPDU, m_TEID = teid, m_SequenceNumber = 0, m_NPDUNumber = 0,
                m_Exts = (case qer of None \<Rightarrow> [] | Some qfi \<Rightarrow> [PDUSessionContainer 0 qfi]), m_Payload = pkt\<rparr>
          in (case Message_Encode msg (replicate (Message_Len msg) 0) of
                None \<Rightarrow> None
              | Some (_, b) \<Rightarrow> Some (g\<lparr>g_sent := g_sent g @ [(b, ip, port)]\<rparr>)))"

fun write_packets :: "kernel_FAR \<Rightarrow> u8 option \<Rightarrow> bytes list \<Rightarrow> 'k Gtp5g \<Rightarrow> 'k Gtp5g option" where
  "write_packets far qer [] g = Some g"
| "write_packets far qer (p # ps) g = Option.bind (WritePacket far qer p g) (write_packets far qer ps)"

text \<open>The first QER of a PDR that the kernel knows and that has a QoS flow identifier.\<close>

fun find_qer :: "'k gtp5gnl \<Rightarrow> nat \<Rightarrow> u32 list \<Rightarrow> 'k \<Rightarrow> u8 option" where
  "find_qer nl lSeid [] k = None"
| "find_qer nl lSeid (q # qs) k =
     (case nl_GetQER nl [lSeid, unat q] k of
        None \<Rightarrow> find_qer nl lSeid qs k
      | Some qfi \<Rightarrow> if qfi \<noteq> 0 then Some qfi else find_qer nl lSeid qs k)"

text \<open>A queue that was emptied before has nothing to pop; \<open>ks\<close> are the PDRs emptied so far.\<close>

definition popped :: "(u16 \<Rightarrow> bytes list) \<Rightarrow> u16 list \<Rightarrow> u16 \<Rightarrow> bytes list" where
  "popped q ks pdrid = (if pdrid \<in> set ks then [] else q pdrid)"

fun forward_pdrs :: "'k gtp5gnl \<Rightarrow> nat \<Rightarrow> kernel_FAR \<Rightarrow> (u16 \<Rightarrow> bytes list) \<Rightarrow> u16 list \<Rightarrow> u16 list \<Rightarrow> 'k Gtp5g
    \<Rightarrow> (u16 list \<times> 'k Gtp5g) option" where
  "forward_pdrs nl lSeid far q [] ks g = Some (ks, g)"
| "forward_pdrs nl lSeid far q (p # ps) ks g =
     (case nl_GetPDR nl [lSeid, unat p] (g_kernel g) of
        None \<Rightarrow> forward_pdrs nl lSeid far q ps ks g
      | Some qers \<Rightarrow>
          Option.bind (write_packets far (find_qer nl lSeid qers (g_kernel g)) (popped q ks p) g)
            (forward_pdrs nl lSeid far q ps (ks @ [p])))"

definition applyAction :: "'k gtp5gnl \<Rightarrow> nat \<Rightarrow> u32 \<Rightarrow> ApplyAction \<Rightarrow> (u16 \<Rightarrow> bytes list) \<Rightarrow> u16 list \<Rightarrow> 'k Gtp5g
    \<Rightarrow> (u16 list \<times> 'k Gtp5g) option" where
  "applyAction nl lSeid farid act q ks g =
     (case nl_GetFAR nl [lSeid, unat farid] (g_kernel g) of
        None \<Rightarrow> Some (ks, g)
      | Some far \<Rightarrow>
          if kf_Action far AND APPLY_ACT A_BUFF = 0 then Some (ks, g)
          else if ApplyAction_has act A_DROP then Some (ks @ kf_PDRIDs far, g)
          else if ApplyAction_has act A_FORW then forward_pdrs nl lSeid far q (kf_PDRIDs far) ks g
          else Some (ks, g))"

section \<open>Execution\<close>

definition create_FAR :: "'k gtp5gnl \<Rightarrow> 'ie FARPlan \<Rightarrow> 'k Gtp5g \<Rightarrow> bool \<times> 'k Gtp5g" where
  "create_FAR nl p = kernel_op (nl_Create nl KFAR (fp_OID p) (fp_Attrs p))"

definition create_QER :: "'k gtp5gnl \<Rightarrow> 'ie QERPlan \<Rightarrow> 'k Gtp5g \<Rightarrow> bool \<times> 'k Gtp5g" where
  "create_QER nl p = kernel_op (nl_Create nl KQER (qp_OID p) (qp_Attrs p))"

definition create_URR :: "'k gtp5gnl \<Rightarrow> nat \<Rightarrow> 'ie URRPlan \<Rightarrow> 'k Gtp5g \<Rightarrow> bool \<times> 'k Gtp5g" where
  "create_URR nl seid p g =
     kernel_op (nl_Create nl KURR (up_OID p) (up_Attrs p))
       (if ReportingTrigger_has (up_ReportingTrigger p) R_PERIO \<and> up_MeasurePeriod p > 0
        then g\<lparr>g_perio := g_perio g @ [PERIO_ADD seid (up_URRID p) (up_MeasurePeriod p)]\<rparr> else g)"

definition create_BAR :: "'k gtp5gnl \<Rightarrow> 'ie BARPlan \<Rightarrow> 'k Gtp5g \<Rightarrow> bool \<times> 'k Gtp5g" where
  "create_BAR nl p = kernel_op (nl_Create nl KBAR (bp_OID p) (bp_Attrs p))"

definition create_PDR :: "'k gtp5gnl \<Rightarrow> 'ie PDRPlan \<Rightarrow> 'k Gtp5g \<Rightarrow> bool \<times> 'k Gtp5g" where
  "create_PDR nl p = kernel_op (nl_Create nl KPDR (pp_OID p) (pp_Attrs p))"

text \<open>Best effort: every operation is executed, failures are logged only.\<close>

definition exec_creates :: "'k gtp5gnl \<Rightarrow> 'ie ModificationPlan \<Rightarrow> 'k Gtp5g \<Rightarrow> 'k Gtp5g" where
  "exec_creates nl plan g =
     fold (\<lambda>p g. snd (create_PDR nl p g)) (CreatePDRs plan)
     (fold (\<lambda>p g. snd (create_BAR nl p g)) (CreateBARs plan)
     (fold (\<lambda>p g. snd (create_URR nl (mp_SEID plan) p g)) (CreateURRs plan)
     (fold (\<lambda>p g. snd (create_QER nl p g)) (CreateQERs plan)
     (fold (\<lambda>p g. snd (create_FAR nl p g)) (CreateFARs plan) g))))"

definition remove_rule :: "'k gtp5gnl \<Rightarrow> rule_kind \<Rightarrow> nat list \<Rightarrow> 'k Gtp5g \<Rightarrow> 'k Gtp5g" where
  "remove_rule nl kind oid g = snd (kernel_op (nl_Remove nl kind oid) g)"

definition update_rule :: "'k gtp5gnl \<Rightarrow> rule_kind \<Rightarrow> nat list \<Rightarrow> attrs \<Rightarrow> 'k Gtp5g \<Rightarrow> 'k Gtp5g" where
  "update_rule nl kind oid attrs g = snd (kernel_op (nl_Update nl kind oid attrs) g)"

definition remove_URR :: "'k gtp5gnl \<Rightarrow> nat \<Rightarrow> 'ie URRPlan \<Rightarrow> USAReport list \<times> 'k Gtp5g \<Rightarrow> USAReport list \<times> 'k Gtp5g" where
  "remove_URR nl seid p s =
     (let g = (snd s)\<lparr>g_perio := g_perio (snd s) @ [PERIO_DEL seid (up_URRID p)]\<rparr>;
          (rs, g') = kernel_op (nl_RemoveURR nl (up_OID p)) g
      in (fst s @ map convertUSAReport rs, g'))"

definition exec_removes ::
  "'k gtp5gnl \<Rightarrow> 'ie ModificationPlan \<Rightarrow> USAReport list \<times> 'k Gtp5g \<Rightarrow> USAReport list \<times> 'k Gtp5g" where
  "exec_removes nl plan s =
     (let g1 = fold (\<lambda>p. remove_rule nl KPDR (pp_OID p)) (RemovePDRs plan) (snd s);
          g2 = fold (\<lambda>p. remove_rule nl KBAR (bp_OID p)) (RemoveBARs plan) g1;
          (rs, g3) = fold (remove_URR nl (mp_SEID plan)) (RemoveURRs plan) (fst s, g2);
          g4 = fold (\<lambda>p. remove_rule nl KQER (qp_OID p)) (RemoveQERs plan) g3;
          g5 = fold (\<lambda>p. remove_rule nl KFAR (fp_OID p)) (RemoveFARs plan) g4
      in (rs, g5))"

fun update_FARs :: "'k gtp5gnl \<Rightarrow> nat \<Rightarrow> (u16 \<Rightarrow> bytes list) \<Rightarrow> 'ie FARPlan list \<Rightarrow> u16 list \<Rightarrow> 'k Gtp5g
    \<Rightarrow> (u16 list \<times> 'k Gtp5g) option" where
  "update_FARs nl seid q [] ks g = Some (ks, g)"
| "update_FARs nl seid q (p # ps) ks g =
     (let g1 = update_rule nl KFAR (fp_OID p) (fp_Attrs p) g
      in case (case fp_ApplyAction p of
                 None \<Rightarrow> Some (ks, g1)
               | Some act \<Rightarrow> applyAction nl seid (fp_FARID p) act q ks g1) of
           None \<Rightarrow> None
         | Some (ks', g2) \<Rightarrow> update_FARs nl seid q ps ks' g2)"

definition update_URR :: "'k gtp5gnl \<Rightarrow> 'ie URRPlan \<Rightarrow> USAReport list \<times> 'k Gtp5g \<Rightarrow> USAReport list \<times> 'k Gtp5g" where
  "update_URR nl p s =
     (let (rs, g') = kernel_op (nl_UpdateURR nl (up_OID p) (up_Attrs p)) (snd s)
      in (fst s @ map convertUSAReport rs, g'))"

definition query_URR :: "'k gtp5gnl \<Rightarrow> 'ie URRPlan \<Rightarrow> USAReport list \<times> 'k Gtp5g \<Rightarrow> USAReport list \<times> 'k Gtp5g" where
  "query_URR nl p s =
     (case kernel_op (nl_GetReport nl (up_OID p)) (snd s) of
        (None, g') \<Rightarrow> (fst s, g')
      | (Some rs, g') \<Rightarrow> (fst s @ map convertUSAReport rs, g'))"

definition exec_updates ::
  "'k gtp5gnl \<Rightarrow> 'ie ModificationPlan \<Rightarrow> USAReport list \<times> 'k Gtp5g \<Rightarrow> USAReport list \<times> 'k Gtp5g" where
  "exec_updates nl plan s =
     (let g1 = fold (\<lambda>p. update_rule nl KQER (qp_OID p) (qp_Attrs p)) (UpdateQERs plan) (snd s);
          (rs, g2) = fold (update_URR nl) (UpdateURRs plan) (fst s, g1);
          g3 = fold (\<lambda>p. update_rule nl KBAR (bp_OID p) (bp_Attrs p)) (UpdateBARs plan) g2;
          g4 = fold (\<lambda>p. update_rule nl KPDR (pp_OID p) (pp_Attrs p)) (UpdatePDRs plan) g3
      in fold (query_URR nl) (QueryURRs plan) (rs, g4))"

definition gtp5g_ExecuteModificationPlan ::
  "'k gtp5gnl \<Rightarrow> 'ie ModificationPlan \<Rightarrow> (u16 \<Rightarrow> bytes list) \<Rightarrow> 'k Gtp5g
    \<Rightarrow> (USAReport list \<times> u16 list \<times> 'k Gtp5g) option" where
  "gtp5g_ExecuteModificationPlan nl plan q g =
     (let (rs, g1) = exec_removes nl plan (NewExecutionResult, exec_creates nl plan g)
      in case update_FARs nl (mp_SEID plan) q (UpdateFARs plan) [] g1 of
           None \<Rightarrow> None
         | Some (ks, g2) \<Rightarrow> let (rs', g3) = exec_updates nl plan (rs, g2) in Some (rs', ks, g3))"

text \<open>Fail-fast: the first failure ends the execution.\<close>

fun try_all :: "('p \<Rightarrow> 'g \<Rightarrow> bool \<times> 'g) \<Rightarrow> 'p list \<Rightarrow> 'g \<Rightarrow> bool \<times> 'g" where
  "try_all f [] g = (True, g)"
| "try_all f (p # ps) g = (case f p g of (False, g') \<Rightarrow> (False, g') | (True, g') \<Rightarrow> try_all f ps g')"

definition and_try :: "bool \<times> 'g \<Rightarrow> ('g \<Rightarrow> bool \<times> 'g) \<Rightarrow> bool \<times> 'g" where
  "and_try r f = (if fst r then f (snd r) else r)"

definition gtp5g_ExecuteEstablishmentPlan ::
  "'k gtp5gnl \<Rightarrow> 'ie ModificationPlan \<Rightarrow> 'k Gtp5g \<Rightarrow> USAReport list option \<times> 'k Gtp5g" where
  "gtp5g_ExecuteEstablishmentPlan nl plan g =
     (let (ok, g') =
            and_try (and_try (and_try (and_try
              (try_all (create_FAR nl) (CreateFARs plan) g)
              (try_all (create_QER nl) (CreateQERs plan)))
              (try_all (create_URR nl (mp_SEID plan)) (CreateURRs plan)))
              (try_all (create_BAR nl) (CreateBARs plan)))
              (try_all (create_PDR nl) (CreatePDRs plan))
      in (if ok then Some NewExecutionResult else None, g'))"

section \<open>The driver\<close>

definition gtp5g_driver :: "'k gtp5gnl \<Rightarrow> 'ie pfcp_ies \<Rightarrow> ('k Gtp5g, 'ie) Driver" where
  "gtp5g_driver nl api =
     \<lparr>QueryURR = (\<lambda>g lSeid urrid. gtp5g_QueryURR nl lSeid urrid g),
      BuildCreatePDRPlan = (\<lambda>i r. gores_option (gtp5g_BuildCreatePDRPlan api i r)),
      BuildUpdatePDRPlan = (\<lambda>i r. gores_option (gtp5g_BuildUpdatePDRPlan api i r)),
      BuildRemovePDRPlan = (\<lambda>i r. gores_option (gtp5g_BuildRemovePDRPlan api i r)),
      BuildCreateFARPlan = (\<lambda>i r. gores_option (gtp5g_BuildCreateFARPlan api i r)),
      BuildUpdateFARPlan = (\<lambda>i r. gores_option (gtp5g_BuildUpdateFARPlan api i r)),
      BuildRemoveFARPlan = (\<lambda>i r. gores_option (gtp5g_BuildRemoveFARPlan api i r)),
      BuildCreateQERPlan = (\<lambda>i r. gores_option (gtp5g_BuildCreateQERPlan api i r)),
      BuildUpdateQERPlan = (\<lambda>i r. gores_option (gtp5g_BuildUpdateQERPlan api i r)),
      BuildRemoveQERPlan = (\<lambda>i r. gores_option (gtp5g_BuildRemoveQERPlan api i r)),
      BuildCreateURRPlan = (\<lambda>i r. gores_option (gtp5g_BuildCreateURRPlan api i r)),
      BuildUpdateURRPlan = (\<lambda>i r. gores_option (gtp5g_BuildUpdateURRPlan api i r)),
      BuildRemoveURRPlan = (\<lambda>i r. gores_option (gtp5g_BuildRemoveURRPlan api i r)),
      BuildQueryURRPlan = (\<lambda>i r. gores_option (gtp5g_BuildQueryURRPlan api i r)),
      BuildCreateBARPlan = (\<lambda>i r. gores_option (gtp5g_BuildCreateBARPlan api i r)),
      BuildUpdateBARPlan = (\<lambda>i r. gores_option (gtp5g_BuildUpdateBARPlan api i r)),
      BuildRemoveBARPlan = (\<lambda>i r. gores_option (gtp5g_BuildRemoveBARPlan api i r)),
      ExecuteModificationPlan = (\<lambda>g plan q.
        case gtp5g_ExecuteModificationPlan nl plan q g of
          None \<Rightarrow> (None, [], g) | Some (rs, ks, g') \<Rightarrow> (Some rs, ks, g')),
      ExecuteEstablishmentPlan = (\<lambda>g plan. gtp5g_ExecuteEstablishmentPlan nl plan g)\<rparr>"

end
