(* ===== verification/Upf_Gtp5g_Props.thy ===== *)
theory Upf_Gtp5g_Props
  imports Upf_Gtp5g_Exec Upf_Pfcp_Modify
begin

unbundle bit_operations_syntax

text \<open>
  What the gtp5g forwarder guarantees, and its composition with the PFCP server: which kernel operations an execution
  performs, what happens to buffered packets, what a failed establishment leaves behind, how closing a session cleans up,
  and how usage reports are asked for in batches.
\<close>

section \<open>Kernel operations of a plan\<close>

datatype kernel_request =
  KCreate rule_kind "nat list" attrs
| KUpdate rule_kind "nat list" attrs
| KRemove rule_kind "nat list"
| KUpdateURR "nat list" attrs
| KRemoveURR "nat list"
| KGetReport "nat list"

fun request :: "'k gtp5gnl \<Rightarrow> kernel_request \<Rightarrow> 'k \<Rightarrow> 'k" where
  "request nl (KCreate kind oid as) k = snd (nl_Create nl kind oid as k)"
| "request nl (KUpdate kind oid as) k = snd (nl_Update nl kind oid as k)"
| "request nl (KRemove kind oid) k = snd (nl_Remove nl kind oid k)"
| "request nl (KUpdateURR oid as) k = snd (nl_UpdateURR nl oid as k)"
| "request nl (KRemoveURR oid) k = snd (nl_RemoveURR nl oid k)"
| "request nl (KGetReport oid) k = snd (nl_GetReport nl oid k)"

definition create_requests :: "'ie ModificationPlan \<Rightarrow> (rule_kind \<times> nat list \<times> attrs) list" where
  "create_requests plan =
     map (\<lambda>p. (KFAR, fp_OID p, fp_Attrs p)) (CreateFARs plan)
     @ map (\<lambda>p. (KQER, qp_OID p, qp_Attrs p)) (CreateQERs plan)
     @ map (\<lambda>p. (KURR, up_OID p, up_Attrs p)) (CreateURRs plan)
     @ map (\<lambda>p. (KBAR, bp_OID p, bp_Attrs p)) (CreateBARs plan)
     @ map (\<lambda>p. (KPDR, pp_OID p, pp_Attrs p)) (CreatePDRs plan)"

definition remove_requests :: "'ie ModificationPlan \<Rightarrow> kernel_request list" where
  "remove_requests plan =
     map (\<lambda>p. KRemove KPDR (pp_OID p)) (RemovePDRs plan)
     @ map (\<lambda>p. KRemove KBAR (bp_OID p)) (RemoveBARs plan)
     @ map (\<lambda>p. KRemoveURR (up_OID p)) (RemoveURRs plan)
     @ map (\<lambda>p. KRemove KQER (qp_OID p)) (RemoveQERs plan)
     @ map (\<lambda>p. KRemove KFAR (fp_OID p)) (RemoveFARs plan)"

definition update_requests :: "'ie ModificationPlan \<Rightarrow> kernel_request list" where
  "update_requests plan =
     map (\<lambda>p. KUpdate KFAR (fp_OID p) (fp_Attrs p)) (UpdateFARs plan)
     @ map (\<lambda>p. KUpdate KQER (qp_OID p) (qp_Attrs p)) (UpdateQERs plan)
     @ map (\<lambda>p. KUpdateURR (up_OID p) (up_Attrs p)) (UpdateURRs plan)
     @ map (\<lambda>p. KUpdate KBAR (bp_OID p) (bp_Attrs p)) (UpdateBARs plan)
     @ map (\<lambda>p. KUpdate KPDR (pp_OID p) (pp_Attrs p)) (UpdatePDRs plan)"

definition plan_requests :: "'ie ModificationPlan \<Rightarrow> kernel_request list" where
  "plan_requests plan =
     map (\<lambda>(kind, oid, as). KCreate kind oid as) (create_requests plan)
     @ remove_requests plan @ update_requests plan @ map (\<lambda>p. KGetReport (up_OID p)) (QueryURRs plan)"

text \<open>The timers that a plan starts and stops.\<close>

definition plan_timers :: "'ie ModificationPlan \<Rightarrow> perio_event list" where
  "plan_timers plan =
     map (\<lambda>p. PERIO_ADD (mp_SEID plan) (up_URRID p) (up_MeasurePeriod p))
       (filter (\<lambda>p. ReportingTrigger_has (up_ReportingTrigger p) R_PERIO \<and> up_MeasurePeriod p > 0) (CreateURRs plan))
     @ map (\<lambda>p. PERIO_DEL (mp_SEID plan) (up_URRID p)) (RemoveURRs plan)"

lemma kernel_op_fields [simp]:
  "fst (kernel_op f g) = fst (f (g_kernel g))" "g_kernel (snd (kernel_op f g)) = snd (f (g_kernel g))"
  "g_perio (snd (kernel_op f g)) = g_perio g" "g_sent (snd (kernel_op f g)) = g_sent g"
  by (simp_all add: kernel_op_def case_prod_beta)

lemma fold_kernel:
  assumes "\<And>p s. g_kernel (h (f p s)) = request nl (c p) (g_kernel (h s))"
  shows "g_kernel (h (fold f ps s)) = fold (request nl) (map c ps) (g_kernel (h s))"
  by (induction ps arbitrary: s) (simp_all add: assms)

lemma create_kernel:
  "g_kernel (snd (create_FAR nl f g)) = request nl (KCreate KFAR (fp_OID f) (fp_Attrs f)) (g_kernel g)"
  "g_kernel (snd (create_QER nl q g)) = request nl (KCreate KQER (qp_OID q) (qp_Attrs q)) (g_kernel g)"
  "g_kernel (snd (create_URR nl i u g)) = request nl (KCreate KURR (up_OID u) (up_Attrs u)) (g_kernel g)"
  "g_kernel (snd (create_BAR nl b g)) = request nl (KCreate KBAR (bp_OID b) (bp_Attrs b)) (g_kernel g)"
  "g_kernel (snd (create_PDR nl p g)) = request nl (KCreate KPDR (pp_OID p) (pp_Attrs p)) (g_kernel g)"
  by (simp_all add: create_FAR_def create_QER_def create_URR_def create_BAR_def create_PDR_def)

lemma rule_kernel:
  "g_kernel (remove_rule nl kind oid g) = request nl (KRemove kind oid) (g_kernel g)"
  "g_kernel (update_rule nl kind oid as g) = request nl (KUpdate kind oid as) (g_kernel g)"
  by (simp_all add: remove_rule_def update_rule_def)

lemma urr_kernel:
  "g_kernel (snd (remove_URR nl i u s)) = request nl (KRemoveURR (up_OID u)) (g_kernel (snd s))"
  "g_kernel (snd (update_URR nl u s)) = request nl (KUpdateURR (up_OID u) (up_Attrs u)) (g_kernel (snd s))"
  "g_kernel (snd (query_URR nl u s)) = request nl (KGetReport (up_OID u)) (g_kernel (snd s))"
  by (simp_all add: remove_URR_def update_URR_def query_URR_def kernel_op_def case_prod_beta Let_def split: option.split)

text \<open>Delivering buffered packets only reads the kernel.\<close>

lemma WritePacket_total: "\<exists>x. WritePacket far qer p g = Some (g\<lparr>g_sent := g_sent g @ x\<rparr>)"
  by (auto simp: WritePacket_def Message_Encode_fresh Let_def split: option.split intro: exI [of _ "[]"])

lemma write_packets_total: "\<exists>x. write_packets far qer ps g = Some (g\<lparr>g_sent := g_sent g @ x\<rparr>)"
proof (induction ps arbitrary: g)
  case Nil
  show ?case by (auto intro: exI [of _ "[]"])
next
  case (Cons p ps)
  obtain x where "WritePacket far qer p g = Some (g\<lparr>g_sent := g_sent g @ x\<rparr>)" using WritePacket_total by blast
  moreover obtain y where "write_packets far qer ps (g\<lparr>g_sent := g_sent g @ x\<rparr>)
      = Some (g\<lparr>g_sent := g_sent g @ x\<rparr>\<lparr>g_sent := g_sent (g\<lparr>g_sent := g_sent g @ x\<rparr>) @ y\<rparr>)"
    using Cons by blast
  ultimately show ?case by (auto intro: exI [of _ "x @ y"])
qed

lemma forward_pdrs_total: "\<exists>ks' x. forward_pdrs nl i far q ps ks g = Some (ks', g\<lparr>g_sent := g_sent g @ x\<rparr>)"
proof (induction ps arbitrary: ks g)
  case Nil
  show ?case by (auto intro: exI [of _ "[]"])
next
  case (Cons p ps)
  show ?case
  proof (cases "nl_GetPDR nl [i, unat p] (g_kernel g)")
    case None
    then show ?thesis using Cons [of ks g] by simp
  next
    case (Some qers)
    obtain x where x: "write_packets far (find_qer nl i qers (g_kernel g)) (popped q ks p) g
        = Some (g\<lparr>g_sent := g_sent g @ x\<rparr>)" using write_packets_total by blast
    obtain ks' y where "forward_pdrs nl i far q ps (ks @ [p]) (g\<lparr>g_sent := g_sent g @ x\<rparr>)
        = Some (ks', g\<lparr>g_sent := g_sent g @ x\<rparr>\<lparr>g_sent := g_sent (g\<lparr>g_sent := g_sent g @ x\<rparr>) @ y\<rparr>)"
      using Cons by blast
    then show ?thesis using Some x by (auto intro: exI [of _ "x @ y"])
  qed
qed

lemma applyAction_total: "\<exists>ks' x. applyAction nl i f act q ks g = Some (ks', g\<lparr>g_sent := g_sent g @ x\<rparr>)"
proof -
  have r: "\<exists>ks' x. Some (ks, g) = Some (ks', g\<lparr>g_sent := g_sent g @ x\<rparr>)"
    "\<exists>ks' x. Some (l, g) = Some (ks', g\<lparr>g_sent := g_sent g @ x\<rparr>)" for l :: "u16 list"
    by (auto intro: exI [of _ "[]"])
  show ?thesis
    using r forward_pdrs_total by (simp add: applyAction_def split: option.split del: Option.option.inject) blast?
qed


lemma fold_perio:
  assumes "\<And>p s. g_perio (h (f p s)) = g_perio (h s) @ c p"
  shows "g_perio (h (fold f ps s)) = g_perio (h s) @ concat (map c ps)"
  by (induction ps arbitrary: s) (simp_all add: assms)

lemma rule_perio:
  "g_perio (snd (create_FAR nl f g)) = g_perio g @ []" "g_perio (snd (create_QER nl qe g)) = g_perio g @ []"
  "g_perio (snd (create_URR nl i u g)) = g_perio g
     @ (if ReportingTrigger_has (up_ReportingTrigger u) R_PERIO \<and> up_MeasurePeriod u > 0
        then [PERIO_ADD i (up_URRID u) (up_MeasurePeriod u)] else [])"
  "g_perio (snd (create_BAR nl b g)) = g_perio g @ []" "g_perio (snd (create_PDR nl p g)) = g_perio g @ []"
  "g_perio (remove_rule nl kind oid g) = g_perio g @ []" "g_perio (update_rule nl kind oid as g) = g_perio g @ []"
  "g_perio (snd (remove_URR nl i u s)) = g_perio (snd s) @ [PERIO_DEL i (up_URRID u)]"
  "g_perio (snd (update_URR nl u s)) = g_perio (snd s) @ []" "g_perio (snd (query_URR nl u s)) = g_perio (snd s) @ []"
  by (simp_all add: create_FAR_def create_QER_def create_URR_def create_BAR_def create_PDR_def remove_rule_def update_rule_def
      remove_URR_def update_URR_def query_URR_def kernel_op_def case_prod_beta Let_def split: option.split)

lemmas folds_perio = fold_perio [where h = "\<lambda>g. g", OF rule_perio(1)] fold_perio [where h = "\<lambda>g. g", OF rule_perio(2)]
  fold_perio [where h = "\<lambda>g. g", OF rule_perio(3)] fold_perio [where h = "\<lambda>g. g", OF rule_perio(4)]
  fold_perio [where h = "\<lambda>g. g", OF rule_perio(5)] fold_perio [where h = "\<lambda>g. g", OF rule_perio(6)]
  fold_perio [where h = "\<lambda>g. g", OF rule_perio(7)] fold_perio [where h = snd, OF rule_perio(8)]
  fold_perio [where h = snd, OF rule_perio(9)] fold_perio [where h = snd, OF rule_perio(10)]

lemma concat_singles: "concat (map (\<lambda>x. if P x then [f x] else []) xs) = map f (filter P xs)"
  by (induction xs) simp_all

lemma concat_none [simp]: "concat (map (\<lambda>x. []) xs) = []"
  by (induction xs) simp_all

lemma exec_perio:
  "g_perio (snd (exec_removes nl plan (rs, exec_creates nl plan g))) = g_perio g @ plan_timers plan"
  "g_perio (snd (exec_updates nl plan s)) = g_perio (snd s)"
  by (simp_all add: exec_creates_def exec_removes_def exec_updates_def plan_timers_def case_prod_beta Let_def folds_perio
      concat_singles concat_map_singleton)

lemma update_FARs_spec:
  "\<exists>ks' g'. update_FARs nl i q ps ks g = Some (ks', g') \<and> g_perio g' = g_perio g
     \<and> g_kernel g' = fold (request nl) (map (\<lambda>p. KUpdate KFAR (fp_OID p) (fp_Attrs p)) ps) (g_kernel g)"
proof (induction ps arbitrary: ks g)
  case Nil
  show ?case by simp
next
  case (Cons p ps)
  let ?g = "update_rule nl KFAR (fp_OID p) (fp_Attrs p) g"
  obtain ks' x where "(case fp_ApplyAction p of None \<Rightarrow> Some (ks, ?g) | Some act \<Rightarrow> applyAction nl i (fp_FARID p) act q ks ?g)
      = Some (ks', ?g\<lparr>g_sent := g_sent ?g @ x\<rparr>)"
  proof (cases "fp_ApplyAction p")
    case None
    then show ?thesis using that [of ks "[]"] by simp
  next
    case (Some act)
    then show ?thesis using that applyAction_total [of nl i "fp_FARID p" act q ks ?g] by auto
  qed
  then show ?case using Cons [of ks' "?g\<lparr>g_sent := g_sent ?g @ x\<rparr>"] by (simp add: rule_kernel rule_perio Let_def)
qed

lemma exec_creates_kernel:
  "g_kernel (exec_creates nl plan g)
     = fold (request nl) (map (\<lambda>(kind, oid, as). KCreate kind oid as) (create_requests plan)) (g_kernel g)"
  unfolding exec_creates_def create_requests_def
  by (simp add: fold_kernel [where h = "\<lambda>g. g", OF create_kernel(1)] fold_kernel [where h = "\<lambda>g. g", OF create_kernel(2)]
      fold_kernel [where h = "\<lambda>g. g", OF create_kernel(3)] fold_kernel [where h = "\<lambda>g. g", OF create_kernel(4)]
      fold_kernel [where h = "\<lambda>g. g", OF create_kernel(5)] comp_def)

lemma exec_removes_kernel:
  "g_kernel (snd (exec_removes nl plan s)) = fold (request nl) (remove_requests plan) (g_kernel (snd s))"
  unfolding exec_removes_def remove_requests_def
  by (simp add: case_prod_beta Let_def fold_kernel [where h = "\<lambda>g. g", OF rule_kernel(1)]
      fold_kernel [where h = snd, OF urr_kernel(1)])

lemma exec_updates_kernel:
  "g_kernel (snd (exec_updates nl plan s)) =
     fold (request nl) (map (\<lambda>p. KUpdate KQER (qp_OID p) (qp_Attrs p)) (UpdateQERs plan)
       @ map (\<lambda>p. KUpdateURR (up_OID p) (up_Attrs p)) (UpdateURRs plan)
       @ map (\<lambda>p. KUpdate KBAR (bp_OID p) (bp_Attrs p)) (UpdateBARs plan)
       @ map (\<lambda>p. KUpdate KPDR (pp_OID p) (pp_Attrs p)) (UpdatePDRs plan)
       @ map (\<lambda>p. KGetReport (up_OID p)) (QueryURRs plan)) (g_kernel (snd s))"
  unfolding exec_updates_def
  by (simp add: case_prod_beta Let_def fold_kernel [where h = "\<lambda>g. g", OF rule_kernel(2)]
      fold_kernel [where h = snd, OF urr_kernel(2)] fold_kernel [where h = snd, OF urr_kernel(3)])

lemma modification_spec:
  "\<exists>rs ks g'. gtp5g_ExecuteModificationPlan nl plan q g = Some (rs, ks, g')
     \<and> g_kernel g' = fold (request nl) (plan_requests plan) (g_kernel g) \<and> g_perio g' = g_perio g @ plan_timers plan"
proof -
  obtain rs g1 where g1: "exec_removes nl plan (NewExecutionResult, exec_creates nl plan g) = (rs, g1)" by fastforce
  have k1: "g_kernel g1 = fold (request nl) (remove_requests plan) (g_kernel (exec_creates nl plan g))"
    using exec_removes_kernel [of nl plan "(NewExecutionResult, exec_creates nl plan g)"] by (simp add: g1)
  obtain ks g2 where g2: "update_FARs nl (mp_SEID plan) q (UpdateFARs plan) [] g1 = Some (ks, g2)"
      "g_kernel g2 = fold (request nl) (map (\<lambda>p. KUpdate KFAR (fp_OID p) (fp_Attrs p)) (UpdateFARs plan)) (g_kernel g1)"
      "g_perio g2 = g_perio g1"
    using update_FARs_spec by blast
  obtain rs' g3 where g3: "exec_updates nl plan (rs, g2) = (rs', g3)" by fastforce
  have "g_kernel g3 = fold (request nl) (plan_requests plan) (g_kernel g)"
    using exec_updates_kernel [of nl plan "(rs, g2)"] g2(2)
    by (simp add: g3 k1 exec_creates_kernel plan_requests_def update_requests_def)
  moreover have "g_perio g3 = g_perio g @ plan_timers plan"
    using exec_perio(1) [of nl plan NewExecutionResult g] exec_perio(2) [of nl plan "(rs, g2)"] g2(3) by (simp add: g1 g3)
  ultimately show ?thesis using g1 g2(1) g3 by (simp add: gtp5g_ExecuteModificationPlan_def)
qed

text \<open>C11: A modification plan is executed completely and in order. Whatever the kernel answers to the single operations,
  the execution returns (it does not panic while delivering buffered packets) and the kernel has seen exactly the
  operations of the plan, each once: creations (FARs, QERs, URRs and BARs before the PDRs that name them), removals (PDRs
  before the rules they name), updates, then queries. The
  server of periodic reports is told to start a timer for every created URR with a periodic trigger, with its positive
  period, and to stop that of every removed URR.\<close>

theorem modification_executes_plan:
  "\<exists>rs ks g'. gtp5g_ExecuteModificationPlan nl plan q g = Some (rs, ks, g')
     \<and> g_kernel g' = fold (request nl) (plan_requests plan) (g_kernel g) \<and> g_perio g' = g_perio g @ plan_timers plan"
  by (rule modification_spec)

section \<open>Establishment\<close>

lemma try_all_append: "try_all f (ps @ qs) g = and_try (try_all f ps g) (try_all f qs)"
  by (induction ps arbitrary: g) (auto simp: and_try_def split: prod.split bool.split)

lemma try_all_kernel:
  assumes "\<And>p g. fst (f p g) = fst (h (c p) (g_kernel g))" "\<And>p g. g_kernel (snd (f p g)) = snd (h (c p) (g_kernel g))"
  shows "map_prod id g_kernel (try_all f ps g) = try_all h (map c ps) (g_kernel g)"
proof (induction ps arbitrary: g)
  case (Cons p ps)
  obtain ok g' where f: "f p g = (ok, g')" by fastforce
  then have "h (c p) (g_kernel g) = (ok, g_kernel g')" using assms [of p g] by (cases "h (c p) (g_kernel g)") simp
  then show ?case using f Cons [of g'] by (cases ok) simp_all
qed simp

lemma and_try_kernel:
  assumes "map_prod id g_kernel r = try_all h xs k" and "\<And>g. map_prod id g_kernel (f g) = try_all h ys (g_kernel g)"
  shows "map_prod id g_kernel (and_try r f) = try_all h (xs @ ys) k"
proof -
  obtain ok g where r: "r = (ok, g)" by (cases r)
  then have "try_all h xs k = (ok, g_kernel g)" using assms(1) by simp
  then show ?thesis using r assms(2) [of g] unfolding try_all_append by (simp add: and_try_def)
qed

definition try_create :: "'k gtp5gnl \<Rightarrow> rule_kind \<times> nat list \<times> attrs \<Rightarrow> 'k \<Rightarrow> bool \<times> 'k" where
  "try_create nl r k = (case r of (kind, oid, as) \<Rightarrow> nl_Create nl kind oid as k)"

lemma try_create_kernel:
  "map_prod id g_kernel (try_all (create_FAR nl) fs g) = try_all (try_create nl) (map (\<lambda>p. (KFAR, fp_OID p, fp_Attrs p)) fs) (g_kernel g)"
  "map_prod id g_kernel (try_all (create_QER nl) qs g) = try_all (try_create nl) (map (\<lambda>p. (KQER, qp_OID p, qp_Attrs p)) qs) (g_kernel g)"
  "map_prod id g_kernel (try_all (create_URR nl i) us g) = try_all (try_create nl) (map (\<lambda>p. (KURR, up_OID p, up_Attrs p)) us) (g_kernel g)"
  "map_prod id g_kernel (try_all (create_BAR nl) bs g) = try_all (try_create nl) (map (\<lambda>p. (KBAR, bp_OID p, bp_Attrs p)) bs) (g_kernel g)"
  "map_prod id g_kernel (try_all (create_PDR nl) ps g) = try_all (try_create nl) (map (\<lambda>p. (KPDR, pp_OID p, pp_Attrs p)) ps) (g_kernel g)"
  by (rule try_all_kernel;
      simp add: create_FAR_def create_QER_def create_URR_def create_BAR_def create_PDR_def try_create_def)+

lemma establishment_spec:
  "map_prod (\<lambda>r. r \<noteq> None) g_kernel (gtp5g_ExecuteEstablishmentPlan nl plan g)
     = try_all (try_create nl) (create_requests plan) (g_kernel g)"
proof -
  have "map_prod (\<lambda>r. r \<noteq> None) g_kernel (gtp5g_ExecuteEstablishmentPlan nl plan g) =
    map_prod id g_kernel (and_try (and_try (and_try (and_try
      (try_all (create_FAR nl) (CreateFARs plan) g)
      (try_all (create_QER nl) (CreateQERs plan)))
      (try_all (create_URR nl (mp_SEID plan)) (CreateURRs plan)))
      (try_all (create_BAR nl) (CreateBARs plan)))
      (try_all (create_PDR nl) (CreatePDRs plan)))"
    by (simp add: gtp5g_ExecuteEstablishmentPlan_def case_prod_beta Let_def map_prod_def)
  also have "\<dots> = try_all (try_create nl) (((((map (\<lambda>p. (KFAR, fp_OID p, fp_Attrs p)) (CreateFARs plan))
     @ map (\<lambda>p. (KQER, qp_OID p, qp_Attrs p)) (CreateQERs plan))
     @ map (\<lambda>p. (KURR, up_OID p, up_Attrs p)) (CreateURRs plan))
     @ map (\<lambda>p. (KBAR, bp_OID p, bp_Attrs p)) (CreateBARs plan))
     @ map (\<lambda>p. (KPDR, pp_OID p, pp_Attrs p)) (CreatePDRs plan)) (g_kernel g)"
    by (intro and_try_kernel try_create_kernel)
  finally show ?thesis by (simp add: create_requests_def)
qed


text \<open>An establishment plan is executed until the first failure. The execution succeeds exactly if every creation of
  the plan, in the order FARs, QERs, URRs, BARs, PDRs, succeeds in the state the previous ones left; after a failure no
  further creation is attempted, and the kernel is in the state that the creations up to the failed one left: nothing is
  taken back.\<close>

theorem establishment_fail_fast:
  "map_prod (\<lambda>r. r \<noteq> None) g_kernel (gtp5g_ExecuteEstablishmentPlan nl plan g)
     = try_all (try_create nl) (create_requests plan) (g_kernel g)"
  by (rule establishment_spec)

section \<open>A failed establishment\<close>

lemma exec_empty_plan: "gtp5g_ExecuteModificationPlan nl (NewModificationPlan i) q g = Some ([], [], g)"
  by (simp add: gtp5g_ExecuteModificationPlan_def exec_removes_def exec_creates_def exec_updates_def NewModificationPlan_def
      NewExecutionResult_def Let_def)

lemma close_plan_empty: "close_plan drv api (empty_sess a i r n) = NewModificationPlan i"
  by (simp add: close_plan_def empty_sess_def NewModificationPlan_def List.map_filter_simps)

lemma close_empty_session:
  "snd (snd (Close (gtp5g_driver nl api) (base_api api) (empty_sess a i r n) g)) = g"
  by (simp add: Close_def close_plan_empty Let_def gtp5g_driver_def exec_empty_plan)
    (simp add: NewModificationPlan_def)

lemma est_fail_dstate:
  assumes "server_inv st" and "LocalNode_Sess i (lnode st) = Some s" and "s_rnode s = Some a"
    and "est_fail env seq addr a i c st = Some st'"
  shows "dstate st' = snd (snd (Close (e_drv env) (e_api env) s (dstate st)))"
proof -
  let ?st = "sendSessEstFailRsp env seq addr c st"
  have "server_inv ?st" using assms(1) by (simp add: sendSessEstFailRsp_def server_inv_sendRspTo)
  then have i: "nodes_inv ?st" by (simp add: server_inv_def)
  have l: "lnode ?st = lnode st" "dstate ?st = dstate st" by (simp_all add: sendSessEstFailRsp_def)
  obtain st2 n where "RemoteNode_DeleteSess (e_drv env) (e_api env) a i ?st =
      (let (us, s', d') = Close (e_drv env) (e_api env) s (dstate ?st) in Some (Some (us, s'), st2\<lparr>dstate := d'\<rparr>))"
    using RemoteNode_DeleteSess_spec [OF i, of i s a "e_drv env" "e_api env"] assms(2,3) l(1) by auto
  then show ?thesis using assms(4) l(2) by (auto simp: est_fail_def case_prod_beta Let_def)
qed


section \<open>Buffered packets\<close>

lemma gbind_ValE: "gbind r f = Val b \<Longrightarrow> (\<And>a. r = Val a \<Longrightarrow> f a = Val b \<Longrightarrow> thesis) \<Longrightarrow> thesis"
  by (cases r) auto

text \<open>What the kernel documents for the update of a FAR: a later read returns the last apply action given.\<close>

definition kernel_applies :: "'k gtp5gnl \<Rightarrow> bool" where
  "kernel_applies nl \<longleftrightarrow>
     (\<forall>oid as k k' a. nl_Update nl KFAR oid as k = (True, k') \<and> map_of (rev as) ''FAR_APPLY_ACTION'' = Some (AttrU16 a)
        \<longrightarrow> (\<exists>far. nl_GetFAR nl oid k' = Some far \<and> kf_Action far = a))"

definition action_attr :: "far_state \<Rightarrow> bool" where
  "action_attr s \<longleftrightarrow> (case s of (farid, as, act) \<Rightarrow>
     \<forall>a. act = Some a \<longrightarrow> map_of (rev as) ''FAR_APPLY_ACTION'' = Some (AttrU16 (aa_Flags a)))"

lemma far_ie_action: "far_ie api ps i s = Val t \<Longrightarrow> action_attr s \<Longrightarrow> action_attr t"
  by (cases s) (auto simp: far_ie_def must_def may_def action_attr_def Let_def split: if_splits option.splits)

lemma update_plan_action:
  assumes "gtp5g_BuildUpdateFARPlan api i req = Val p"
  shows "fp_OID p = [i, unat (fp_FARID p)]"
    and "fp_ApplyAction p = Some a \<Longrightarrow> map_of (rev (fp_Attrs p)) ''FAR_APPLY_ACTION'' = Some (AttrU16 (aa_Flags a))"
proof -
  let ?f = "far_ie api (T_UpdateForwardingParameters, ie_UpdateForwardingParameters api)"
  obtain ies f as act where l: "gloop ?f ies (0, [], None) = Val (f, as, act)"
      and p: "p = \<lparr>fp_Op = OpUpdate, fp_OID = [i, unat f], fp_Attrs = as, fp_OriginalIE = Some req, fp_FARID = f, fp_ApplyAction = act\<rparr>"
    using assms by (auto simp: gtp5g_BuildUpdateFARPlan_def must_def split: option.splits elim: gbind_ValE)
  have "action_attr (f, as, act)"
    by (rule gloop_inv [OF l, where P = action_attr]) (simp add: action_attr_def, rule far_ie_action)
  then show "fp_OID p = [i, unat (fp_FARID p)]"
    "fp_ApplyAction p = Some a \<Longrightarrow> map_of (rev (fp_Attrs p)) ''FAR_APPLY_ACTION'' = Some (AttrU16 (aa_Flags a))"
    by (simp_all add: p action_attr_def)
qed

text \<open>After a successful update to an action without buffering, the FAR that \<open>applyAction\<close> reads has no buffering either.\<close>

fun updates_succeed :: "'k gtp5gnl \<Rightarrow> 'ie FARPlan list \<Rightarrow> 'k \<Rightarrow> bool" where
  "updates_succeed nl [] k \<longleftrightarrow> True"
| "updates_succeed nl (p # ps) k \<longleftrightarrow> (case nl_Update nl KFAR (fp_OID p) (fp_Attrs p) k of
     (ok, k') \<Rightarrow> ok \<and> updates_succeed nl ps k')"

definition ends_buffering :: "'ie pfcp_ies \<Rightarrow> nat \<Rightarrow> 'ie FARPlan \<Rightarrow> bool" where
  "ends_buffering api i p \<longleftrightarrow> (\<exists>req. gtp5g_BuildUpdateFARPlan api i req = Val p)
     \<and> (\<forall>a. fp_ApplyAction p = Some a \<longrightarrow> \<not> ApplyAction_has a A_BUFF)"

lemma update_FARs_silent:
  assumes law: "kernel_applies nl" and "list_all (ends_buffering api i) ps" and "updates_succeed nl ps (g_kernel g)"
  shows "\<exists>g'. update_FARs nl i q ps ks g = Some (ks, g') \<and> g_sent g' = g_sent g"
  using assms(2,3)
proof (induction ps arbitrary: g)
  case (Cons p ps)
  let ?g = "update_rule nl KFAR (fp_OID p) (fp_Attrs p) g"
  have s: "g_sent ?g = g_sent g" by (simp add: update_rule_def)
  obtain k' where k': "nl_Update nl KFAR (fp_OID p) (fp_Attrs p) (g_kernel g) = (True, k')" "updates_succeed nl ps k'"
    using Cons.prems(2) by auto
  have k: "g_kernel ?g = k'" by (simp add: update_rule_def k')
  have "applyAction nl i (fp_FARID p) a q ks ?g = Some (ks, ?g)" if a: "fp_ApplyAction p = Some a" for a
  proof -
    obtain req where req: "gtp5g_BuildUpdateFARPlan api i req = Val p" using Cons.prems by (auto simp: ends_buffering_def)
    obtain far where far: "nl_GetFAR nl (fp_OID p) k' = Some far" "kf_Action far = aa_Flags a"
      using law k'(1) update_plan_action(2) [OF req a] unfolding kernel_applies_def by blast
    have "\<not> ApplyAction_has a A_BUFF" using Cons.prems a by (simp add: ends_buffering_def)
    then show ?thesis using far k update_plan_action(1) [OF req] by (simp add: applyAction_def ApplyAction_has_def)
  qed
  then have "update_FARs nl i q (p # ps) ks g = update_FARs nl i q ps ks ?g"
    by (simp add: Let_def split: option.split)
  then show ?case using Cons.IH [of ?g] Cons.prems(1) s k k'(2) by simp
qed simp

lemma fold_sent:
  assumes "\<And>p s. g_sent (h (f p s)) = g_sent (h s)"
  shows "g_sent (h (fold f ps s)) = g_sent (h s)"
  by (induction ps arbitrary: s) (simp_all add: assms)

lemma rule_sent:
  "g_sent (snd (create_FAR nl f g)) = g_sent g" "g_sent (snd (create_QER nl qe g)) = g_sent g"
  "g_sent (snd (create_URR nl i u g)) = g_sent g" "g_sent (snd (create_BAR nl b g)) = g_sent g"
  "g_sent (snd (create_PDR nl p g)) = g_sent g"
  "g_sent (remove_rule nl kind oid g) = g_sent g" "g_sent (update_rule nl kind oid as g) = g_sent g"
  "g_sent (snd (remove_URR nl i u s)) = g_sent (snd s)" "g_sent (snd (update_URR nl u s)) = g_sent (snd s)"
  "g_sent (snd (query_URR nl u s)) = g_sent (snd s)"
  by (simp_all add: create_FAR_def create_QER_def create_URR_def create_BAR_def create_PDR_def remove_rule_def update_rule_def
      remove_URR_def update_URR_def query_URR_def kernel_op_def case_prod_beta Let_def split: option.split)

lemmas folds_sent = fold_sent [where h = "\<lambda>g. g", OF rule_sent(1)] fold_sent [where h = "\<lambda>g. g", OF rule_sent(2)]
  fold_sent [where h = "\<lambda>g. g", OF rule_sent(3)] fold_sent [where h = "\<lambda>g. g", OF rule_sent(4)]
  fold_sent [where h = "\<lambda>g. g", OF rule_sent(5)] fold_sent [where h = "\<lambda>g. g", OF rule_sent(6)]
  fold_sent [where h = "\<lambda>g. g", OF rule_sent(7)] fold_sent [where h = snd, OF rule_sent(8)]
  fold_sent [where h = snd, OF rule_sent(9)] fold_sent [where h = snd, OF rule_sent(10)]

lemma exec_sent:
  "g_sent (exec_creates nl plan g) = g_sent g" "g_sent (snd (exec_removes nl plan s)) = g_sent (snd s)"
  "g_sent (snd (exec_updates nl plan s)) = g_sent (snd s)"
  by (simp_all add: exec_creates_def exec_removes_def exec_updates_def case_prod_beta Let_def folds_sent)

text \<open>C28: Packets buffered for a user are not delivered when buffering ends. The forwarder first gives the new apply
  action of a FAR to the kernel and then reads the FAR back to see whether it was buffering. With a kernel whose read
  returns the action just written, an update of FARs from buffering to forwarding, or to dropping, therefore finds no
  buffering FAR: for any plan whose FAR updates succeed and end buffering, no queue is emptied and no packet is sent, so the
  packets stay in the queues of the session.\<close>

theorem buffered_packets_not_delivered:
  assumes "kernel_applies nl" and "list_all (ends_buffering api (mp_SEID plan)) (UpdateFARs plan)"
    and "updates_succeed nl (UpdateFARs plan) (fold (request nl)
      (map (\<lambda>(kind, oid, as). KCreate kind oid as) (create_requests plan) @ remove_requests plan) (g_kernel g))"
  shows "\<exists>rs g'. gtp5g_ExecuteModificationPlan nl plan q g = Some (rs, [], g') \<and> g_sent g' = g_sent g"
proof -
  obtain rs g1 where g1: "exec_removes nl plan (NewExecutionResult, exec_creates nl plan g) = (rs, g1)" by fastforce
  have s1: "g_sent g1 = g_sent g"
    using exec_sent(2) [of nl plan "(NewExecutionResult, exec_creates nl plan g)"] by (simp add: g1 exec_sent(1))
  have "updates_succeed nl (UpdateFARs plan) (g_kernel g1)"
    using assms(3) exec_removes_kernel [of nl plan "(NewExecutionResult, exec_creates nl plan g)"]
    by (simp add: g1 exec_creates_kernel)
  then obtain g2 where g2: "update_FARs nl (mp_SEID plan) q (UpdateFARs plan) [] g1 = Some ([], g2)" "g_sent g2 = g_sent g1"
    using update_FARs_silent [OF assms(1,2)] by blast
  obtain rs' g3 where g3: "exec_updates nl plan (rs, g2) = (rs', g3)" by fastforce
  have "g_sent g3 = g_sent g" using exec_sent(3) [of nl plan "(rs, g2)"] g2(2) s1 by (simp add: g3)
  then show ?thesis using g1 g2(1) g3 by (simp add: gtp5g_ExecuteModificationPlan_def)
qed

section \<open>Closing a session\<close>

text \<open>What go-pfcp documents: the identifier in a \<open>Remove*\<close> element is the one it was made with.\<close>

definition remove_ies_ok :: "'ie ie_api \<Rightarrow> bool" where
  "remove_ies_ok api \<longleftrightarrow>
     (\<forall>i. ie_PDRID api (NewRemovePDR api i) = Some i) \<and> (\<forall>i. ie_FARID api (NewRemoveFAR api i) = Some i)
   \<and> (\<forall>i. ie_QERID api (NewRemoveQER api i) = Some i) \<and> (\<forall>i. ie_URRID api (NewRemoveURR api i) = Some i)
   \<and> (\<forall>i. ie_BARID api (NewRemoveBAR api i) = Some i)"

definition session_removals :: "Sess \<Rightarrow> kernel_request list" where
  "session_removals s =
     map (\<lambda>i. KRemove KPDR [LocalID s, unat i]) (keys (PDRIDs s))
     @ map (\<lambda>i. KRemove KBAR [LocalID s, unat i]) (BARIDs s)
     @ map (\<lambda>i. KRemoveURR [LocalID s, unat i]) (keys (URRIDs s))
     @ map (\<lambda>i. KRemove KQER [LocalID s, unat i]) (QERIDs s)
     @ map (\<lambda>i. KRemove KFAR [LocalID s, unat i]) (FARIDs s)"

lemma map_filter_Some: "(\<And>x. f x = Some (g x)) \<Longrightarrow> List.map_filter f xs = map g xs"
  by (simp add: List.map_filter_def)

lemma build_remove:
  assumes "remove_ies_ok (base_api api)"
  shows "BuildRemovePDRPlan (gtp5g_driver nl api) i (NewRemovePDR (base_api api) p) = Some \<lparr>pp_Op = OpRemove, pp_OID = [i, unat p],
      pp_Attrs = [], pp_OriginalIE = Some (NewRemovePDR (base_api api) p), pp_PDRID = p, pp_URRIDs = []\<rparr>"
    and "BuildRemoveFARPlan (gtp5g_driver nl api) i (NewRemoveFAR (base_api api) f) = Some \<lparr>fp_Op = OpRemove, fp_OID = [i, unat f],
      fp_Attrs = [], fp_OriginalIE = Some (NewRemoveFAR (base_api api) f), fp_FARID = f, fp_ApplyAction = None\<rparr>"
    and "BuildRemoveQERPlan (gtp5g_driver nl api) i (NewRemoveQER (base_api api) q) = Some \<lparr>qp_Op = OpRemove, qp_OID = [i, unat q],
      qp_Attrs = [], qp_OriginalIE = Some (NewRemoveQER (base_api api) q), qp_QERID = q\<rparr>"
    and "BuildRemoveURRPlan (gtp5g_driver nl api) i (NewRemoveURR (base_api api) u) = Some (zero_URRPlan\<lparr>up_Op := OpRemove,
      up_OID := [i, unat u], up_OriginalIE := Some (NewRemoveURR (base_api api) u), up_URRID := u\<rparr>)"
    and "BuildRemoveBARPlan (gtp5g_driver nl api) i (NewRemoveBAR (base_api api) b) = Some \<lparr>bp_Op = OpRemove, bp_OID = [i, unat b],
      bp_Attrs = [], bp_OriginalIE = Some (NewRemoveBAR (base_api api) b), bp_BARID = b\<rparr>"
  using assms
  by (simp_all add: gtp5g_driver_def gores_option_def must_def remove_ies_ok_def gtp5g_BuildRemovePDRPlan_def
      gtp5g_BuildRemoveFARPlan_def gtp5g_BuildRemoveQERPlan_def gtp5g_BuildRemoveURRPlan_def gtp5g_BuildRemoveBARPlan_def)

lemma close_requests:
  assumes "remove_ies_ok (base_api api)"
  shows "plan_requests (close_plan (gtp5g_driver nl api) (base_api api) s) = session_removals s"
    and "plan_timers (close_plan (gtp5g_driver nl api) (base_api api) s) = map (PERIO_DEL (LocalID s)) (keys (URRIDs s))"
  by (simp_all add: close_plan_def map_filter_Some [OF build_remove(1) [OF assms]] map_filter_Some [OF build_remove(2) [OF assms]]
      map_filter_Some [OF build_remove(3) [OF assms]] map_filter_Some [OF build_remove(4) [OF assms]]
      map_filter_Some [OF build_remove(5) [OF assms]] plan_requests_def plan_timers_def create_requests_def remove_requests_def
      update_requests_def session_removals_def NewModificationPlan_def comp_def)

text \<open>C12: Closing a session removes all its rules from the kernel. With elements that carry the identifier they are made
  with, the gtp5g forwarder satisfies what the clean-up of a session requires of a driver, and executing the plan with which a
  session closes makes the kernel remove exactly the session's PDRs, BARs, URRs, QERs and FARs, in this order and under the
  session's SEID, and stops the timers of all its URRs.\<close>

theorem gtp5g_close_cleans_kernel:
  assumes "remove_ies_ok (base_api api)"
  shows "remove_plans_ok (gtp5g_driver nl api) (base_api api)
    \<and> (\<exists>rs ks g'. gtp5g_ExecuteModificationPlan nl (close_plan (gtp5g_driver nl api) (base_api api) s) q g = Some (rs, ks, g')
         \<and> g_kernel g' = fold (request nl) (session_removals s) (g_kernel g)
         \<and> g_perio g' = g_perio g @ map (PERIO_DEL (LocalID s)) (keys (URRIDs s)))"
proof
  show "remove_plans_ok (gtp5g_driver nl api) (base_api api)"
    by (simp add: remove_plans_ok_def build_remove [OF assms])
  show "\<exists>rs ks g'. gtp5g_ExecuteModificationPlan nl (close_plan (gtp5g_driver nl api) (base_api api) s) q g = Some (rs, ks, g')
         \<and> g_kernel g' = fold (request nl) (session_removals s) (g_kernel g)
         \<and> g_perio g' = g_perio g @ map (PERIO_DEL (LocalID s)) (keys (URRIDs s))"
    using modification_spec [of nl "close_plan (gtp5g_driver nl api) (base_api api) s" q g]
    unfolding close_requests [OF assms] .
qed

section \<open>Usage reports in batches\<close>

function chunks :: "nat \<Rightarrow> 'a list \<Rightarrow> 'a list list" where
  "chunks n xs = (if xs = [] then [] else take (Suc n) xs # chunks n (drop (Suc n) xs))"
  by pat_completeness auto
termination by (relation "measure (\<lambda>(n, xs). length xs)") auto

declare chunks.simps [simp del]

lemma chunks_full: "length xs = Suc n \<Longrightarrow> chunks n (xs @ ys) = xs # chunks n ys"
  by (subst chunks.simps) auto

lemma chunks_short: "xs \<noteq> [] \<Longrightarrow> length xs \<le> Suc n \<Longrightarrow> chunks n xs = [xs]"
  by (subst chunks.simps) (simp, subst chunks.simps, simp)

lemma chunks_spec: "concat (chunks n xs) = xs \<and> (\<forall>c\<in>set (chunks n xs). c \<noteq> [] \<and> length c \<le> Suc n)"
proof (induction n xs rule: chunks.induct)
  case (1 n xs)
  then show ?case by (subst (1 2) chunks.simps) auto
qed

text \<open>One request after the other, until one fails.\<close>

fun ask :: "'k gtp5gnl \<Rightarrow> nat list list list \<Rightarrow> 'k \<Rightarrow> kernel_usar list option \<times> 'k" where
  "ask nl [] k = (Some [], k)"
| "ask nl (c # cs) k =
     (case nl_GetMultiReports nl c k of
        (None, k') \<Rightarrow> (None, k')
      | (Some rs, k') \<Rightarrow> (case ask nl cs k' of (r, k'') \<Rightarrow> (map_option ((@) rs) r, k'')))"

definition multi_finish :: "'k gtp5gnl \<Rightarrow> (nat list list \<times> kernel_usar list) option \<times> 'k Gtp5g
    \<Rightarrow> kernel_usar list option \<times> 'k Gtp5g" where
  "multi_finish nl x =
     (case x of
        (None, g) \<Rightarrow> (None, g)
      | (Some (oids, reports), g) \<Rightarrow>
          if oids = [] then (Some reports, g)
          else (case kernel_op (nl_GetMultiReports nl oids) g of
                  (None, g') \<Rightarrow> (None, g') | (Some rs, g') \<Rightarrow> (Some (reports @ rs), g')))"

lemma queryMultiURR_finish:
  "queryMultiURR nl m g = (case multi_finish nl (multi_loop nl (multi_oids m) [] [] g) of
     (r, g') \<Rightarrow> (map_option (\<lambda>rs. fold group_report rs []) r, g'))"
  by (auto simp: queryMultiURR_def multi_finish_def split: prod.split option.split)

lemma multi_loop_chunks:
  assumes "Suc n = max 1 (MaxNetlinkUsageReportNum nl)" and "length oids \<le> n"
  shows "multi_finish nl (multi_loop nl xs oids reports g) =
    (case ask nl (chunks n (oids @ xs)) (g_kernel g) of (r, k) \<Rightarrow> (map_option ((@) reports) r, g\<lparr>g_kernel := k\<rparr>))"
  using assms(2)
proof (induction xs arbitrary: oids reports g)
  case Nil
  show ?case
  proof (cases "oids = []")
    case True
    then show ?thesis by (simp add: multi_finish_def chunks.simps)
  next
    case False
    then show ?thesis using Nil chunks_short [of oids n]
      by (auto simp: multi_finish_def kernel_op_def case_prod_beta split: option.split)
  qed
next
  case (Cons x xs)
  show ?case
  proof (cases "length (oids @ [x]) \<ge> MaxNetlinkUsageReportNum nl")
    case True
    then have "length (oids @ [x]) = Suc n" using assms(1) Cons.prems by simp
    then have c: "chunks n (oids @ x # xs) = (oids @ [x]) # chunks n xs" using chunks_full [of "oids @ [x]" n xs] by simp
    show ?thesis
    proof (cases "nl_GetMultiReports nl (oids @ [x]) (g_kernel g)")
      case (Pair r k)
      show ?thesis
      proof (cases r)
        case None
        then show ?thesis using True Pair by (simp add: c kernel_op_def multi_finish_def)
      next
        case (Some rs)
        then show ?thesis using True Pair Cons.IH [of "[]" "reports @ rs" "g\<lparr>g_kernel := k\<rparr>"]
          by (simp add: c kernel_op_def case_prod_beta option.map_comp comp_def)
      qed
    qed
  next
    case False
    then have "length (oids @ [x]) \<le> n" using assms(1) by simp
    then show ?thesis using False Cons.IH [of "oids @ [x]" reports g] by simp
  qed
qed

lemma group_report_spec:
  "map_of (fold group_report rs m) i =
     (case map plain_report (filter (\<lambda>r. ku_SEID r = i) rs) of
        [] \<Rightarrow> map_of m i
      | us \<Rightarrow> Some ((case map_of m i of None \<Rightarrow> [] | Some vs \<Rightarrow> vs) @ us))"
  by (induction rs arbitrary: m) (auto simp: group_report_def split: option.splits list.splits)

text \<open>C21: Usage reports of many URRs are asked for in batches that fit. \<open>queryMultiURR\<close> asks for every URR of the map
  exactly once, in order, in requests of at most as many URRs as the kernel can report in one message (one at a time if that
  number is zero), never for none; it fails if a request fails, and otherwise gives each session the reports of its URRs, in
  the order they arrived, and nothing for a session without reports.\<close>

theorem queryMultiURR_batches:
  assumes "Suc n = max 1 (MaxNetlinkUsageReportNum nl)"
  shows "concat (chunks n (multi_oids m)) = multi_oids m
    \<and> list_all (\<lambda>c. c \<noteq> [] \<and> length c \<le> max 1 (MaxNetlinkUsageReportNum nl)) (chunks n (multi_oids m))
    \<and> (case ask nl (chunks n (multi_oids m)) (g_kernel g) of
         (None, k) \<Rightarrow> queryMultiURR nl m g = (None, g\<lparr>g_kernel := k\<rparr>)
       | (Some rs, k) \<Rightarrow> (\<exists>us. queryMultiURR nl m g = (Some us, g\<lparr>g_kernel := k\<rparr>)
           \<and> (\<forall>i. map_of us i = (case map plain_report (filter (\<lambda>r. ku_SEID r = i) rs) of [] \<Rightarrow> None | vs \<Rightarrow> Some vs))))"
proof -
  have e: "map_option ((@) []) r = r" for r :: "kernel_usar list option" by (cases r) simp_all
  have "multi_finish nl (multi_loop nl (multi_oids m) [] [] g) =
      (case ask nl (chunks n (multi_oids m)) (g_kernel g) of (r, k) \<Rightarrow> (r, g\<lparr>g_kernel := k\<rparr>))"
    using multi_loop_chunks [OF assms, of "[]" "multi_oids m" "[]" g] by (simp add: e)
  moreover have "map_of (fold group_report rs []) i
      = (case map plain_report (filter (\<lambda>r. ku_SEID r = i) rs) of [] \<Rightarrow> None | vs \<Rightarrow> Some vs)" for rs i
    by (simp add: group_report_spec split: list.split)
  ultimately show ?thesis
    using chunks_spec [of n "multi_oids m"] assms
    by (auto simp: queryMultiURR_finish list_all_iff split: prod.split option.split)
qed

section \<open>A kernel for examples\<close>

text \<open>
  A kernel that keeps the attributes of its rules, has room for \<open>cap\<close> rules, and reports one blank usage report for each
  URR it is asked about, at most two in a message.
\<close>

type_synonym mem_state = "(rule_kind \<times> nat list, attrs) gomap"

definition mem_usar :: "nat list \<Rightarrow> kernel_usar" where
  "mem_usar oid = \<lparr>ku_SEID = hd oid, ku_URRID = of_nat (last oid), ku_QueryUrrRef = 0, ku_StartTime = 0, ku_EndTime = 0,
     ku_USARTrigger = 0, ku_TotalVolume = 0, ku_UplinkVolume = 0, ku_DownlinkVolume = 0, ku_TotalPktNum = 0,
     ku_UplinkPktNum = 0, ku_DownlinkPktNum = 0\<rparr>"

definition mem_far :: "nat list \<Rightarrow> mem_state \<Rightarrow> kernel_FAR option" where
  "mem_far oid k =
     (case map_of k (KFAR, oid) of
        None \<Rightarrow> None
      | Some as \<Rightarrow> Some \<lparr>kf_Action = (case map_of (rev as) ''FAR_APPLY_ACTION'' of Some (AttrU16 a) \<Rightarrow> a | _ \<Rightarrow> 0),
          kf_PDRIDs = [7], kf_Creation = Some ([10, 0, 0, 1], 2152, 1)\<rparr>)"

definition mem_kernel :: "nat \<Rightarrow> mem_state gtp5gnl" where
  "mem_kernel cap =
     \<lparr>nl_Create = (\<lambda>kind oid as k. if length k < cap then (True, mput (kind, oid) as k) else (False, k)),
      nl_Update = (\<lambda>kind oid as k. case map_of k (kind, oid) of
        None \<Rightarrow> (False, k) | Some old \<Rightarrow> (True, mput (kind, oid) (old @ as) k)),
      nl_Remove = (\<lambda>kind oid k. (map_of k (kind, oid) \<noteq> None, mdel (kind, oid) k)),
      nl_UpdateURR = (\<lambda>oid as k. ([], k)), nl_RemoveURR = (\<lambda>oid k. ([mem_usar oid], mdel (KURR, oid) k)),
      nl_GetFAR = mem_far, nl_GetPDR = (\<lambda>oid k. Some []), nl_GetQER = (\<lambda>oid k. None),
      nl_GetReport = (\<lambda>oid k. (Some [mem_usar oid], k)), nl_GetMultiReports = (\<lambda>oids k. (Some (map mem_usar oids), k)),
      MaxNetlinkUsageReportNum = 2\<rparr>"

lemma mem_kernel_applies: "kernel_applies (mem_kernel cap)"
  by (auto simp: kernel_applies_def mem_kernel_def mem_far_def split: option.splits)

lemma elem_remove_ies: "remove_ies_ok (base_api elem_ies)"
  by (simp add: remove_ies_ok_def elem_ies_def elem_api_def)

lemma gtp5g_close_cleans_kernel_witness:
  "\<exists>rs ks g'. gtp5g_ExecuteModificationPlan (mem_kernel 9) (close_plan (gtp5g_driver (mem_kernel 9) elem_ies) elem_api
       ((empty_sess (Some 0) 1 2 3)\<lparr>PDRIDs := [(9, \<lparr>RelatedURRIDs = []\<rparr>)], FARIDs := [4]\<rparr>)) (\<lambda>_. [])
       \<lparr>g_kernel = [((KPDR, [1, 9]), []), ((KFAR, [1, 4]), []), ((KFAR, [2, 4]), [])], g_perio = [], g_sent = []\<rparr>
     = Some (rs, ks, g') \<and> g_kernel g' = [((KFAR, [2, 4]), [])]"
proof -
  let ?s = "(empty_sess (Some 0) 1 2 3)\<lparr>PDRIDs := [(9, \<lparr>RelatedURRIDs = []\<rparr>)], FARIDs := [4]\<rparr>"
  let ?g = "\<lparr>g_kernel = [((KPDR, [1, 9]), []), ((KFAR, [1, 4]), []), ((KFAR, [2, 4]), [])], g_perio = [], g_sent = []\<rparr>"
  have b: "base_api elem_ies = elem_api" by (simp add: elem_ies_def)
  have r: "session_removals ?s = [KRemove KPDR [1, 9], KRemove KFAR [1, 4]]"
    by (simp add: session_removals_def empty_sess_def)
  have k: "fold (request (mem_kernel 9)) (session_removals ?s) (g_kernel ?g) = [((KFAR, [2, 4]), [])]"
    unfolding r by (simp add: mem_kernel_def)
  show ?thesis
    using gtp5g_close_cleans_kernel [OF elem_remove_ies, of "mem_kernel 9" ?s "\<lambda>_. []" ?g] unfolding b k by blast
qed

lemma queryMultiURR_batches_witness:
  "chunks 1 (multi_oids [(1, [5, 6]), (2, [5])]) = [[[1, 5], [1, 6]], [[2, 5]]]
   \<and> (\<exists>us g'. queryMultiURR (mem_kernel 9) [(1, [5, 6]), (2, [5])] \<lparr>g_kernel = [], g_perio = [], g_sent = []\<rparr> = (Some us, g')
        \<and> map_of us 2 = Some [plain_report (mem_usar [2, 5])])"
proof -
  let ?m = "[(1, [5, 6]), (2, [5 :: u32])]" and ?g = "\<lparr>g_kernel = [] :: mem_state, g_perio = [], g_sent = []\<rparr>"
  have c: "chunks 1 (multi_oids ?m) = [[[1, 5], [1, 6]], [[2, 5]]]"
    by (simp add: multi_oids_def chunks.simps)
  have n: "Suc 1 = max 1 (MaxNetlinkUsageReportNum (mem_kernel 9))" by (simp add: mem_kernel_def)
  have a: "ask (mem_kernel 9) [[[1, 5], [1, 6]], [[2, 5]]] (g_kernel ?g) =
      (Some [mem_usar [1, 5], mem_usar [1, 6], mem_usar [2, 5]], [])"
    by (simp add: mem_kernel_def)
  show ?thesis using queryMultiURR_batches [OF n, of ?m ?g] unfolding c a
    by (auto simp: mem_usar_def)
qed

text \<open>A FAR that buffers, with the update that makes it forward.\<close>

definition demo_update :: elem where
  "demo_update = Elem (T_Other 0) 0 [] [Elem T_FARID 3 [] [], Elem T_ApplyAction 0 [2, 0] []]"

definition demo_far_plan :: "elem FARPlan" where
  "demo_far_plan = \<lparr>fp_Op = OpUpdate, fp_OID = [1, 3], fp_Attrs = [(''FAR_APPLY_ACTION'', AttrU16 2)],
     fp_OriginalIE = Some demo_update, fp_FARID = 3, fp_ApplyAction = Some \<lparr>aa_Flags = 2\<rparr>\<rparr>"

lemma demo_far_built: "gtp5g_BuildUpdateFARPlan elem_ies 1 demo_update = Val demo_far_plan"
  by (simp add: gtp5g_BuildUpdateFARPlan_def demo_update_def demo_far_plan_def elem_ies_def elem_api_def must_def far_ie_def
      ApplyAction_Unmarshal_def of_le16_def)

lemma buffered_packets_not_delivered_witness:
  "\<exists>rs g'. gtp5g_ExecuteModificationPlan (mem_kernel 9) ((NewModificationPlan 1)\<lparr>UpdateFARs := [demo_far_plan]\<rparr>) (\<lambda>_. [[1, 2, 3]])
     \<lparr>g_kernel = [((KFAR, [1, 3]), [(''FAR_APPLY_ACTION'', AttrU16 4)])], g_perio = [], g_sent = []\<rparr> = Some (rs, [], g')
     \<and> g_sent g' = []"
proof -
  let ?plan = "(NewModificationPlan 1)\<lparr>UpdateFARs := [demo_far_plan]\<rparr>"
  let ?g = "\<lparr>g_kernel = [((KFAR, [1, 3]), [(''FAR_APPLY_ACTION'', AttrU16 4)])], g_perio = [], g_sent = []\<rparr>"
  have e: "list_all (ends_buffering elem_ies (mp_SEID ?plan)) (UpdateFARs ?plan)"
  proof -
    have "\<not> ApplyAction_has \<lparr>aa_Flags = 2\<rparr> A_BUFF" "fp_ApplyAction demo_far_plan = Some \<lparr>aa_Flags = 2\<rparr>"
      by (simp_all add: demo_far_plan_def ApplyAction_has_def APPLY_ACT_def)
    then show ?thesis using demo_far_built by (auto simp: ends_buffering_def NewModificationPlan_def)
  qed
  have u: "updates_succeed (mem_kernel 9) (UpdateFARs ?plan) (fold (request (mem_kernel 9))
      (map (\<lambda>(kind, oid, as). KCreate kind oid as) (create_requests ?plan) @ remove_requests ?plan) (g_kernel ?g))"
    by (simp add: create_requests_def remove_requests_def NewModificationPlan_def demo_far_plan_def mem_kernel_def)
  show ?thesis using buffered_packets_not_delivered [OF mem_kernel_applies e u, of "\<lambda>_. [[1, 2, 3]]"] by simp
qed

text \<open>A kernel with room for one rule, and a request for a FAR and a QER.\<close>

definition gtp_env :: "(mem_state Gtp5g, elem) UpfEnv" where
  "gtp_env =
     \<lparr>e_drv = gtp5g_driver (mem_kernel 1) elem_ies, e_api = elem_api, nodeID = ''10.0.0.9'', recoveryTime = 1,
      RetransTimeout = 1000, MaxRetrans = 2, e_marshal = (\<lambda>m. Some []), e_parse = (\<lambda>b. None), write_ok = (\<lambda>_. True),
      ResolveUDPAddr = (\<lambda>n. Some n), ResolveIPAddr = (\<lambda>n. ParseIP n)\<rparr>"

definition gtp_server :: "(mem_state Gtp5g, elem) PfcpServer" where
  "gtp_server = \<lparr>heap = [(0, \<lparr>rn_ID = ''1'', rn_addr = ''10.0.0.1:8805'', rn_sess = []\<rparr>)],
     lnode = \<lparr>ln_sess = [], ln_free = []\<rparr>, dstate = \<lparr>g_kernel = [], g_perio = [], g_sent = []\<rparr>, rnodes = [(''1'', 0)],
     new_addr = 1, txTrans = [], rxTrans = [], txSeq = 0, sent = []\<rparr>"

definition gtp_est :: "elem EstReq" where
  "gtp_est = \<lparr>er_NodeID = Some (Elem (T_Other 0) 1 [] []), er_CPFSEID = Some (Elem (T_Other 0) 73 [] []),
     er_CreateFAR = [Elem (T_Other 0) 0 [] [Elem T_FARID 3 [] []]], er_CreateQER = [Elem (T_Other 0) 0 [] [Elem T_QERID 4 [] []]],
     er_CreateURR = [], er_CreateBAR = None, er_CreatePDR = []\<rparr>"

lemma gtp_server_inv: "server_inv gtp_server"
  using table_ok_empty
  by (auto simp: gtp_server_def server_inv_def nodes_inv_def rnodes_ok_def trans_ok_def owner_def
      LocalNode_Sess_def)

lemma gtp_est_validates:
  "\<exists>plan. est_validate (e_drv gtp_env) (empty_sess (Some 0) 1 73 BUFFQ_LEN) gtp_est = Inr plan
     \<and> gtp5g_ExecuteEstablishmentPlan (mem_kernel 1) plan (dstate gtp_server)
         = (None, \<lparr>g_kernel = [((KFAR, [1, 3]), [])], g_perio = [], g_sent = []\<rparr>)"
  by (simp add: est_validate_def validate_creates_def and_then_def gtp_est_def gtp_env_def opt_list_def
      ValidateCreateFAR_def ValidateCreateQER_def gtp5g_driver_def gores_option_def must_def gtp5g_BuildCreateFARPlan_def
      gtp5g_BuildCreateQERPlan_def elem_ies_def elem_api_def far_ie_def qer_ie_def NewModificationPlan_def add_CreateFAR_def
      add_CreateQER_def empty_sess_def gtp5g_ExecuteEstablishmentPlan_def and_try_def create_FAR_def create_QER_def
      kernel_op_def mem_kernel_def gtp_server_def)


end
