(* ===== verification/Upf_Buffnetlink.thy ===== *)
theory Upf_Buffnetlink
  imports Upf_Gtp5g_Exec "HOL-Library.Multiset"
begin

text \<open>
  The receiver of kernel messages, \<open>NFs/upf/internal/forwarder/buffnetlink/server.go\<close>: buffered packets and usage reports
  of the kernel become session reports for the PFCP server.

  The decoders of go-nl and go-gtp5gnl and the byte order of the host are the fields of \<open>nl_codec\<close>. Slicing beyond the end
  of the message is a panic; the buffer of a message has no spare capacity, so this is also the bound for \<open>b[n:len]\<close>. The loop over the attributes may not end when a header announces the length zero, so it is a
  partial function: \<open>None\<close> is a loop that does not return.
\<close>

section \<open>Decoding\<close>

text \<open>A decoded attribute header: masked type, length with header, and the size of the header.\<close>

record nl_codec =
  DecodeAttrHdr :: "bytes \<Rightarrow> (nat \<times> nat \<times> nat) option"
  AttrAlign :: "nat \<Rightarrow> nat"
  native_Uint16 :: "bytes \<Rightarrow> u16"
  native_Uint64 :: "bytes \<Rightarrow> nat"
  DecodeAllUSAReports :: "bytes \<Rightarrow> kernel_usar list option"
  SizeofGenlHeader :: nat
  TY_BUFFER :: nat
  TY_REPORT :: nat
  TY_BUFFER_ID :: nat
  TY_BUFFER_ACTION :: nat
  TY_BUFFER_SEID :: nat
  TY_BUFFER_PACKET :: nat

record buffer_msg =
  bm_seid :: nat
  bm_pdrid :: u16
  bm_action :: u16
  bm_pkt :: "bytes option"

definition buffer_attr :: "nl_codec \<Rightarrow> bytes \<Rightarrow> nat \<times> nat \<times> nat \<Rightarrow> buffer_msg \<Rightarrow> buffer_msg gores" where
  "buffer_attr c b h m =
     (case h of (ty, len, n) \<Rightarrow>
        if ty = TY_BUFFER_ID c then
          (if length b < n + 2 then Panic else Val (m\<lparr>bm_pdrid := native_Uint16 c (drop n b)\<rparr>))
        else if ty = TY_BUFFER_ACTION c then
          (if length b < n + 2 then Panic else Val (m\<lparr>bm_action := native_Uint16 c (drop n b)\<rparr>))
        else if ty = TY_BUFFER_SEID c then
          (if length b < n + 8 then Panic else Val (m\<lparr>bm_seid := native_Uint64 c (drop n b)\<rparr>))
        else if ty = TY_BUFFER_PACKET c then
          (if len < n \<or> length b < len then Panic else Val (m\<lparr>bm_pkt := Some (take (len - n) (drop n b))\<rparr>))
        else Val m)"

partial_function (option) decode_loop :: "nl_codec \<Rightarrow> bytes \<Rightarrow> buffer_msg \<Rightarrow> buffer_msg gores option" where
  "decode_loop c b m =
     (if b = [] then Some (Val m)
      else case DecodeAttrHdr c b of
             None \<Rightarrow> Some Err
           | Some h \<Rightarrow>
               (case buffer_attr c b h m of
                  Err \<Rightarrow> Some Err
                | Panic \<Rightarrow> Some Panic
                | Val m' \<Rightarrow>
                    if length b < AttrAlign c (fst (snd h)) then Some Panic
                    else decode_loop c (drop (AttrAlign c (fst (snd h))) b) m'))"

definition decodbuffer :: "nl_codec \<Rightarrow> bytes \<Rightarrow> buffer_msg gores option" where
  "decodbuffer c b = decode_loop c b \<lparr>bm_seid = 0, bm_pdrid = 0, bm_action = 0, bm_pkt = None\<rparr>"

section \<open>Messages\<close>

definition trigger_report :: "kernel_usar \<Rightarrow> USAReport" where
  "trigger_report r = (plain_report r)\<lparr>USARTrigger := SetReportingTrigger (ku_USARTrigger r) \<lparr>ut_Flags = 0\<rparr>\<rparr>"

definition group_usar :: "kernel_usar \<Rightarrow> (nat, USAReport list) gomap \<Rightarrow> (nat, USAReport list) gomap" where
  "group_usar r m =
     mput (ku_SEID r) ((case map_of m (ku_SEID r) of None \<Rightarrow> [] | Some us \<Rightarrow> us) @ [trigger_report r]) m"

text \<open>
  \<open>ServeMsg\<close> returns whether the message was handled and the reports given to \<open>NotifySessReport\<close>. \<open>handler\<close> says whether
  a handler is set, which it is before the kernel sends anything; without one a usage report would panic.
\<close>

definition ServeMsg :: "nl_codec \<Rightarrow> bool \<Rightarrow> bytes \<Rightarrow> (bool \<times> SessReport list) gores option" where
  "ServeMsg c handler body =
     (if length body < SizeofGenlHeader c then Some Panic
      else
        let b = drop (SizeofGenlHeader c) body
        in case DecodeAttrHdr c b of
             None \<Rightarrow> Some (Val (False, []))
           | Some (ty, len, n) \<Rightarrow>
               if length b < n then Some Panic
               else if ty = TY_BUFFER c then
                 map_option (\<lambda>r. case r of
                     Panic \<Rightarrow> Panic
                   | Err \<Rightarrow> Val (False, [])
                   | Val m \<Rightarrow>
                       Val (True,
                         case bm_pkt m of
                           Some pkt \<Rightarrow>
                             if handler
                             then [\<lparr>sr_SEID = bm_seid m,
                                Reports = [DLD \<lparr>dl_PDRID = bm_pdrid m, dl_Action = bm_action m, BufPkt = pkt\<rparr>]\<rparr>]
                             else []
                         | None \<Rightarrow> [])) (decodbuffer c (drop n b))
               else if ty = TY_REPORT c then
                 (case DecodeAllUSAReports c (drop n b) of
                    None \<Rightarrow> Some (Val (False, []))
                  | Some rs \<Rightarrow>
                      if rs = [] then Some (Val (False, []))
                      else if \<not> handler then Some Panic
                      else Some (Val (True, map (\<lambda>(seid, us). \<lparr>sr_SEID = seid, Reports = map USA us\<rparr>)
                             (fold group_usar rs []))))
               else Some (Val (False, [])))"

section \<open>A well-formed message\<close>

text \<open>
  The attributes of a buffered packet, and how the kernel lays them out: header, payload, padding to the alignment. What
  go-nl documents of the codec: the header of a laid out attribute is decoded, and values are read back.
\<close>

datatype buffer_field = FSeid nat | FPdr u16 | FAction u16 | FPacket bytes

record nl_layout =
  lay :: "buffer_field \<Rightarrow> bytes"
  lay_hdr :: nat

fun field_type :: "nl_codec \<Rightarrow> buffer_field \<Rightarrow> nat" where
  "field_type c (FSeid _) = TY_BUFFER_SEID c"
| "field_type c (FPdr _) = TY_BUFFER_ID c"
| "field_type c (FAction _) = TY_BUFFER_ACTION c"
| "field_type c (FPacket _) = TY_BUFFER_PACKET c"

fun field_size :: "buffer_field \<Rightarrow> nat" where
  "field_size (FSeid _) = 8"
| "field_size (FPdr _) = 2"
| "field_size (FAction _) = 2"
| "field_size (FPacket p) = length p"

fun field_read :: "nl_codec \<Rightarrow> nl_layout \<Rightarrow> buffer_field \<Rightarrow> bytes \<Rightarrow> bool" where
  "field_read c l (FSeid i) b \<longleftrightarrow> native_Uint64 c (drop (lay_hdr l) b) = i"
| "field_read c l (FPdr p) b \<longleftrightarrow> native_Uint16 c (drop (lay_hdr l) b) = p"
| "field_read c l (FAction a) b \<longleftrightarrow> native_Uint16 c (drop (lay_hdr l) b) = a"
| "field_read c l (FPacket p) b \<longleftrightarrow> take (length p) (drop (lay_hdr l) b) = p"

text \<open>A field fits if its value has at most 64 bits and its length with the header at most 16.\<close>

fun field_fits :: "nl_layout \<Rightarrow> buffer_field \<Rightarrow> bool" where
  "field_fits l (FSeid i) \<longleftrightarrow> i < 2 ^ 64"
| "field_fits l (FPacket p) \<longleftrightarrow> lay_hdr l + length p < 2 ^ 16"
| "field_fits l _ \<longleftrightarrow> True"

definition layout_ok :: "nl_codec \<Rightarrow> nl_layout \<Rightarrow> bool" where
  "layout_ok c l \<longleftrightarrow>
     distinct [TY_BUFFER_ID c, TY_BUFFER_ACTION c, TY_BUFFER_SEID c, TY_BUFFER_PACKET c] \<and> 0 < lay_hdr l
   \<and> (\<forall>f rest. field_fits l f \<longrightarrow> DecodeAttrHdr c (lay l f @ rest) = Some (field_type c f, lay_hdr l + field_size f, lay_hdr l)
        \<and> field_read c l f (lay l f @ rest)
        \<and> length (lay l f) = AttrAlign c (lay_hdr l + field_size f) \<and> lay_hdr l + field_size f \<le> length (lay l f))"

fun set_field :: "buffer_field \<Rightarrow> buffer_msg \<Rightarrow> buffer_msg" where
  "set_field (FSeid i) m = m\<lparr>bm_seid := i\<rparr>"
| "set_field (FPdr p) m = m\<lparr>bm_pdrid := p\<rparr>"
| "set_field (FAction a) m = m\<lparr>bm_action := a\<rparr>"
| "set_field (FPacket p) m = m\<lparr>bm_pkt := Some p\<rparr>"

lemma layout_okD:
  assumes "layout_ok c l" and "field_fits l f"
  shows "DecodeAttrHdr c (lay l f @ rest) = Some (field_type c f, lay_hdr l + field_size f, lay_hdr l)"
    and "field_read c l f (lay l f @ rest)" and "length (lay l f) = AttrAlign c (lay_hdr l + field_size f)"
    and "lay_hdr l + field_size f \<le> length (lay l f)" and "0 < lay_hdr l"
  using assms unfolding layout_ok_def by blast+

lemma buffer_attr_lay:
  assumes "layout_ok c l" and "field_fits l f"
  shows "buffer_attr c (lay l f @ rest) (field_type c f, lay_hdr l + field_size f, lay_hdr l) m = Val (set_field f m)"
proof -
  have d: "distinct [TY_BUFFER_ID c, TY_BUFFER_ACTION c, TY_BUFFER_SEID c, TY_BUFFER_PACKET c]"
    using assms unfolding layout_ok_def by blast
  show ?thesis using d layout_okD(2,4) [OF assms] by (cases f) (auto simp: buffer_attr_def)
qed

lemma decode_loop_lay:
  assumes "layout_ok c l"
  shows "list_all (field_fits l) fs \<Longrightarrow> decode_loop c (concat (map (lay l) fs)) m = Some (Val (fold set_field fs m))"
proof (induction fs arbitrary: m)
  case Nil
  show ?case by (subst decode_loop.simps) simp
next
  case (Cons f fs)
  let ?rest = "concat (map (lay l) fs)"
  have f: "field_fits l f" using Cons.prems by simp
  note l = layout_okD(1) [OF assms f, of ?rest] layout_okD(3-5) [OF assms f]
  have "lay l f \<noteq> []" using l(3,4) by auto
  then show ?case using l(1,2) buffer_attr_lay [OF assms f, of ?rest m] Cons
    by (subst decode_loop.simps) simp
qed

lemma ServeMsg_buffer:
  assumes l: "layout_ok c l" and gh: "length gh = SizeofGenlHeader c"
    and fits: "list_all (field_fits l) fs"
    and hdr: "DecodeAttrHdr c (oh @ concat (map (lay l) fs)) = Some (TY_BUFFER c, len, length oh)"
    and m: "fold set_field fs \<lparr>bm_seid = 0, bm_pdrid = 0, bm_action = 0, bm_pkt = None\<rparr>
      = \<lparr>bm_seid = i, bm_pdrid = p, bm_action = a, bm_pkt = Some pkt\<rparr>"
  shows "ServeMsg c True (gh @ oh @ concat (map (lay l) fs)) =
    Some (Val (True, [\<lparr>sr_SEID = i, Reports = [DLD \<lparr>dl_PDRID = p, dl_Action = a, BufPkt = pkt\<rparr>]\<rparr>]))"
  using gh hdr m decode_loop_lay [OF l fits] by (simp add: ServeMsg_def decodbuffer_def Let_def)

lemma ServeMsg_packet:
  assumes "layout_ok c l" and "length gh = SizeofGenlHeader c"
    and "i < 2 ^ 64" and "lay_hdr l + length pkt < 2 ^ 16"
    and "mset fs = mset [FSeid i, FPdr p, FAction a, FPacket pkt]"
    and "DecodeAttrHdr c (oh @ concat (map (lay l) fs)) = Some (TY_BUFFER c, len, length oh)"
  shows "ServeMsg c True (gh @ oh @ concat (map (lay l) fs)) =
    Some (Val (True, [\<lparr>sr_SEID = i, Reports = [DLD \<lparr>dl_PDRID = p, dl_Action = a, BufPkt = pkt\<rparr>]\<rparr>]))"
proof -
  have s: "set fs = {FSeid i, FPdr p, FAction a, FPacket pkt}"
    using mset_eq_setD [OF assms(5)] by simp
  have fits: "list_all (field_fits l) fs" using assms(3,4) s by (simp add: list_all_iff)
  have c: "set_field x \<circ> set_field y = set_field y \<circ> set_field x" if "x \<in> set fs" "y \<in> set fs" for x y
    using that unfolding s by (auto simp: fun_eq_iff)
  have "fold set_field fs = fold set_field [FSeid i, FPdr p, FAction a, FPacket pkt]"
    using c assms(5) by (rule fold_multiset_equiv)
  then have "fold set_field fs \<lparr>bm_seid = 0, bm_pdrid = 0, bm_action = 0, bm_pkt = None\<rparr>
      = \<lparr>bm_seid = i, bm_pdrid = p, bm_action = a, bm_pkt = Some pkt\<rparr>" by simp
  then show ?thesis by (rule ServeMsg_buffer [OF assms(1,2) fits assms(6)])
qed

text \<open>A packet that the kernel buffers reaches the session reports unchanged. For a netlink message with the four
  attributes of a buffered packet, in any order, the decoding loop ends, the message is handled, and exactly one session
  report results: for the SEID of the message, with its PDR, its action and the bytes of its packet.\<close>

theorem ServeMsg_reports_packet:
  assumes "layout_ok c l" and "length gh = SizeofGenlHeader c"
    and "i < 2 ^ 64" and "lay_hdr l + length pkt < 2 ^ 16"
    and "mset fs = mset [FSeid i, FPdr p, FAction a, FPacket pkt]"
    and "DecodeAttrHdr c (oh @ concat (map (lay l) fs)) = Some (TY_BUFFER c, len, length oh)"
  shows "ServeMsg c True (gh @ oh @ concat (map (lay l) fs)) =
    Some (Val (True, [\<lparr>sr_SEID = i, Reports = [DLD \<lparr>dl_PDRID = p, dl_Action = a, BufPkt = pkt\<rparr>]\<rparr>]))"
  using assms by (rule ServeMsg_packet)

section \<open>The netlink format\<close>

text \<open>The codec and the layout of netlink on a little-endian host, as an instance.\<close>

fun le_bytes :: "nat \<Rightarrow> nat \<Rightarrow> bytes" where
  "le_bytes 0 v = []"
| "le_bytes (Suc k) v = of_nat v # le_bytes k (v div 256)"

fun le_value :: "bytes \<Rightarrow> nat" where
  "le_value [] = 0"
| "le_value (b # bs) = unat b + 256 * le_value bs"

lemma length_le_bytes [simp]: "length (le_bytes k v) = k"
  by (induction k arbitrary: v) simp_all

lemma le_value_bytes: "v < 256 ^ k \<Longrightarrow> le_value (le_bytes k v) = v"
proof (induction k arbitrary: v)
  case (Suc k)
  have "v div 256 < 256 ^ k" using Suc.prems by (simp add: less_mult_imp_div_less mult.commute)
  moreover have "unat (of_nat v :: u8) = v mod 256" by (simp add: unat_of_nat)
  ultimately show ?case using Suc.IH by simp
qed simp

definition netlink_codec :: nl_codec where
  "netlink_codec =
     \<lparr>DecodeAttrHdr = (\<lambda>b. if length b < 4 then None else Some (le_value (take 2 (drop 2 b)), le_value (take 2 b), 4)),
      AttrAlign = (\<lambda>n. (n + 3) div 4 * 4), native_Uint16 = (\<lambda>b. of_nat (le_value (take 2 b))),
      native_Uint64 = (\<lambda>b. le_value (take 8 b)), DecodeAllUSAReports = (\<lambda>_. None), SizeofGenlHeader = 4,
      TY_BUFFER = 1, TY_REPORT = 2, TY_BUFFER_ID = 1, TY_BUFFER_ACTION = 2, TY_BUFFER_SEID = 4, TY_BUFFER_PACKET = 3\<rparr>"

fun field_bytes :: "buffer_field \<Rightarrow> bytes" where
  "field_bytes (FSeid i) = le_bytes 8 i"
| "field_bytes (FPdr p) = le_bytes 2 (unat p)"
| "field_bytes (FAction a) = le_bytes 2 (unat a)"
| "field_bytes (FPacket p) = p"

definition netlink_layout :: nl_layout where
  "netlink_layout =
     \<lparr>lay = (\<lambda>f. le_bytes 2 (4 + field_size f) @ le_bytes 2 (field_type netlink_codec f) @ field_bytes f
        @ replicate ((4 + field_size f + 3) div 4 * 4 - (4 + field_size f)) 0), lay_hdr = 4\<rparr>"

lemma length_field_bytes: "length (field_bytes f) = field_size f"
  by (cases f) simp_all

lemma round_up: "n \<le> (n + 3) div 4 * (4 :: nat)"
  by simp

lemma field_read_layout:
  assumes "field_fits netlink_layout f"
  shows "field_read netlink_codec netlink_layout f (lay netlink_layout f @ rest)"
proof -
  have u: "unat w < 256 ^ 2" for w :: u16
  proof -
    have "unat w < 2 ^ LENGTH(16)" by (rule unsigned_less)
    then show ?thesis by simp
  qed
  show ?thesis using assms le_value_bytes [OF u]
    by (cases f) (simp_all add: netlink_layout_def netlink_codec_def le_value_bytes)
qed

lemma netlink_layout_ok: "layout_ok netlink_codec netlink_layout"
proof -
  have "DecodeAttrHdr netlink_codec (lay netlink_layout f @ rest)
      = Some (field_type netlink_codec f, lay_hdr netlink_layout + field_size f, lay_hdr netlink_layout)"
    if "field_fits netlink_layout f" for f rest
  proof -
    have t: "field_type netlink_codec f < 256 ^ 2" by (cases f) (simp_all add: netlink_codec_def)
    have z: "4 + field_size f < 256 ^ 2" using that by (cases f) (simp_all add: netlink_layout_def)
    show ?thesis using le_value_bytes [OF t] le_value_bytes [OF z]
      by (simp add: netlink_layout_def) (simp add: netlink_codec_def)
  qed
  then show ?thesis unfolding layout_ok_def
    using field_read_layout round_up by (auto simp: netlink_layout_def netlink_codec_def length_field_bytes)
qed

lemma ServeMsg_reports_packet_witness:
  "ServeMsg netlink_codec True ([0, 0, 0, 0] @ le_bytes 2 0 @ le_bytes 2 1
       @ concat (map (lay netlink_layout) [FPacket [1, 2, 3], FSeid 9, FAction 12, FPdr 7]))
     = Some (Val (True, [\<lparr>sr_SEID = 9, Reports = [DLD \<lparr>dl_PDRID = 7, dl_Action = 12, BufPkt = [1, 2, 3]\<rparr>]\<rparr>]))"
proof -
  let ?fs = "[FPacket [1, 2, 3], FSeid 9, FAction 12, FPdr 7]"
  have h: "DecodeAttrHdr netlink_codec ((le_bytes 2 0 @ le_bytes 2 1) @ concat (map (lay netlink_layout) ?fs))
      = Some (TY_BUFFER netlink_codec, 0, length (le_bytes 2 0 @ le_bytes 2 1))"
    by (simp add: netlink_codec_def numeral_2_eq_2)
  have m: "mset ?fs = mset [FSeid 9, FPdr 7, FAction 12, FPacket [1, 2, 3]]" by simp
  have g: "length [0, 0, 0, 0 :: u8] = SizeofGenlHeader netlink_codec" by (simp add: netlink_codec_def)
  show ?thesis
    using ServeMsg_reports_packet [OF netlink_layout_ok g _ _ m h] by (simp add: netlink_layout_def)
qed

end
