(* ===== verification/Upf_System.thy ===== *)
theory Upf_System
  imports Upf_Pfcp_Props Upf_Gtp5g_Props Upf_Buffnetlink
begin

unbundle bit_operations_syntax

text \<open>
  The parts of the user plane function together: from a message of the kernel to the queue of a session and the request to
  the control plane, and from the plans the forwarder executes to the server of periodic reports.
\<close>

section \<open>A buffered packet\<close>

text \<open>The reports that a kernel message gives rise to, served one after the other by the PFCP server.\<close>

fun serve_all :: "('d, 'ie) UpfEnv \<Rightarrow> SessReport list \<Rightarrow> ('d, 'ie) PfcpServer \<Rightarrow> ('d, 'ie) PfcpServer option" where
  "serve_all env [] st = Some st"
| "serve_all env (r # rs) st = Option.bind (ServeReport env r st) (serve_all env rs)"

definition kernel_message :: "nl_codec \<Rightarrow> ('d, 'ie) UpfEnv \<Rightarrow> bytes \<Rightarrow> ('d, 'ie) PfcpServer \<Rightarrow> ('d, 'ie) PfcpServer gores" where
  "kernel_message c env body st =
     (case ServeMsg c True body of
        None \<Rightarrow> Panic
      | Some Panic \<Rightarrow> Panic
      | Some Err \<Rightarrow> Err
      | Some (Val (_, rs)) \<Rightarrow> (case serve_all env rs st of None \<Rightarrow> Panic | Some st' \<Rightarrow> Val st'))"

text \<open>C10: A downlink packet for an idle user is kept and announced. When the kernel hands up a buffered packet of a session
  that exists, the packet is appended unchanged to the queue of its PDR, if the action of the FAR says to buffer, the packet
  is not empty and the queue has room, and is dropped otherwise; exactly one session report request with the PDR is sent
  to the session's control plane if the action says to notify it; no other session changes and the state stays
  consistent.\<close>

theorem downlink_packet_end_to_end:
  assumes lay: "layout_ok c l" "length gh = SizeofGenlHeader c" "i < 2 ^ 64" "lay_hdr l + length pkt < 2 ^ 16"
      "mset fs = mset [FSeid i, FPdr p, FAction a, FPacket pkt]"
      "DecodeAttrHdr c (oh @ concat (map (lay l) fs)) = Some (TY_BUFFER c, len, length oh)"
    and inv: "server_inv st" and s: "LocalNode_Sess i (lnode st) = Some s"
    and n: "Option.bind (s_rnode s) (map_of (heap st)) = Some n"
    and r: "ResolveUDPAddr env (rn_ID n @ '':'' @ itoa UpfPfcpDefaultPort) = Some laddr"
  shows "\<exists>st' s'. kernel_message c env (gh @ oh @ concat (map (lay l) fs)) st = Val st' \<and> server_inv st'
    \<and> (\<forall>j. LocalNode_Sess j (lnode st') = (if j = i then Some s' else LocalNode_Sess j (lnode st)))
    \<and> q_items p s' = q_items p s @
        (if a AND APPLY_ACT A_BUFF \<noteq> 0 \<and> pkt \<noteq> [] \<and> length (q_items p s) < s_qlen s then [pkt] else [])
    \<and> sent st' = sent st @
        (if a AND APPLY_ACT A_NOCP = 0 then []
         else case e_marshal env (SessionReportRequest (txSeq st) (RemoteID s)
                [R_ReportType 0 0 0 1, R_DownlinkDataReport p] []) of
                None \<Rightarrow> [] | Some b \<Rightarrow> [(b, laddr)])"
proof -
  have m: "ServeMsg c True (gh @ oh @ concat (map (lay l) fs)) =
      Some (Val (True, [\<lparr>sr_SEID = i, Reports = [DLD \<lparr>dl_PDRID = p, dl_Action = a, BufPkt = pkt\<rparr>]\<rparr>]))"
    using lay by (rule ServeMsg_packet)
  show ?thesis
    using downlink_report_spec [OF inv s n r, where r = "\<lparr>dl_PDRID = p, dl_Action = a, BufPkt = pkt\<rparr>"]
    by (auto simp: kernel_message_def m)
qed

lemma downlink_packet_end_to_end_witness:
  "\<exists>st' s'. kernel_message netlink_codec (plain_env 2) ([0, 0, 0, 0] @ (le_bytes 2 0 @ le_bytes 2 1)
       @ concat (map (lay netlink_layout) [FSeid 1, FPdr 7, FAction 12, FPacket [1, 2]])) two_server = Val st'
     \<and> LocalNode_Sess 1 (lnode st') = Some s' \<and> q_items 7 s' = [[1, 2]] \<and> sent st' = [([1], ''smf1:8805'')]"
proof -
  let ?fs = "[FSeid 1, FPdr 7, FAction 12, FPacket [1, 2]]"
  let ?s = "empty_sess (Some 0) 1 71 512"
  have h: "DecodeAttrHdr netlink_codec ((le_bytes 2 0 @ le_bytes 2 1) @ concat (map (lay netlink_layout) ?fs))
      = Some (TY_BUFFER netlink_codec, 0, length (le_bytes 2 0 @ le_bytes 2 1))"
    by (simp add: netlink_codec_def numeral_2_eq_2)
  have g: "length [0, 0, 0, 0 :: u8] = SizeofGenlHeader netlink_codec" by (simp add: netlink_codec_def)
  have s: "LocalNode_Sess 1 (lnode two_server) = Some ?s" using two_nodes_Sess [of 1] by (simp add: two_server_def)
  have n: "Option.bind (s_rnode ?s) (map_of (heap two_server))
      = Some \<lparr>rn_ID = ''smf1'', rn_addr = ''10.0.0.1:8805'', rn_sess = [1]\<rparr>"
    by (simp add: empty_sess_def two_server_def two_nodes_def)
  have r: "ResolveUDPAddr (plain_env 2) (rn_ID \<lparr>rn_ID = ''smf1'', rn_addr = ''10.0.0.1:8805'', rn_sess = [1]\<rparr>
      @ '':'' @ itoa UpfPfcpDefaultPort) = Some ''smf1:8805''"
    by (simp add: plain_env_def UpfPfcpDefaultPort_def itoa.simps digit_def)
  have q: "q_items 7 ?s = []" "s_qlen ?s = 512" by (simp_all add: q_items_def empty_sess_def)
  have a: "(12 :: u16) AND APPLY_ACT A_BUFF \<noteq> 0" "(12 :: u16) AND APPLY_ACT A_NOCP \<noteq> 0" by (simp_all add: APPLY_ACT_def)
  have m: "e_marshal (plain_env 2) (SessionReportRequest (txSeq two_server) (RemoteID ?s)
      [R_ReportType 0 0 0 1, R_DownlinkDataReport 7] []) = Some [1]" "sent two_server = []"
    by (simp_all add: plain_env_def two_server_def)
  show ?thesis
    using downlink_packet_end_to_end [OF netlink_layout_ok g _ _ refl h two_server_inv s n r] a
    unfolding q m by (auto simp: netlink_layout_def)
qed

section \<open>Timers\<close>

text \<open>A run of the server of periodic reports on additions with positive periods keeps its invariant and does not panic.\<close>

fun positive_add :: "perio_event \<Rightarrow> bool" where
  "positive_add (PERIO_ADD _ _ p) \<longleftrightarrow> 0 < p"
| "positive_add _ \<longleftrightarrow> True"

lemma perio_step_safe:
  assumes "perio_inv s" and "positive_add e"
  shows "\<exists>s'. perio_step q e s = Some s' \<and> perio_inv s'"
proof (cases e)
  case (PERIO_ADD i u p)
  then show ?thesis using perio_add_spec [OF assms(1), of p i u] assms(2) by (auto simp: perio_step_def)
next
  case (PERIO_DEL i u)
  then show ?thesis using perio_del_spec(1) [OF assms(1)] by (simp add: perio_step_def)
next
  case (PERIO_TIMEOUT p)
  then show ?thesis using assms(1) by (simp add: perio_step_def perio_timeout_spec)
next
  case SERVER_CLOSE
  then show ?thesis using perio_close_spec(1) [OF assms(1)] by (simp add: perio_step_def)
qed

lemma perio_run_safe: "perio_inv s \<Longrightarrow> list_all positive_add es \<Longrightarrow> \<exists>s'. perio_run q es s = Some s' \<and> perio_inv s'"
proof (induction es arbitrary: s)
  case (Cons e es)
  obtain s' where "perio_step q e s = Some s'" "perio_inv s'" using perio_step_safe [of s e q] Cons.prems by auto
  then show ?case using Cons.IH [of s'] Cons.prems(2) by auto
qed simp

text \<open>Execution of a list of modification plans; the reports and the queues play no role here.\<close>

fun execute_plans :: "'k gtp5gnl \<Rightarrow> ('ie ModificationPlan \<times> (u16 \<Rightarrow> bytes list)) list \<Rightarrow> 'k Gtp5g \<Rightarrow> 'k Gtp5g option" where
  "execute_plans nl [] g = Some g"
| "execute_plans nl ((plan, q) # ps) g =
     (case gtp5g_ExecuteModificationPlan nl plan q g of None \<Rightarrow> None | Some (_, _, g') \<Rightarrow> execute_plans nl ps g')"

lemma execute_plans_timers:
  "\<exists>g'. execute_plans nl ps g = Some g' \<and> g_perio g' = g_perio g @ concat (map (plan_timers \<circ> fst) ps)"
proof (induction ps arbitrary: g)
  case (Cons x ps)
  obtain plan q where x: "x = (plan, q)" by (cases x)
  obtain rs ks g1 where g1: "gtp5g_ExecuteModificationPlan nl plan q g = Some (rs, ks, g1)" "g_perio g1 = g_perio g @ plan_timers plan"
    using modification_spec [of nl plan q g] by blast
  then show ?case using Cons [of g1] x by auto
qed simp

lemma plan_timers_positive: "list_all positive_add (plan_timers plan)"
  by (auto simp: plan_timers_def list_all_iff)


end
