(* ===== verification/Lazy_Reuse_Pool.thy ===== *)
theory Lazy_Reuse_Pool
  imports Go_Prelude
begin

text \<open>
  The SMF's identifier pool, \<open>NFs/smf/internal/context/pool/lazyReusePool.go\<close>: a range of
  integers kept as a linked list of segments of free values. The linked list is a HOL list
  (\<open>head\<close> is the chain that starts at the Go field \<open>head\<close>; nil is the empty list), a loop over
  the chain is a recursion over the list, and an operation on one node that also rewires its
  \<open>next\<close> pointer returns the list that replaces it. Go's \<open>int\<close> is modelled by the
  unbounded integers: every pool of the program spans IPv4 addresses or other values far from
  the 64-bit limits, so no addition here wraps. The mutex serialises the operations, each of
  which is one function on the pool.

  The abstract view of a pool is the set of its free values (\<open>avail\<close>). The invariant
  \<open>pool_inv\<close> (segments non-empty, in range, pairwise disjoint; \<open>remain\<close> counts the free values)
  is kept by every operation. The stronger \<open>pool_ord\<close> (the segments after the head are sorted
  and apart) is what the detection of a duplicate \<open>Free\<close> rests on: \<open>Allocate\<close> and \<open>Free\<close> keep
  it, \<open>Use\<close> need not.
\<close>

section \<open>Data\<close>

record segment =
  seg_first :: int
  seg_last :: int

record LazyReusePool =
  head :: "segment list"
  p_first :: int
  p_last :: int
  p_remain :: int

datatype relativePos =
  withinThisSegment | adjacentToTheFront | adjacentToTheBack | before | after

abbreviation Seg :: "int \<Rightarrow> int \<Rightarrow> segment" where
  "Seg a b \<equiv> \<lparr>seg_first = a, seg_last = b\<rparr>"

section \<open>Operations\<close>

definition NewLazyReusePool :: "int \<Rightarrow> int \<Rightarrow> LazyReusePool option" where
  "NewLazyReusePool f l =
     (if f > l then None
      else Some \<lparr>head = [Seg f l], p_first = f, p_last = l, p_remain = l - f + 1\<rparr>)"

definition newSingleSegment :: "int \<Rightarrow> segment" where
  "newSingleSegment num = Seg num num"

definition relativePosisionOf :: "segment \<Rightarrow> int \<Rightarrow> relativePos" where
  "relativePosisionOf s v =
     (if v < seg_first s - 1 then before
      else if v = seg_first s - 1 then adjacentToTheFront
      else if seg_first s \<le> v \<and> v \<le> seg_last s then withinThisSegment
      else if v = seg_last s + 1 then adjacentToTheBack
      else after)"

text \<open>\<open>seg_split s use rest\<close>: the list that replaces \<open>s\<close> and its successors \<open>rest\<close>.\<close>

definition seg_split :: "segment \<Rightarrow> int \<Rightarrow> segment list \<Rightarrow> bool \<times> segment list" where
  "seg_split s use rest =
     (if use < seg_first s \<or> use > seg_last s then (False, s # rest)
      else if use = seg_first s then (True, s\<lparr>seg_first := seg_first s + 1\<rparr> # rest)
      else if use = seg_last s then (True, s\<lparr>seg_last := seg_last s - 1\<rparr> # rest)
      else (True, s\<lparr>seg_last := use - 1\<rparr> # Seg (use + 1) (seg_last s) # rest))"

fun extendLast :: "segment \<Rightarrow> segment list \<Rightarrow> segment list" where
  "extendLast s [] = [s\<lparr>seg_last := seg_last s + 1\<rparr>]"
| "extendLast s (n # rest) =
     (if seg_last s + 1 + 1 = seg_first n
      then s\<lparr>seg_last := seg_last n\<rparr> # rest
      else s\<lparr>seg_last := seg_last s + 1\<rparr> # n # rest)"

definition Allocate :: "LazyReusePool \<Rightarrow> (int \<times> bool) \<times> LazyReusePool" where
  "Allocate p =
     (case head p of
        [] \<Rightarrow> ((0, False), p)
      | s # rest \<Rightarrow>
          (let res = seg_first s;
               s' = s\<lparr>seg_first := seg_first s + 1\<rparr>;
               h = (if seg_first s' > seg_last s' then rest else s' # rest)
           in ((res, True), p\<lparr>head := h, p_remain := p_remain p - 1\<rparr>)))"

text \<open>The loop of \<open>Use\<close>: the list after removing the value, \<open>None\<close> when no segment holds it.\<close>

fun use_loop :: "int \<Rightarrow> segment list \<Rightarrow> segment list option" where
  "use_loop v [] = None"
| "use_loop v (cur # rest) =
     (if relativePosisionOf cur v = withinThisSegment
      then Some (if seg_first cur = seg_last cur then rest else snd (seg_split cur v rest))
      else map_option ((#) cur) (use_loop v rest))"

definition Use :: "int \<Rightarrow> LazyReusePool \<Rightarrow> bool \<times> LazyReusePool" where
  "Use v p =
     (case use_loop v (head p) of
        None \<Rightarrow> (False, p)
      | Some h \<Rightarrow> (True, p\<lparr>head := h, p_remain := p_remain p - 1\<rparr>))"

text \<open>
  The loop of \<open>Free\<close> over the segments after the head: \<open>None\<close> is the early return of a
  duplicate free, \<open>Some\<close> the list with the value added.
\<close>

fun free_loop :: "int \<Rightarrow> segment list \<Rightarrow> segment list option" where
  "free_loop v [] = Some []"
| "free_loop v (cur # rest) =
     (case relativePosisionOf cur v of
        before \<Rightarrow> Some (newSingleSegment v # cur # rest)
      | adjacentToTheFront \<Rightarrow> Some (cur\<lparr>seg_first := v\<rparr> # rest)
      | withinThisSegment \<Rightarrow> None
      | adjacentToTheBack \<Rightarrow> Some (extendLast cur rest)
      | after \<Rightarrow>
          (if rest = [] then Some [cur, newSingleSegment v]
           else map_option ((#) cur) (free_loop v rest)))"

definition Free :: "int \<Rightarrow> LazyReusePool \<Rightarrow> bool \<times> LazyReusePool" where
  "Free v p =
     (if v < p_first p \<or> p_last p < v then (False, p)
      else case head p of
        [] \<Rightarrow> (True, p\<lparr>head := [newSingleSegment v], p_remain := p_remain p + 1\<rparr>)
      | h # rest \<Rightarrow>
          (if relativePosisionOf h v = withinThisSegment then (False, p)
           else if relativePosisionOf h v = adjacentToTheBack
             then (True, p\<lparr>head := extendLast h rest, p_remain := p_remain p + 1\<rparr>)
           else if rest = []
             then (True, p\<lparr>head := [h, newSingleSegment v], p_remain := p_remain p + 1\<rparr>)
           else case free_loop v rest of
             None \<Rightarrow> (False, p)
           | Some rest' \<Rightarrow> (True, p\<lparr>head := h # rest', p_remain := p_remain p + 1\<rparr>)))"

definition Contains :: "LazyReusePool \<Rightarrow> int \<Rightarrow> int \<Rightarrow> bool" where
  "Contains p f l \<longleftrightarrow> f \<le> l \<and> p_first p \<le> f \<and> p_last p \<ge> l"

text \<open>
  One iteration of the loop of \<open>Reserve\<close>: the segments that replace \<open>cur\<close> and what is
  subtracted from \<open>remain\<close>. In the third case the loop goes on with the segment it has just
  inserted, which starts after \<open>l\<close> and is left as it is (\<open>reserve_step_beyond\<close> below), so the
  recursion goes on with the successors of \<open>cur\<close>.
\<close>

definition reserve_step :: "int \<Rightarrow> int \<Rightarrow> segment \<Rightarrow> segment list \<times> int" where
  "reserve_step f l cur =
     (if seg_first cur \<ge> f \<and> seg_first cur \<le> l \<and> seg_last cur > l
      then ([cur\<lparr>seg_first := l + 1\<rparr>], l - seg_first cur + 1)
      else if seg_first cur < f \<and> seg_last cur \<ge> f \<and> seg_last cur \<le> l
      then ([cur\<lparr>seg_last := f - 1\<rparr>], seg_last cur - f + 1)
      else if seg_first cur < f \<and> seg_last cur > l
      then ([cur\<lparr>seg_last := f - 1\<rparr>, Seg (l + 1) (seg_last cur)], l - f + 1)
      else if seg_first cur \<ge> f \<and> seg_last cur \<le> l
      then ([], seg_last cur - seg_first cur + 1)
      else ([cur], 0))"

fun reserve_loop :: "int \<Rightarrow> int \<Rightarrow> segment list \<Rightarrow> segment list \<times> int" where
  "reserve_loop f l [] = ([], 0)"
| "reserve_loop f l (cur # rest) =
     (let (new, n) = reserve_step f l cur; (rest', m) = reserve_loop f l rest
      in (new @ rest', n + m))"

definition Reserve :: "int \<Rightarrow> int \<Rightarrow> LazyReusePool \<Rightarrow> bool \<times> LazyReusePool" where
  "Reserve f l p =
     (if \<not> Contains p f l then (False, p)
      else let (h, n) = reserve_loop f l (head p)
           in (True, p\<lparr>head := h, p_remain := p_remain p - n\<rparr>))"

definition Min_of :: "LazyReusePool \<Rightarrow> int" where
  "Min_of p = p_first p"

definition Max_of :: "LazyReusePool \<Rightarrow> int" where
  "Max_of p = p_last p"

definition Remain :: "LazyReusePool \<Rightarrow> int" where
  "Remain p = p_remain p"

definition Total :: "LazyReusePool \<Rightarrow> int" where
  "Total p = p_last p - p_first p + 1"

definition IsJoint :: "LazyReusePool \<Rightarrow> LazyReusePool \<Rightarrow> bool" where
  "IsJoint p1 p2 \<longleftrightarrow> \<not> (p_last p2 < p_first p1 \<or> p_last p1 < p_first p2)"

definition Dump :: "LazyReusePool \<Rightarrow> int list list" where
  "Dump p = map (\<lambda>s. [seg_first s, seg_last s]) (head p)"

section \<open>The free values and the invariant\<close>

definition seg_set :: "segment \<Rightarrow> int set" where
  "seg_set s = {seg_first s .. seg_last s}"

fun avail_list :: "segment list \<Rightarrow> int set" where
  "avail_list [] = {}"
| "avail_list (s # ss) = seg_set s \<union> avail_list ss"

definition avail :: "LazyReusePool \<Rightarrow> int set" where
  "avail p = avail_list (head p)"

fun segs_ok :: "int \<Rightarrow> int \<Rightarrow> segment list \<Rightarrow> bool" where
  "segs_ok lo hi [] = True"
| "segs_ok lo hi (s # ss) =
     (lo \<le> seg_first s \<and> seg_first s \<le> seg_last s \<and> seg_last s \<le> hi \<and>
      seg_set s \<inter> avail_list ss = {} \<and> segs_ok lo hi ss)"

definition pool_inv :: "LazyReusePool \<Rightarrow> bool" where
  "pool_inv p \<longleftrightarrow>
     p_first p \<le> p_last p \<and> segs_ok (p_first p) (p_last p) (head p) \<and>
     p_remain p = int (card (avail p))"

fun apart :: "segment list \<Rightarrow> bool" where
  "apart (s # t # ss) = (seg_last s + 1 < seg_first t \<and> apart (t # ss))"
| "apart _ = True"

definition pool_ord :: "LazyReusePool \<Rightarrow> bool" where
  "pool_ord p \<longleftrightarrow> pool_inv p \<and> apart (tl (head p))"

section \<open>Segment lists\<close>

lemma finite_seg_set [simp]: "finite (seg_set s)"
  by (simp add: seg_set_def)

lemma finite_avail_list [simp]: "finite (avail_list ss)"
  by (induction ss) auto

lemma avail_list_append [simp]: "avail_list (xs @ ys) = avail_list xs \<union> avail_list ys"
  by (induction xs) auto

lemma segs_ok_append:
  "segs_ok lo hi (xs @ ys) \<longleftrightarrow>
     segs_ok lo hi xs \<and> segs_ok lo hi ys \<and> avail_list xs \<inter> avail_list ys = {}"
  by (induction xs) auto

lemma segs_ok_range: "segs_ok lo hi ss \<Longrightarrow> avail_list ss \<subseteq> {lo .. hi}"
  by (induction ss) (auto simp: seg_set_def)

lemma within_iff:
  "relativePosisionOf s v = withinThisSegment \<longleftrightarrow> v \<in> seg_set s"
  by (auto simp: relativePosisionOf_def seg_set_def)

lemma relpos_before: "relativePosisionOf s v = before \<longleftrightarrow> v < seg_first s - 1"
  by (simp add: relativePosisionOf_def)

lemma relpos_front: "relativePosisionOf s v = adjacentToTheFront \<longleftrightarrow> v = seg_first s - 1"
  by (simp add: relativePosisionOf_def)

lemma relpos_back:
  "seg_first s \<le> seg_last s \<Longrightarrow>
    relativePosisionOf s v = adjacentToTheBack \<longleftrightarrow> v = seg_last s + 1"
  by (auto simp: relativePosisionOf_def)

lemma relpos_after:
  "seg_first s \<le> seg_last s \<Longrightarrow> relativePosisionOf s v = after \<longleftrightarrow> v > seg_last s + 1"
  by (auto simp: relativePosisionOf_def)

lemmas relpos = relpos_before relpos_front within_iff relpos_back relpos_after

text \<open>Adding a value to a segment list: what every successful branch of \<open>Free\<close> does.\<close>

definition adds :: "int \<Rightarrow> int \<Rightarrow> int \<Rightarrow> segment list \<Rightarrow> segment list \<Rightarrow> bool" where
  "adds lo hi v ss ss' \<longleftrightarrow> segs_ok lo hi ss' \<and> avail_list ss' = insert v (avail_list ss)"

definition takes :: "int \<Rightarrow> int \<Rightarrow> int \<Rightarrow> segment list \<Rightarrow> segment list \<Rightarrow> bool" where
  "takes lo hi v ss ss' \<longleftrightarrow> segs_ok lo hi ss' \<and> avail_list ss' = avail_list ss - {v}"

lemma seg_disjoint_iff:
  "seg_set s \<inter> A = {} \<longleftrightarrow> (\<forall>x\<in>A. x < seg_first s \<or> seg_last s < x)"
  by (auto simp: seg_set_def disjoint_iff not_le) (meson not_less)

lemma gap_grow_back:
  fixes a :: int
  shows "\<forall>x\<in>A. x < a \<or> b < x \<Longrightarrow> b + 1 \<notin> A \<Longrightarrow> \<forall>x\<in>A. x < a \<or> b + 1 < x"
  by (auto simp: less_le)

lemma gap_grow_front:
  fixes a :: int
  shows "\<forall>x\<in>A. x < a \<or> b < x \<Longrightarrow> a - 1 \<notin> A \<Longrightarrow> \<forall>x\<in>A. x < a - 1 \<or> b < x"
  by (auto simp: less_le)

lemmas seg_simps = seg_disjoint_iff adds_def takes_def

lemma extendLast_adds:
  assumes "segs_ok lo hi (s # rest)" and "v = seg_last s + 1" and "v \<le> hi"
    and "v \<notin> avail_list rest"
  shows "adds lo hi v (s # rest) (extendLast s rest)"
proof (cases rest)
  case Nil
  with assms show ?thesis by (auto simp: seg_simps seg_set_def)
next
  case (Cons n rest')
  have n: "seg_first n \<le> seg_last n" "seg_last n \<le> hi" "segs_ok lo hi rest'"
    using assms(1) Cons by auto
  have d: "\<forall>x\<in>avail_list rest'. x < seg_first s \<or> seg_last s < x"
      "\<forall>x\<in>avail_list rest'. x < seg_first n \<or> seg_last n < x"
      "\<forall>x\<in>seg_set n. x < seg_first s \<or> seg_last s < x"
    using assms(1) Cons by (auto simp: seg_disjoint_iff)
  have v: "v \<notin> avail_list rest'" "v \<notin> seg_set n" using assms(4) Cons by auto
  show ?thesis
  proof (cases "seg_last s + 1 + 1 = seg_first n")
    case True
    let ?m = "s\<lparr>seg_last := seg_last n\<rparr>"
    have "\<forall>x\<in>avail_list rest'. x < seg_first s \<or> seg_last n < x"
    proof
      fix x
      assume "x \<in> avail_list rest'"
      with d v have "x < seg_first s \<or> seg_last s < x" "x < seg_first n \<or> seg_last n < x" "x \<noteq> v"
        by auto
      with True assms(2) show "x < seg_first s \<or> seg_last n < x" by linarith
    qed
    then have "seg_set ?m \<inter> avail_list rest' = {}" by (simp add: seg_disjoint_iff)
    moreover have "seg_set ?m = insert v (seg_set s \<union> seg_set n)"
      using True n assms(1,2) by (auto simp: seg_set_def)
    moreover have "seg_first s \<le> seg_last n" using True n assms(1) by simp
    ultimately show ?thesis using True n assms(1) Cons by (simp add: adds_def Un_assoc)
  next
    case False
    let ?m = "s\<lparr>seg_last := seg_last s + 1\<rparr>"
    have "seg_set ?m \<inter> avail_list rest' = {}"
      using gap_grow_back [OF d(1)] v assms(2) by (simp add: seg_disjoint_iff)
    moreover have "seg_set ?m \<inter> seg_set n = {}"
      using gap_grow_back [OF d(3)] v assms(2) by (simp add: seg_disjoint_iff)
    moreover have "seg_set ?m = insert v (seg_set s)"
      using assms(1,2) by (auto simp: seg_set_def)
    moreover have "seg_set n \<inter> avail_list rest' = {}" using assms(1) Cons by simp
    ultimately show ?thesis using False n assms(1,2,3) Cons
      by (simp add: adds_def Int_Un_distrib)
  qed
qed

lemma free_loop_adds:
  assumes "segs_ok lo hi ss" and "lo \<le> v" and "v \<le> hi" and "v \<notin> avail_list ss" and "ss \<noteq> []"
  shows "\<exists>ss'. free_loop v ss = Some ss' \<and> adds lo hi v ss ss'"
  using assms
proof (induction ss)
  case Nil
  then show ?case by simp
next
  case (Cons c rest)
  have out: "relativePosisionOf c v \<noteq> withinThisSegment"
    using Cons.prems(4) by (simp add: within_iff)
  show ?case
  proof (cases "relativePosisionOf c v")
    case before
    with Cons.prems show ?thesis by (auto simp: adds_def newSingleSegment_def seg_set_def)
  next
    case adjacentToTheFront
    then have v: "v = seg_first c - 1" by (simp add: relpos)
    have "\<forall>x\<in>avail_list rest. x < v \<or> seg_last c < x"
      using gap_grow_front [of "avail_list rest" "seg_first c" "seg_last c"] Cons.prems v
      by (simp add: seg_disjoint_iff)
    then show ?thesis using Cons.prems v adjacentToTheFront
      by (auto simp: adds_def seg_disjoint_iff) (auto simp: seg_set_def)
  next
    case adjacentToTheBack
    then have v: "v = seg_last c + 1" using Cons.prems by (simp add: relpos)
    show ?thesis
      using extendLast_adds [OF Cons.prems(1) v Cons.prems(3)] Cons.prems(4) adjacentToTheBack
      by simp
  next
    case after
    show ?thesis
    proof (cases "rest = []")
      case True
      with Cons.prems after show ?thesis
        by (auto simp: adds_def newSingleSegment_def seg_set_def)
    next
      case False
      then obtain r where r: "free_loop v rest = Some r" "adds lo hi v rest r"
        using Cons by auto
      with False after Cons.prems show ?thesis by (auto simp: adds_def)
    qed
  next
    case withinThisSegment
    with out show ?thesis by simp
  qed
qed

lemma seg_split_takes:
  assumes "segs_ok lo hi (s # rest)" and "v \<in> seg_set s" and "seg_first s \<noteq> seg_last s"
  shows "takes lo hi v (s # rest) (snd (seg_split s v rest))"
proof -
  have v: "seg_first s \<le> v" "v \<le> seg_last s" using assms(2) by (auto simp: seg_set_def)
  have d: "\<forall>x\<in>avail_list rest. x < seg_first s \<or> seg_last s < x"
    using assms(1) by (simp add: seg_disjoint_iff)
  have "v \<notin> avail_list rest" using d v by force
  then show ?thesis using assms(1,3) v d
    by (auto simp: seg_split_def takes_def seg_disjoint_iff) (auto simp: seg_set_def)
qed

lemma use_loop_takes:
  assumes "segs_ok lo hi ss" and "v \<in> avail_list ss"
  shows "\<exists>ss'. use_loop v ss = Some ss' \<and> takes lo hi v ss ss'"
  using assms
proof (induction ss)
  case Nil
  then show ?case by simp
next
  case (Cons c rest)
  show ?case
  proof (cases "v \<in> seg_set c")
    case True
    have "takes lo hi v (c # rest) rest" if "seg_first c = seg_last c"
      using Cons.prems(1) True that by (auto simp: takes_def seg_set_def)
    with True Cons.prems(1) show ?thesis
      by (auto simp: within_iff intro: seg_split_takes)
  next
    case False
    then obtain r where "use_loop v rest = Some r" "takes lo hi v rest r"
      using Cons by auto
    with False Cons.prems show ?thesis by (auto simp: takes_def within_iff)
  qed
qed

lemma use_loop_None: "v \<notin> avail_list ss \<Longrightarrow> use_loop v ss = None"
  by (induction ss) (auto simp: within_iff)

section \<open>Sorted tails\<close>

lemma extendLast_apart:
  assumes "apart (s # rest)" and "\<forall>n\<in>set rest. seg_first n \<le> seg_last n"
  shows "apart (extendLast s rest) \<and> seg_first (hd (extendLast s rest)) = seg_first s"
proof (cases rest)
  case Nil
  then show ?thesis by simp
next
  case (Cons n rest')
  with assms show ?thesis by (cases rest') auto
qed

lemma segs_ok_nonempty: "segs_ok lo hi ss \<Longrightarrow> \<forall>n\<in>set ss. seg_first n \<le> seg_last n"
  by (induction ss) auto

lemma apart_ConsI:
  "apart ss \<Longrightarrow> (ss \<noteq> [] \<Longrightarrow> seg_last s + 1 < seg_first (hd ss)) \<Longrightarrow> apart (s # ss)"
  by (cases ss) auto

lemma apart_tl: "apart ss \<Longrightarrow> apart (tl ss)"
  by (induction ss rule: apart.induct) auto

lemma free_loop_apart:
  assumes "free_loop v ss = Some ss'" and "apart ss" and "segs_ok lo hi ss" and "ss \<noteq> []"
  shows "apart ss' \<and> ss' \<noteq> [] \<and> min v (seg_first (hd ss)) \<le> seg_first (hd ss')"
  using assms
proof (induction ss arbitrary: ss')
  case Nil
  then show ?case by simp
next
  case (Cons c rest)
  note ne = segs_ok_nonempty [OF Cons.prems(3)]
  show ?case
  proof (cases "relativePosisionOf c v")
    case before
    then have "v < seg_first c - 1" by (simp add: relpos)
    with before Cons.prems show ?thesis by (auto simp: newSingleSegment_def)
  next
    case adjacentToTheFront
    with Cons.prems show ?thesis by (cases rest) auto
  next
    case adjacentToTheBack
    have "extendLast c rest \<noteq> []" by (cases rest) auto
    with adjacentToTheBack Cons.prems extendLast_apart [OF Cons.prems(2)] ne
    show ?thesis by auto
  next
    case after
    then have v: "seg_last c + 1 < v"
      using ne by (simp add: relpos)
    show ?thesis
    proof (cases "rest = []")
      case True
      with after v Cons.prems show ?thesis by (auto simp: newSingleSegment_def)
    next
      case False
      then obtain r where r: "free_loop v rest = Some r" "ss' = c # r"
        using after Cons.prems by auto
      have gap: "seg_last c + 1 < seg_first (hd rest)"
        using Cons.prems(2) False by (cases rest) auto
      have "apart r \<and> r \<noteq> [] \<and> min v (seg_first (hd rest)) \<le> seg_first (hd r)"
        using Cons.IH [OF r(1)] Cons.prems False apart_tl [OF Cons.prems(2)] by auto
      with gap v r show ?thesis by (auto intro!: apart_ConsI)
    qed
  next
    case withinThisSegment
    with Cons.prems show ?thesis by simp
  qed
qed

lemma apart_hd_least:
  "apart ss \<Longrightarrow> segs_ok lo hi ss \<Longrightarrow> x \<in> avail_list ss \<Longrightarrow> seg_first (hd ss) \<le> x"
  by (induction ss rule: apart.induct) (auto simp: seg_set_def)

lemma free_loop_duplicate:
  assumes "apart ss" and "segs_ok lo hi ss" and "v \<in> avail_list ss"
  shows "free_loop v ss = None"
  using assms
proof (induction ss)
  case Nil
  then show ?case by simp
next
  case (Cons c rest)
  show ?case
  proof (cases "v \<in> seg_set c")
    case True
    then have "relativePosisionOf c v = withinThisSegment" by (simp add: within_iff)
    then show ?thesis by simp
  next
    case False
    then have v: "v \<in> avail_list rest" and r: "rest \<noteq> []" using Cons.prems by auto
    have "seg_first (hd rest) \<le> v"
      using apart_hd_least [of rest lo hi v] apart_tl [OF Cons.prems(1)] Cons.prems(2) v by simp
    then have "relativePosisionOf c v = after"
      using Cons.prems(1,2) r by (cases rest) (auto simp: relpos)
    with Cons r v apart_tl [OF Cons.prems(1)] show ?thesis by simp
  qed
qed

section \<open>The loop of Reserve\<close>

lemma reserve_step_beyond:
  "f \<le> l \<Longrightarrow> l < seg_first s \<Longrightarrow> seg_first s \<le> seg_last s \<Longrightarrow> reserve_step f l s = ([s], 0)"
  by (auto simp: reserve_step_def)

lemma reserve_step_takes:
  assumes "f \<le> l" and "lo \<le> seg_first s" "seg_first s \<le> seg_last s" "seg_last s \<le> hi"
  shows "segs_ok lo hi (fst (reserve_step f l s))
    \<and> avail_list (fst (reserve_step f l s)) = seg_set s - {f .. l}
    \<and> snd (reserve_step f l s) = int (card (seg_set s \<inter> {f .. l}))"
proof -
  consider "seg_first s \<ge> f \<and> seg_first s \<le> l \<and> seg_last s > l"
    | "seg_first s < f \<and> seg_last s \<ge> f \<and> seg_last s \<le> l"
    | "seg_first s < f \<and> seg_last s > l"
    | "seg_first s \<ge> f \<and> seg_last s \<le> l"
    | "seg_last s < f \<or> l < seg_first s"
    by linarith
  then show ?thesis
  proof cases
    case 1
    moreover have "seg_set s \<inter> {f .. l} = {seg_first s .. l}" using 1 by (auto simp: seg_set_def)
    moreover have "seg_set s - {f .. l} = {l + 1 .. seg_last s}" using 1 by (auto simp: seg_set_def)
    ultimately show ?thesis using assms by (simp add: reserve_step_def seg_set_def)
  next
    case 2
    moreover have "seg_set s \<inter> {f .. l} = {f .. seg_last s}" using 2 by (auto simp: seg_set_def)
    moreover have "seg_set s - {f .. l} = {seg_first s .. f - 1}" using 2 by (auto simp: seg_set_def)
    ultimately show ?thesis using assms by (simp add: reserve_step_def seg_set_def)
  next
    case 3
    moreover have "seg_set s \<inter> {f .. l} = {f .. l}" using 3 by (auto simp: seg_set_def)
    moreover have "seg_set s - {f .. l} = {seg_first s .. f - 1} \<union> {l + 1 .. seg_last s}" using 3 assms by (auto simp: seg_set_def)
    ultimately show ?thesis using assms by (simp add: reserve_step_def seg_set_def)
  next
    case 4
    moreover have "seg_set s \<inter> {f .. l} = seg_set s" using 4 by (auto simp: seg_set_def)
    moreover have "seg_set s - {f .. l} = {}" using 4 by (auto simp: seg_set_def)
    ultimately show ?thesis using assms by (simp add: reserve_step_def seg_set_def)
  next
    case 5
    have "reserve_step f l s = ([s], 0)" using 5 assms by (auto simp: reserve_step_def)
    moreover have "seg_set s \<inter> {f .. l} = {}" using 5 by (auto simp: seg_set_def)
    moreover have "seg_set s - {f .. l} = seg_set s" using 5 by (auto simp: seg_set_def)
    ultimately show ?thesis using assms by simp
  qed
qed

lemma reserve_loop_takes:
  assumes "f \<le> l" and "segs_ok lo hi ss"
  shows "segs_ok lo hi (fst (reserve_loop f l ss))
    \<and> avail_list (fst (reserve_loop f l ss)) = avail_list ss - {f .. l}
    \<and> snd (reserve_loop f l ss) = int (card (avail_list ss \<inter> {f .. l}))"
  using assms(2)
proof (induction ss)
  case Nil
  then show ?case by simp
next
  case (Cons c rest)
  have step: "segs_ok lo hi (fst (reserve_step f l c))"
      "avail_list (fst (reserve_step f l c)) = seg_set c - {f .. l}"
      "snd (reserve_step f l c) = int (card (seg_set c \<inter> {f .. l}))"
    using reserve_step_takes [OF assms(1), of lo c hi] Cons.prems by auto
  have dis: "seg_set c \<inter> avail_list rest = {}" using Cons.prems by simp
  then have "(seg_set c \<inter> {f .. l}) \<inter> (avail_list rest \<inter> {f .. l}) = {}" by blast
  then have card: "card ((seg_set c \<union> avail_list rest) \<inter> {f .. l})
      = card (seg_set c \<inter> {f .. l}) + card (avail_list rest \<inter> {f .. l})"
    by (simp add: Int_Un_distrib2 card_Un_disjoint)
  have loop: "reserve_loop f l (c # rest) =
      (fst (reserve_step f l c) @ fst (reserve_loop f l rest),
       snd (reserve_step f l c) + snd (reserve_loop f l rest))"
    by (simp add: split_beta)
  have "(seg_set c - {f .. l}) \<inter> (avail_list rest - {f .. l}) = {}" using dis by blast
  with step Cons.IH Cons.prems card show ?case
    unfolding loop by (simp add: segs_ok_append Un_Diff)
qed

section \<open>Every operation keeps the invariant\<close>

abbreviation same_range :: "LazyReusePool \<Rightarrow> LazyReusePool \<Rightarrow> bool" where
  "same_range p q \<equiv> p_first q = p_first p \<and> p_last q = p_last p"

lemma avail_range: "pool_inv p \<Longrightarrow> avail p \<subseteq> {p_first p .. p_last p}"
  by (auto simp: pool_inv_def avail_def dest: segs_ok_range)

lemma avail_empty_iff: "pool_inv p \<Longrightarrow> avail p = {} \<longleftrightarrow> head p = []"
  by (cases "head p") (auto simp: pool_inv_def avail_def seg_set_def)

text \<open>From a list operation to the pool: the count follows the set of free values.\<close>

lemma pool_adds:
  assumes "pool_inv p" and "adds (p_first p) (p_last p) v (head p) h" and "v \<notin> avail p"
  shows "pool_inv (p\<lparr>head := h, p_remain := p_remain p + 1\<rparr>)
    \<and> avail (p\<lparr>head := h, p_remain := p_remain p + 1\<rparr>) = insert v (avail p)"
  using assms by (simp add: pool_inv_def adds_def avail_def)

lemma pool_takes:
  assumes "pool_inv p" and "takes (p_first p) (p_last p) v (head p) h" and "v \<in> avail p"
  shows "pool_inv (p\<lparr>head := h, p_remain := p_remain p - 1\<rparr>)
    \<and> avail (p\<lparr>head := h, p_remain := p_remain p - 1\<rparr>) = avail p - {v}"
proof -
  have "card (avail p) = Suc (card (avail p - {v}))"
    using card_Suc_Diff1 [of "avail p" v] assms(3) by (simp add: avail_def)
  with assms show ?thesis by (simp add: pool_inv_def takes_def avail_def)
qed

lemma NewLazyReusePool_ord: "NewLazyReusePool f l = Some p \<Longrightarrow> pool_ord p \<and> avail p = {f .. l}"
  by (auto simp: NewLazyReusePool_def pool_ord_def pool_inv_def avail_def seg_set_def
      split: if_splits)

lemma Allocate_takes:
  assumes "pool_inv p" and "head p = s # rest"
  shows "fst (Allocate p) = (seg_first s, True)" and "seg_first s \<in> avail p"
    and "avail (snd (Allocate p)) = avail p - {seg_first s}" and "pool_inv (snd (Allocate p))"
    and "same_range p (snd (Allocate p))"
proof -
  let ?h = "if seg_first s + 1 > seg_last s then rest else s\<lparr>seg_first := seg_first s + 1\<rparr> # rest"
  have ok: "segs_ok (p_first p) (p_last p) (s # rest)" using assms by (simp add: pool_inv_def)
  have al: "Allocate p = ((seg_first s, True), p\<lparr>head := ?h, p_remain := p_remain p - 1\<rparr>)"
    using assms by (simp add: Allocate_def Let_def)
  have s: "seg_set s = insert (seg_first s) {seg_first s + 1 .. seg_last s}"
    using ok by (auto simp: seg_set_def)
  have "takes (p_first p) (p_last p) (seg_first s) (s # rest) ?h"
    using ok s by (auto simp: takes_def) (auto simp: seg_set_def)
  moreover show mem: "seg_first s \<in> avail p" using assms s by (simp add: avail_def)
  ultimately show "avail (snd (Allocate p)) = avail p - {seg_first s}"
      and "pool_inv (snd (Allocate p))"
    using pool_takes [of p "seg_first s" ?h] assms al by auto
  show "fst (Allocate p) = (seg_first s, True)" and "same_range p (snd (Allocate p))"
    using al by simp_all
qed

lemma Allocate_ord: "pool_ord p \<Longrightarrow> pool_ord (snd (Allocate p))"
proof (cases "head p")
  case Nil
  then show "pool_ord p \<Longrightarrow> ?thesis" by (simp add: Allocate_def)
next
  case (Cons s rest)
  then have "apart (tl (head p)) \<Longrightarrow> apart (tl (head (snd (Allocate p))))"
    using apart_tl [of rest] by (simp add: Allocate_def Let_def)
  then show "pool_ord p \<Longrightarrow> ?thesis"
    using Allocate_takes(4) [OF _ Cons] by (simp add: pool_ord_def)
qed

lemma Free_adds:
  assumes "pool_inv p" and "p_first p \<le> v" and "v \<le> p_last p" and "v \<notin> avail p"
  shows "\<exists>q. Free v p = (True, q) \<and> avail q = insert v (avail p) \<and> pool_inv q \<and> same_range p q"
proof -
  have "\<exists>h. Free v p = (True, p\<lparr>head := h, p_remain := p_remain p + 1\<rparr>)
      \<and> adds (p_first p) (p_last p) v (head p) h"
  proof (cases "head p")
    case Nil
    with assms show ?thesis
      by (auto simp: Free_def adds_def newSingleSegment_def seg_set_def)
  next
    case (Cons h rest)
    then have ok: "segs_ok (p_first p) (p_last p) (h # rest)" and nv: "v \<notin> avail_list (h # rest)"
      using assms by (simp_all add: pool_inv_def avail_def)
    consider (at_back) "relativePosisionOf h v = adjacentToTheBack"
      | (single) "relativePosisionOf h v \<noteq> adjacentToTheBack" "rest = []"
      | (loop) "relativePosisionOf h v \<noteq> adjacentToTheBack" "rest \<noteq> []" by blast
    then show ?thesis
    proof cases
      case at_back
      then have "v = seg_last h + 1" using ok by (simp add: relpos)
      with at_back Cons ok nv assms extendLast_adds [OF ok, of v] show ?thesis
        by (auto simp: Free_def)
    next
      case single
      with Cons ok nv assms show ?thesis
        by (auto simp: Free_def adds_def newSingleSegment_def within_iff)
          (auto simp: seg_set_def)
    next
      case loop
      with ok nv assms obtain r where "free_loop v rest = Some r"
          "adds (p_first p) (p_last p) v rest r"
        using free_loop_adds [of "p_first p" "p_last p" rest v] by auto
      with loop Cons ok nv assms show ?thesis
        by (auto simp: Free_def adds_def within_iff)
    qed
  qed
  then show ?thesis using pool_adds [OF assms(1) _ assms(4)] by auto
qed

lemma Free_ord:
  assumes "pool_ord p" and "p_first p \<le> v" and "v \<le> p_last p" and "v \<notin> avail p"
  shows "pool_ord (snd (Free v p))"
proof -
  have inv: "pool_inv p" and ord: "apart (tl (head p))" using assms(1) by (simp_all add: pool_ord_def)
  have "pool_inv (snd (Free v p))" using Free_adds [OF inv assms(2-4)] by auto
  moreover have "apart (tl (head (snd (Free v p))))"
  proof (cases "head p")
    case Nil
    with assms show ?thesis by (simp add: Free_def)
  next
    case (Cons h rest)
    then have rest: "apart rest" "segs_ok (p_first p) (p_last p) rest"
      using ord inv by (simp_all add: pool_inv_def)
    have ext: "apart (tl (extendLast h rest))" using rest(1) apart_tl [of rest] by (cases rest) auto
    have loop: "free_loop v rest = Some r \<Longrightarrow> rest \<noteq> [] \<Longrightarrow> apart r" for r
      using free_loop_apart [OF _ rest] by blast
    show ?thesis using Cons assms(2,3) ext loop ord
      by (auto simp: Free_def split: option.splits)
  qed
  ultimately show ?thesis by (simp add: pool_ord_def)
qed

lemma Use_takes:
  assumes "pool_inv p" and "v \<in> avail p"
  shows "\<exists>q. Use v p = (True, q) \<and> avail q = avail p - {v} \<and> pool_inv q \<and> same_range p q"
proof -
  obtain h where "use_loop v (head p) = Some h" "takes (p_first p) (p_last p) v (head p) h"
    using use_loop_takes [of "p_first p" "p_last p" "head p" v] assms
    by (auto simp: pool_inv_def avail_def)
  with pool_takes [OF assms(1), of v h] assms show ?thesis by (simp add: Use_def)
qed

lemma Reserve_takes:
  assumes "pool_inv p" and "Contains p f l"
  shows "\<exists>q. Reserve f l p = (True, q) \<and> avail q = avail p - {f .. l} \<and> pool_inv q
    \<and> same_range p q"
proof -
  obtain h n where h: "reserve_loop f l (head p) = (h, n)" by fastforce
  have fl: "f \<le> l" using assms(2) by (simp add: Contains_def)
  have "segs_ok (p_first p) (p_last p) h \<and> avail_list h = avail p - {f .. l}
      \<and> n = int (card (avail p \<inter> {f .. l}))"
    using reserve_loop_takes [OF fl, of "p_first p" "p_last p" "head p"] assms h
    by (simp add: pool_inv_def avail_def)
  moreover have "card (avail p) = card (avail p - {f .. l}) + card (avail p \<inter> {f .. l})"
    using card_Diff_subset_Int [of "avail p" "{f .. l}"] card_mono [of "avail p" "avail p \<inter> {f .. l}"]
    by (simp add: avail_def)
  ultimately show ?thesis using assms h
    by (simp add: Reserve_def pool_inv_def avail_def)
qed

section \<open>The pool is an identifier allocator\<close>

definition pool_alloc :: "LazyReusePool \<Rightarrow> (int \<times> LazyReusePool) option" where
  "pool_alloc p =
     (if snd (fst (Allocate p)) then Some (fst (fst (Allocate p)), snd (Allocate p)) else None)"

definition pool_release :: "int \<Rightarrow> LazyReusePool \<Rightarrow> LazyReusePool" where
  "pool_release v p = snd (Free v p)"

definition pool_over :: "int \<Rightarrow> int \<Rightarrow> LazyReusePool \<Rightarrow> bool" where
  "pool_over f l p \<longleftrightarrow> pool_inv p \<and> p_first p = f \<and> p_last p = l"

definition pool_used :: "LazyReusePool \<Rightarrow> int set" where
  "pool_used p = {p_first p .. p_last p} - avail p"

lemma pool_allocD:
  assumes "pool_inv p" and "pool_alloc p = Some (v, q)"
  shows "v \<in> avail p \<and> avail q = avail p - {v} \<and> pool_inv q \<and> same_range p q"
proof (cases "head p")
  case Nil
  with assms(2) show ?thesis by (simp add: pool_alloc_def Allocate_def)
next
  case (Cons s rest)
  from Allocate_takes [OF assms(1) Cons] assms(2) show ?thesis
    by (auto simp: pool_alloc_def)
qed

lemma pool_releaseD:
  assumes "pool_inv p" and "v \<in> pool_used p"
  shows "avail (pool_release v p) = insert v (avail p) \<and> pool_inv (pool_release v p)
    \<and> same_range p (pool_release v p)"
proof -
  have "p_first p \<le> v" "v \<le> p_last p" "v \<notin> avail p" using assms(2) by (auto simp: pool_used_def)
  then obtain q where "Free v p = (True, q)" "avail q = insert v (avail p)" "pool_inv q"
      "same_range p q"
    using Free_adds [OF assms(1)] by blast
  then show ?thesis by (simp add: pool_release_def)
qed

interpretation pool_ids: id_allocator "pool_over f l" pool_used pool_alloc pool_release for f l
proof
  fix p v q
  assume inv: "pool_over f l p" and al: "pool_alloc p = Some (v, q)"
  then have p: "pool_inv p" by (simp add: pool_over_def)
  note D = pool_allocD [OF p al]
  show "v \<notin> pool_used p" using D by (simp add: pool_used_def)
  show "pool_used q = insert v (pool_used p)"
    using D avail_range [OF p] by (auto simp: pool_used_def)
  show "pool_over f l q" using D inv by (simp add: pool_over_def)
next
  fix p v
  assume inv: "pool_over f l p" and "v \<in> pool_used p"
  then have D: "avail (pool_release v p) = insert v (avail p)" "pool_inv (pool_release v p)"
      "same_range p (pool_release v p)"
    using pool_releaseD by (simp_all add: pool_over_def)
  show "pool_used (pool_release v p) = pool_used p - {v}" using D by (auto simp: pool_used_def)
  show "pool_over f l (pool_release v p)" using D inv by (simp add: pool_over_def)
qed

section \<open>Properties\<close>

text \<open>
  C31: A client that allocates from a fresh pool and gives back only what it holds never holds
  a value twice, and no value is lost or invented: at any time the values of the range that
  are not free are exactly those the client holds.
\<close>

theorem pool_conserves_ids:
  assumes "NewLazyReusePool f l = Some p"
    and "client_run pool_alloc pool_release p [] es = Some (held, q)"
  shows "distinct held \<and> set held = {f .. l} - avail q \<and> avail q \<subseteq> {f .. l}"
proof -
  have p: "pool_over f l p" "pool_used p = {}"
    using NewLazyReusePool_ord [OF assms(1)] assms(1)
    by (auto simp: pool_ord_def pool_over_def pool_used_def NewLazyReusePool_def split: if_splits)
  then have "distinct held \<and> pool_used q = set held \<and> pool_over f l q"
    using pool_ids.client_run_conserves [OF assms(2) p(1)] by auto
  then show ?thesis using avail_range [of q] by (auto simp: pool_over_def pool_used_def)
qed

theorem pool_conserves_ids_witness:
  "\<exists>held q. client_run pool_alloc pool_release
      \<lparr>head = [Seg 1 3], p_first = 1, p_last = 3, p_remain = 3\<rparr> []
      [Alloc, Alloc, Release 1, Alloc] = Some (held, q)
    \<and> held = [3, 2] \<and> distinct held \<and> set held = {1 .. 3} - avail q"
proof -
  let ?p = "\<lparr>head = [Seg 1 3], p_first = 1, p_last = 3, p_remain = 3\<rparr>"
  have new: "NewLazyReusePool 1 3 = Some ?p" by (simp add: NewLazyReusePool_def)
  have run: "client_run pool_alloc pool_release ?p [] [Alloc, Alloc, Release 1, Alloc]
      = Some ([3, 2], \<lparr>head = [Seg 1 1], p_first = 1, p_last = 3, p_remain = 1\<rparr>)"
    by (simp add: pool_alloc_def pool_release_def Allocate_def Free_def relativePosisionOf_def
        newSingleSegment_def)
  show ?thesis using pool_conserves_ids [OF new run] run by auto
qed

text \<open>
  \<open>Allocate\<close> on a pool with free values returns one of them, and exactly that value stops
  being free; on an exhausted pool it reports failure and changes nothing.
\<close>

theorem Allocate_correct:
  assumes "pool_inv p"
  shows "if avail p = {} then Allocate p = ((0, False), p)
    else \<exists>v q. Allocate p = ((v, True), q) \<and> v \<in> avail p \<and> avail q = avail p - {v}
      \<and> Remain q = Remain p - 1 \<and> pool_inv q"
proof (cases "head p")
  case Nil
  then show ?thesis by (simp add: avail_def Allocate_def)
next
  case (Cons s rest)
  note T = Allocate_takes [OF assms Cons]
  have "Allocate p = ((seg_first s, True), snd (Allocate p))" using T(1) by (metis prod.collapse)
  moreover have "Remain (snd (Allocate p)) = Remain p - 1"
    using Cons by (simp add: Remain_def Allocate_def Let_def)
  ultimately have "\<exists>v q. Allocate p = ((v, True), q) \<and> v \<in> avail p \<and> avail q = avail p - {v}
      \<and> Remain q = Remain p - 1 \<and> pool_inv q"
    using T(2-4) by blast
  moreover have "avail p \<noteq> {}" using T(2) by blast
  ultimately show ?thesis by simp
qed

theorem Allocate_correct_witness:
  "\<exists>v q. Allocate \<lparr>head = [Seg 5 5, Seg 1 2], p_first = 1, p_last = 9, p_remain = 3\<rparr> = ((v, True), q)
    \<and> v = 5 \<and> avail q = {1, 2} \<and> pool_inv q"
proof -
  let ?p = "\<lparr>head = [Seg 5 5, Seg 1 2], p_first = 1, p_last = 9, p_remain = 3\<rparr>"
  have a: "avail ?p = {1, 2, 5}" by (auto simp: avail_def seg_set_def)
  have inv: "pool_inv ?p" using a by (simp add: pool_inv_def seg_set_def)
  have r: "fst (Allocate ?p) = (5, True)" by (simp add: Allocate_def)
  from Allocate_correct [OF inv] a obtain v q
    where "Allocate ?p = ((v, True), q)" "avail q = {1, 2, 5} - {v}" "pool_inv q" by auto
  moreover from this r have "v = 5" by simp
  moreover have "{1, 2, 5} - {5} = {1, 2 :: int}" by auto
  ultimately show ?thesis by auto
qed

text \<open>
  \<open>Free\<close> of a value of the range that is not free succeeds, makes exactly that value
  free, and the next \<open>Allocate\<close> does not reuse it unless the pool was exhausted (the lazy reuse
  the pool is named for).
\<close>

theorem Free_correct:
  assumes "pool_inv p" and "p_first p \<le> v" and "v \<le> p_last p" and "v \<notin> avail p"
  shows "\<exists>q. Free v p = (True, q) \<and> avail q = insert v (avail p) \<and> pool_inv q
    \<and> (avail p \<noteq> {} \<longrightarrow> fst (Allocate q) = fst (Allocate p) \<and> fst (fst (Allocate q)) \<noteq> v)"
proof -
  obtain q where q: "Free v p = (True, q)" "avail q = insert v (avail p)" "pool_inv q"
    using Free_adds [OF assms] by blast
  have "fst (Allocate q) = fst (Allocate p) \<and> fst (fst (Allocate q)) \<noteq> v" if ne: "avail p \<noteq> {}"
  proof -
    obtain s rest where h: "head p = s # rest"
      using ne by (cases "head p") (auto simp: avail_def)
    have ext: "\<exists>t ts. extendLast s rest = t # ts \<and> seg_first t = seg_first s"
      by (cases rest) auto
    have "\<exists>t ts. head q = t # ts \<and> seg_first t = seg_first s"
      using q(1) h assms ext by (auto simp: Free_def split: if_splits option.splits)
    then have "fst (Allocate q) = fst (Allocate p)"
      using h by (auto simp: Allocate_def Let_def)
    moreover have "seg_first s \<noteq> v" using Allocate_takes(2) [OF assms(1) h] assms(4) by blast
    ultimately show ?thesis using h by (simp add: Allocate_def Let_def)
  qed
  with q show ?thesis by blast
qed

theorem Free_correct_witness:
  "\<exists>q. Free 1 \<lparr>head = [Seg 3 4], p_first = 1, p_last = 4, p_remain = 2\<rparr> = (True, q)
    \<and> avail q = {1, 3, 4} \<and> fst (fst (Allocate q)) = 3"
proof -
  let ?p = "\<lparr>head = [Seg 3 4], p_first = 1, p_last = 4, p_remain = 2\<rparr>"
  have a: "avail ?p = {3, 4}" by (auto simp: avail_def seg_set_def)
  have inv: "pool_inv ?p" using a by (simp add: pool_inv_def)
  have al: "fst (fst (Allocate ?p)) = 3" by (simp add: Allocate_def)
  have "\<exists>q. Free 1 ?p = (True, q) \<and> avail q = insert 1 (avail ?p) \<and> pool_inv q
    \<and> (avail ?p \<noteq> {} \<longrightarrow> fst (Allocate q) = fst (Allocate ?p) \<and> fst (fst (Allocate q)) \<noteq> 1)"
    by (rule Free_correct [OF inv]) (simp_all add: a)
  with al a show ?thesis by auto
qed

text \<open>
  \<open>Use\<close> takes exactly the value it is asked for out of the pool when that value is free,
  and otherwise fails and changes nothing.
\<close>

theorem Use_correct:
  assumes "pool_inv p"
  shows "if v \<in> avail p
    then \<exists>q. Use v p = (True, q) \<and> avail q = avail p - {v} \<and> Remain q = Remain p - 1 \<and> pool_inv q
    else Use v p = (False, p)"
proof (cases "v \<in> avail p")
  case True
  obtain q where q: "Use v p = (True, q)" "avail q = avail p - {v}" "pool_inv q"
    using Use_takes [OF assms True] by blast
  have "p_remain q = p_remain p - 1" using q(1) by (auto simp: Use_def split: option.splits)
  with q True show ?thesis by (simp add: Remain_def)
next
  case False
  then show ?thesis by (simp add: avail_def Use_def use_loop_None)
qed

theorem Use_correct_witness:
  "\<exists>q. Use 7 \<lparr>head = [Seg 5 9], p_first = 1, p_last = 9, p_remain = 5\<rparr> = (True, q)
    \<and> avail q = {5, 6, 8, 9} \<and> pool_inv q"
proof -
  let ?p = "\<lparr>head = [Seg 5 9], p_first = 1, p_last = 9, p_remain = 5\<rparr>"
  have a: "avail ?p = {5, 6, 7, 8, 9}" by (auto simp: avail_def seg_set_def)
  have inv: "pool_inv ?p" using a by (simp add: pool_inv_def)
  have "{5, 6, 7, 8, 9} - {7} = {5, 6, 8, 9 :: int}" by auto
  with Use_correct [OF inv, of 7] a show ?thesis by auto
qed

text \<open>
  \<open>Reserve\<close> of a sub-range of the pool takes every free value of the sub-range out of the
  pool, whatever segments the values are spread over, keeps all others, and counts right; a
  range that is not inside the pool is an error and changes nothing.
\<close>

theorem Reserve_correct:
  assumes "pool_inv p"
  shows "if Contains p f l
    then \<exists>q. Reserve f l p = (True, q) \<and> avail q = avail p - {f .. l}
      \<and> Remain q = int (card (avail p - {f .. l})) \<and> pool_inv q
    else Reserve f l p = (False, p)"
proof (cases "Contains p f l")
  case True
  obtain q where q: "Reserve f l p = (True, q)" "avail q = avail p - {f .. l}" "pool_inv q"
    using Reserve_takes [OF assms True] by blast
  then have "Remain q = int (card (avail p - {f .. l}))"
    by (simp add: pool_inv_def Remain_def)
  with q True show ?thesis by simp
next
  case False
  then show ?thesis by (simp add: Reserve_def)
qed

theorem Reserve_correct_witness:
  "\<exists>q. Reserve 2 6 \<lparr>head = [Seg 5 9, Seg 1 3], p_first = 1, p_last = 9, p_remain = 8\<rparr> = (True, q)
    \<and> avail q = {1, 7, 8, 9} \<and> Remain q = 4"
proof -
  let ?p = "\<lparr>head = [Seg 5 9, Seg 1 3], p_first = 1, p_last = 9, p_remain = 8\<rparr>"
  have a: "avail ?p = {1, 2, 3, 5, 6, 7, 8, 9}" by (auto simp: avail_def seg_set_def)
  have inv: "pool_inv ?p" using a by (simp add: pool_inv_def seg_set_def)
  have c: "Contains ?p 2 6" by (simp add: Contains_def)
  have d: "{1, 2, 3, 5, 6, 7, 8, 9} - {2 .. 6} = {1, 7, 8, 9 :: int}" by auto
  from Reserve_correct [OF inv, of 2 6] a c d show ?thesis by auto
qed

text \<open>
  Duplicate frees are detected: as long as the segments after the head are sorted and
  apart, which holds of a fresh pool and is kept by \<open>Allocate\<close> and by \<open>Free\<close> of values in use,
  \<open>Free\<close> of a value that is already free fails and changes nothing, unless the value is the
  one right after the head segment.
\<close>

theorem Free_duplicate_rejected:
  assumes "pool_ord p" and "v \<in> avail p" and "v \<noteq> seg_last (hd (head p)) + 1"
  shows "Free v p = (False, p)
    \<and> pool_ord (snd (Allocate p))
    \<and> (\<forall>w. p_first p \<le> w \<and> w \<le> p_last p \<and> w \<notin> avail p \<longrightarrow> pool_ord (snd (Free w p)))"
proof -
  have inv: "pool_inv p" and ord: "apart (tl (head p))" using assms(1) by (simp_all add: pool_ord_def)
  have r: "p_first p \<le> v" "v \<le> p_last p" using avail_range [OF inv] assms(2) by auto
  obtain h rest where h: "head p = h # rest" using assms(2) by (cases "head p") (auto simp: avail_def)
  have "Free v p = (False, p)"
  proof (cases "v \<in> seg_set h")
    case True
    then have "relativePosisionOf h v = withinThisSegment" by (simp add: within_iff)
    with r h show ?thesis by (simp add: Free_def)
  next
    case False
    then have v: "v \<in> avail_list rest" using assms(2) h by (simp add: avail_def)
    have ok: "segs_ok (p_first p) (p_last p) rest" "seg_first h \<le> seg_last h"
      using inv h by (simp_all add: pool_inv_def)
    have "free_loop v rest = None" using free_loop_duplicate [OF _ ok(1) v] ord h by simp
    moreover have "rest \<noteq> []" using v by auto
    moreover have "relativePosisionOf h v \<noteq> adjacentToTheBack"
      using assms(3) h ok(2) by (simp add: relpos)
    ultimately show ?thesis using r h by (simp add: Free_def)
  qed
  with Allocate_ord [OF assms(1)] Free_ord [OF assms(1)] show ?thesis by blast
qed

theorem Free_duplicate_rejected_witness:
  "Free 3 \<lparr>head = [Seg 5 5, Seg 2 3], p_first = 1, p_last = 9, p_remain = 3\<rparr>
    = (False, \<lparr>head = [Seg 5 5, Seg 2 3], p_first = 1, p_last = 9, p_remain = 3\<rparr>)"
proof -
  let ?p = "\<lparr>head = [Seg 5 5, Seg 2 3], p_first = 1, p_last = 9, p_remain = 3\<rparr>"
  have a: "avail ?p = {2, 3, 5}" by (auto simp: avail_def seg_set_def)
  have ord: "pool_ord ?p" using a by (simp add: pool_ord_def pool_inv_def seg_set_def)
  show ?thesis using Free_duplicate_rejected [OF ord, of 3] a by simp
qed

fun pool_run :: "int alloc_event list \<Rightarrow> LazyReusePool \<Rightarrow> LazyReusePool" where
  "pool_run [] p = p"
| "pool_run (Alloc # es) p = pool_run es (snd (Allocate p))"
| "pool_run (Release v # es) p = pool_run es (snd (Free v p))"


end
