(* ===== verification/Smf_Ue_Ip_Pool.thy ===== *)
theory Smf_Ue_Ip_Pool
  imports Lazy_Reuse_Pool Go_Text
begin

text \<open>
  The pools of user addresses, \<open>NFs/smf/internal/context/ue_ip_pool.go\<close>: an IPv4 network whose addresses are the values of
  a lazy reuse pool. The lemmas relate the three views of an address: its four bytes, its value in the pool, and its membership
  in the network.
\<close>

section \<open>Networks\<close>

text \<open>\<open>binary.BigEndian.Uint32\<close> reads the first four bytes and panics on a shorter slice.\<close>

fun be_Uint32 :: "bytes \<Rightarrow> u32 option" where
  "be_Uint32 (a # b # c # d # _) = Some (of_be32 a b c d)"
| "be_Uint32 _ = None"

text \<open>\<open>net.IPNet.Contains\<close>, with the helper \<open>networkNumberAndMask\<close>.\<close>

definition networkNumberAndMask :: "IPNet \<Rightarrow> (bytes \<times> bytes) option" where
  "networkNumberAndMask n =
     (let ip = (case To4 (net_IP n) of Some v4 \<Rightarrow> v4 | None \<Rightarrow> net_IP n); m = net_Mask n
      in if length ip \<noteq> 4 \<and> length ip \<noteq> 16 then None
         else if length m = 4 then (if length ip = 4 then Some (ip, m) else None)
         else if length m = 16 then Some (ip, if length ip = 4 then drop 12 m else m)
         else None)"

definition IPNet_Contains :: "IPNet \<Rightarrow> bytes \<Rightarrow> bool" where
  "IPNet_Contains n ip =
     (let (nn, m) = (case networkNumberAndMask n of None \<Rightarrow> ([], []) | Some x \<Rightarrow> x);
          ip' = (case To4 ip of Some x \<Rightarrow> x | None \<Rightarrow> ip)
      in length ip' = length nn \<and> list_all (\<lambda>i. nn ! i AND m ! i = ip' ! i AND m ! i) [0..<length nn])"

section \<open>The pool\<close>

record UeIPPool =
  ueSubNet :: IPNet
  ue_pool :: LazyReusePool

definition calcAddrRange :: "IPNet \<Rightarrow> ((u32 \<times> u32) \<times> bool) option" where
  "calcAddrRange ipNet =
     (case (be_Uint32 (net_Mask ipNet), be_Uint32 (net_IP ipNet)) of
        (Some maskVal, Some baseIPVal) \<Rightarrow>
          let minAddr = baseIPVal AND maskVal; maxAddr = baseIPVal OR NOT maskVal
          in Some ((minAddr, maxAddr), minAddr \<le> maxAddr)
      | _ \<Rightarrow> None)"

text \<open>The outer option is a panic, the inner one the nil result after an error.\<close>

definition NewUEIPPool :: "string \<Rightarrow> UeIPPool option option" where
  "NewUEIPPool cidr =
     (case ParseCIDR cidr of
        None \<Rightarrow> Some None
      | Some ipNet \<Rightarrow>
          map_option (\<lambda>((minAddr, maxAddr), ok).
            if \<not> ok then None
            else map_option (\<lambda>newPool. \<lparr>ueSubNet = ipNet, ue_pool = newPool\<rparr>)
                   (NewLazyReusePool (uint minAddr) (uint maxAddr))) (calcAddrRange ipNet))"

definition uint32ToIP :: "u32 \<Rightarrow> bytes" where
  "uint32ToIP intval = be32 intval"

text \<open>The address handed out, or nil; \<open>request\<close> is nil for any address. \<open>uint32\<close> of a Go \<open>int\<close> is \<open>of_int\<close>.\<close>

definition UeIPPool_Allocate :: "bytes option \<Rightarrow> UeIPPool \<Rightarrow> (bytes option \<times> UeIPPool) option" where
  "UeIPPool_Allocate request p =
     (case request of
        Some r \<Rightarrow>
          map_option (\<lambda>allocVal.
            case Use (uint allocVal) (ue_pool p) of
              (False, q) \<Rightarrow> (None, p\<lparr>ue_pool := q\<rparr>)
            | (True, q) \<Rightarrow> (Some (uint32ToIP allocVal), p\<lparr>ue_pool := q\<rparr>)) (be_Uint32 r)
      | None \<Rightarrow>
          Some (case Allocate (ue_pool p) of
                  ((_, False), q) \<Rightarrow> (None, p\<lparr>ue_pool := q\<rparr>)
                | ((allocVal, True), q) \<Rightarrow> (Some (uint32ToIP (of_int allocVal)), p\<lparr>ue_pool := q\<rparr>)))"

text \<open>\<open>Exclude\<close> reports an error when the pool to exclude does not lie inside.\<close>

definition Exclude :: "UeIPPool \<Rightarrow> UeIPPool \<Rightarrow> bool \<times> UeIPPool" where
  "Exclude excludePool p =
     (let (ok, q) = Reserve (Min_of (ue_pool excludePool)) (Max_of (ue_pool excludePool)) (ue_pool p)
      in (ok, p\<lparr>ue_pool := q\<rparr>))"

definition UeIPPool_Release :: "bytes \<Rightarrow> UeIPPool \<Rightarrow> UeIPPool option" where
  "UeIPPool_Release addr p =
     map_option (\<lambda>addrVal. p\<lparr>ue_pool := snd (Free (uint addrVal) (ue_pool p))\<rparr>) (be_Uint32 addr)"

fun isOverlap :: "UeIPPool list \<Rightarrow> bool" where
  "isOverlap [] = False"
| "isOverlap (p # ps) = (list_ex (\<lambda>q. IsJoint (ue_pool p) (ue_pool q)) ps \<or> isOverlap ps)"

section \<open>Addresses and their values\<close>

lemma of_be32_and:
  "of_be32 (a AND e) (b AND f) (c AND g) (d AND h) = of_be32 a b c d AND of_be32 e f g h"
proof (rule bit_word_eqI)
  fix n assume n: "n < LENGTH(32)"
  consider "n < 8" | "8 \<le> n" "n < 16" | "16 \<le> n" "n < 24" | "24 \<le> n" "n < 32"
    using n by fastforce
  then show "bit (of_be32 (a AND e) (b AND f) (c AND g) (d AND h)) n = bit (of_be32 a b c d AND of_be32 e f g h) n"
    by cases (auto simp: of_be32_def bit_or_iff bit_and_iff bit_push_bit_iff bit_ucast_iff dest: bit_imp_le_length)
qed

lemma be32_of_be32: "be32 (of_be32 a b c d) = [a, b, c, d]"
proof -
  have "ucast (drop_bit 24 (of_be32 a b c d)) = a" "ucast (drop_bit 16 (of_be32 a b c d)) = b"
    "ucast (drop_bit 8 (of_be32 a b c d)) = c" "ucast (of_be32 a b c d) = d"
    by (rule bit_word_eqI; auto simp: of_be32_def bit_or_iff bit_push_bit_iff bit_ucast_iff bit_drop_bit_eq
        dest: bit_imp_le_length)+
  then show ?thesis by (simp add: be32_def)
qed

lemma of_be32_eq_iff: "of_be32 a b c d = of_be32 e f g h \<longleftrightarrow> a = e \<and> b = f \<and> c = g \<and> d = h"
proof
  assume "of_be32 a b c d = of_be32 e f g h"
  then have "be32 (of_be32 a b c d) = be32 (of_be32 e f g h)" by (rule arg_cong)
  then show "a = e \<and> b = f \<and> c = g \<and> d = h" unfolding be32_of_be32 by simp
qed simp

definition mask_byte :: "nat \<Rightarrow> nat \<Rightarrow> u8" where
  "mask_byte n i = (if 8 * i + 8 \<le> n then 0xff else if n \<le> 8 * i then 0 else NOT (drop_bit (n - 8 * i) 0xff))"

lemma bit_mask_byte: "bit (mask_byte n i) j \<longleftrightarrow> j < 8 \<and> 8 * i + (7 - j) < n"
proof -
  have m: "(0xff :: u8) = mask 8" by (simp add: mask_eq_exp_minus_1)
  show ?thesis unfolding mask_byte_def m
    by (auto simp: bit_mask_iff bit_not_iff bit_drop_bit_eq dest: bit_imp_le_length)
qed

lemma CIDRMask_32: "CIDRMask n 32 = map (mask_byte n) [0, 1, 2, 3]"
  by (simp add: CIDRMask_def mask_byte_def upt_rec)

lemma mask_value:
  assumes "n \<le> 32"
  shows "be_Uint32 (CIDRMask n 32) = Some (NOT (mask (32 - n)))"
proof -
  have "of_be32 (mask_byte n 0) (mask_byte n 1) (mask_byte n 2) (mask_byte n 3) = NOT (mask (32 - n))"
  proof (rule bit_word_eqI)
    fix k assume k: "k < LENGTH(32)"
    consider "k < 8" | "8 \<le> k" "k < 16" | "16 \<le> k" "k < 24" | "24 \<le> k" "k < 32"
      using k by fastforce
    then show "bit (of_be32 (mask_byte n 0) (mask_byte n 1) (mask_byte n 2) (mask_byte n 3)) k = bit (NOT (mask (32 - n)) :: u32) k"
      by cases (use assms in \<open>auto simp: of_be32_def bit_or_iff bit_push_bit_iff bit_ucast_iff bit_mask_byte bit_not_iff bit_mask_iff\<close>)
  qed
  then show ?thesis by (simp add: CIDRMask_32)
qed

lemma and_not_mask: "v AND NOT (mask k) = v - take_bit k (v :: u32)"
proof -
  have "v AND NOT (take_bit k v) = v AND NOT (mask k)"
    by (rule bit_eqI) (simp add: bit_and_iff bit_not_iff bit_take_bit_iff bit_mask_iff, blast)
  moreover have "v - take_bit k v = v AND NOT (take_bit k v)"
    by (rule disjunctive_diff) (simp add: bit_take_bit_iff)
  ultimately show ?thesis by simp
qed

lemma uint_take_low: "uint (take_bit k (v :: u32)) = uint v mod 2 ^ k"
  unfolding unsigned_take_bit_eq by (rule take_bit_eq_mod)

lemma uint_clear_low: "uint (v AND NOT (mask k)) = uint (v :: u32) div 2 ^ k * 2 ^ k"
proof -
  have "uint v mod 2 ^ k \<le> uint v" by (simp add: zmod_le_nonneg_dividend)
  then have "uint (v - take_bit k v) = uint v - uint v mod 2 ^ k"
    using uint_sub_lem [of "take_bit k v" v] by (simp add: uint_take_low)
  then show ?thesis by (simp add: and_not_mask minus_mod_eq_div_mult)
qed

text \<open>The network of an address with \<open>k\<close> host bits is an interval.\<close>

lemma interval_div:
  fixes q :: int
  assumes "0 < q"
  shows "v div q = c \<longleftrightarrow> c * q \<le> v \<and> v \<le> c * q + q - 1"
proof
  assume "v div q = c"
  then show "c * q \<le> v \<and> v \<le> c * q + q - 1"
    using div_mult_mod_eq [of v q] pos_mod_bound [OF assms, of v] pos_mod_sign [OF assms, of v] by (simp only:) linarith
next
  assume a: "c * q \<le> v \<and> v \<le> c * q + q - 1"
  show "v div q = c"
    by (rule int_div_pos_eq [where r = "v - c * q"]) (use a in \<open>simp_all add: algebra_simps\<close>)
qed

lemma network_interval:
  assumes "k \<le> 32"
  shows "v AND NOT (mask k) = a AND NOT (mask k) \<longleftrightarrow>
    uint (a AND NOT (mask k)) \<le> uint v \<and> uint v \<le> uint (a AND NOT (mask k) OR mask k :: u32)"
proof -
  let ?b = "a AND NOT (mask k)" and ?q = "2 ^ k :: int" and ?n = "2 ^ (32 - k) :: int"
  have q: "0 < ?q" "?n * ?q = 2 ^ 32" using assms by (simp_all flip: power_add)
  have b: "uint ?b = uint a div ?q * ?q" by (rule uint_clear_low)
  have "?b OR mask k = ?b + mask k"
    by (rule disjunctive_add [symmetric]) (simp add: bit_and_iff bit_not_iff)
  moreover have "uint (mask k :: u32) = ?q - 1"
    unfolding uint_mask_eq using assms by (simp add: mask_eq_exp_minus_1 min_def)
  moreover have "uint ?b + (?q - 1) < 2 ^ 32"
  proof -
    have "uint a < ?n * ?q" using unsigned_less [of a, where 'a = int] q by simp
    moreover have "uint a div ?q * ?q \<le> uint a"
      using div_mult_mod_eq [of "uint a" ?q] pos_mod_sign [OF q(1), of "uint a"] by linarith
    ultimately have "uint a div ?q * ?q < ?n * ?q" by linarith
    then have "uint a div ?q < ?n" using q(1) by (simp only: mult_less_cancel_right_pos)
    then have "(uint a div ?q + 1) * ?q \<le> ?n * ?q" using q(1) by (intro mult_right_mono) simp_all
    then show ?thesis using q by (simp add: b algebra_simps)
  qed
  ultimately have top: "uint (?b OR mask k) = uint ?b + ?q - 1"
    by (simp add: uint_word_ariths)
  have "v AND NOT (mask k) = ?b \<longleftrightarrow> uint v div ?q * ?q = uint ?b"
    unfolding uint_clear_low [of v, symmetric] by (simp add: word_uint_eq_iff)
  also have "\<dots> \<longleftrightarrow> uint v div ?q = uint a div ?q" using q by (simp add: b)
  finally show ?thesis unfolding top unfolding interval_div [OF q(1)] b .
qed

section \<open>What a pool holds\<close>

text \<open>The value of an address, the addresses of the network, and the free addresses of a pool.\<close>

definition ip_val :: "bytes \<Rightarrow> int" where
  "ip_val ip = uint (of_be32 (ip ! 0) (ip ! 1) (ip ! 2) (ip ! 3))"

definition net_addrs :: "IPNet \<Rightarrow> bytes set" where
  "net_addrs n = {ip. length ip = 4 \<and> IPNet_Contains n ip}"

definition ue_free :: "UeIPPool \<Rightarrow> bytes set" where
  "ue_free p = {ip. length ip = 4 \<and> ip_val ip \<in> avail (ue_pool p)}"

definition ue_ok :: "UeIPPool \<Rightarrow> bool" where
  "ue_ok p \<longleftrightarrow> pool_inv (ue_pool p) \<and> 0 \<le> p_first (ue_pool p) \<and> p_last (ue_pool p) < 2 ^ 32
     \<and> net_addrs (ueSubNet p) = {ip. length ip = 4 \<and> ip_val ip \<in> {p_first (ue_pool p) .. p_last (ue_pool p)}}"

lemma length_4E:
  assumes "length ip = 4"
  obtains a b c d where "ip = [a, b, c, d]"
  using assms by (auto simp: length_Suc_conv numeral_eq_Suc)

lemma be_Uint32_ip: "length ip = 4 \<Longrightarrow> map_option uint (be_Uint32 ip) = Some (ip_val ip)"
  by (erule length_4E) (simp add: ip_val_def)

lemma be_Uint32_val: "length ip = 4 \<Longrightarrow> \<exists>w. be_Uint32 ip = Some w \<and> uint w = ip_val ip \<and> uint32ToIP w = ip"
  by (erule length_4E) (simp add: ip_val_def uint32ToIP_def be32_of_be32)

lemma be32_bytes: "\<exists>a b c d. be32 w = [a, b, c, d] \<and> of_be32 a b c d = w"
  unfolding be32_def using of_be32_be32 [of w] by blast

lemma ip_val_uint32ToIP: "length (uint32ToIP w) = 4" "ip_val (uint32ToIP w) = uint w"
  using be32_bytes [of w] by (auto simp: uint32ToIP_def ip_val_def)

lemma ip_val_inj: "length x = 4 \<Longrightarrow> length y = 4 \<Longrightarrow> ip_val x = ip_val y \<longleftrightarrow> x = y"
  by (elim length_4E) (simp add: ip_val_def of_be32_eq_iff flip: word_uint_eq_iff)

lemma ip_of_val: "0 \<le> v \<Longrightarrow> v < 2 ^ 32 \<Longrightarrow> ip_val (uint32ToIP (of_int v)) = v"
  by (simp add: ip_val_uint32ToIP uint_word_of_int)

subsection \<open>New pools\<close>

lemma v4_contains:
  assumes a: "length a = 4" and k: "k \<le> 32" and x: "length x = 4"
  shows "IPNet_Contains \<lparr>net_IP = map2 (AND) a (CIDRMask k 32), net_Mask = CIDRMask k 32\<rparr> x \<longleftrightarrow>
    of_be32 (x ! 0) (x ! 1) (x ! 2) (x ! 3) AND NOT (mask (32 - k))
      = of_be32 (a ! 0) (a ! 1) (a ! 2) (a ! 3) AND NOT (mask (32 - k))"
proof -
  obtain m0 m1 m2 m3 where m: "CIDRMask k 32 = [m0, m1, m2, m3]" by (rule length_4E [of "CIDRMask k 32"]) auto
  have M: "of_be32 m0 m1 m2 m3 = NOT (mask (32 - k))" using mask_value [OF k] by (simp add: m)
  show ?thesis unfolding M [symmetric]
    by (rule length_4E [OF a], rule length_4E [OF x])
      (simp add: m IPNet_Contains_def networkNumberAndMask_def To4_def upt_rec and.assoc
        of_be32_eq_iff flip: of_be32_and, auto)
qed

lemma ParseCIDR_v4D:
  assumes "ParseCIDR s = Some n" and "length (net_IP n) = 4"
  obtains a k where "length a = 4" "k \<le> 32" "n = \<lparr>net_IP = map2 (AND) a (CIDRMask k 32), net_Mask = CIDRMask k 32\<rparr>"
proof -
  have "\<exists>a k. k \<le> 8 * length a \<and> n = \<lparr>net_IP = map2 (AND) a (CIDRMask k (8 * length a)), net_Mask = CIDRMask k (8 * length a)\<rparr>"
    using assms(1) by (auto simp: ParseCIDR_def Let_def not_less simp del: IPNet.ext_inject split: if_splits option.splits; blast)
  then obtain a k where a: "k \<le> 8 * length a"
    "n = \<lparr>net_IP = map2 (AND) a (CIDRMask k (8 * length a)), net_Mask = CIDRMask k (8 * length a)\<rparr>" by blast
  then have "length a = 4" using assms(2) by simp
  then show thesis using a that by simp
qed

lemma calcAddrRange_v4:
  assumes "length a = 4" and "k \<le> 32"
    and n: "n = \<lparr>net_IP = map2 (AND) a (CIDRMask k 32), net_Mask = CIDRMask k 32\<rparr>"
  defines "b \<equiv> of_be32 (a ! 0) (a ! 1) (a ! 2) (a ! 3) AND NOT (mask (32 - k))"
  shows "calcAddrRange n = Some ((b, b OR mask (32 - k)), True)"
proof -
  obtain m0 m1 m2 m3 where m: "CIDRMask k 32 = [m0, m1, m2, m3]" by (rule length_4E [of "CIDRMask k 32"]) auto
  have M: "of_be32 m0 m1 m2 m3 = NOT (mask (32 - k))" using mask_value [OF assms(2)] by (simp add: m)
  have "be_Uint32 (net_IP n) = Some b" unfolding b_def M [symmetric]
    by (rule length_4E [OF assms(1)]) (simp add: n m of_be32_and)
  moreover have "b AND NOT (mask (32 - k)) = b" by (simp add: b_def and.assoc)
  moreover have "b \<le> b OR mask (32 - k)" by (rule le_word_or2)
  ultimately show ?thesis by (simp add: calcAddrRange_def n mask_value [OF assms(2)] Let_def)
qed

lemma NewUEIPPool_ok:
  assumes "ParseCIDR cidr = Some n" and "length (net_IP n) = 4"
  obtains p where "NewUEIPPool cidr = Some (Some p)" "ueSubNet p = n" "ue_ok p" "ue_free p = net_addrs n"
proof -
  obtain a k where a: "length a = 4" "k \<le> 32" "n = \<lparr>net_IP = map2 (AND) a (CIDRMask k 32), net_Mask = CIDRMask k 32\<rparr>"
    by (rule ParseCIDR_v4D [OF assms])
  let ?b = "of_be32 (a ! 0) (a ! 1) (a ! 2) (a ! 3) AND NOT (mask (32 - k))"
  let ?lo = "uint ?b" and ?hi = "uint (?b OR mask (32 - k))"
  have le: "?lo \<le> ?hi" using le_word_or2 [of ?b "mask (32 - k)"] by (simp only: word_le_def)
  have hi: "?hi < 2 ^ 32" using unsigned_less [of "?b OR mask (32 - k)", where 'a = int] by simp
  have net: "net_addrs n = {ip. length ip = 4 \<and> ip_val ip \<in> {?lo .. ?hi}}"
    using v4_contains [OF a(1,2)] network_interval [of "32 - k"] by (auto simp: net_addrs_def a(3) ip_val_def)
  let ?p = "\<lparr>head = [Seg ?lo ?hi], p_first = ?lo, p_last = ?hi, p_remain = ?hi - ?lo + 1\<rparr>"
  have np: "NewLazyReusePool ?lo ?hi = Some ?p" using le by (simp add: NewLazyReusePool_def)
  have p: "pool_inv ?p" "avail ?p = {?lo .. ?hi}" using NewLazyReusePool_ord [OF np] by (simp_all add: pool_ord_def)
  show thesis
  proof (rule that [of "\<lparr>ueSubNet = n, ue_pool = ?p\<rparr>"])
    show "NewUEIPPool cidr = Some (Some \<lparr>ueSubNet = n, ue_pool = ?p\<rparr>)"
      using np by (simp add: NewUEIPPool_def assms(1) calcAddrRange_v4 [OF a])
    show "ue_ok \<lparr>ueSubNet = n, ue_pool = ?p\<rparr>" using p hi net by (simp add: ue_ok_def)
    show "ue_free \<lparr>ueSubNet = n, ue_pool = ?p\<rparr> = net_addrs n" using p by (simp add: ue_free_def net)
  qed simp
qed

subsection \<open>Operations\<close>

text \<open>\<open>pool_keeps p q\<close>: \<open>q\<close> is a later state of \<open>p\<close>, over the same network.\<close>

definition pool_keeps :: "UeIPPool \<Rightarrow> UeIPPool \<Rightarrow> bool" where
  "pool_keeps p q \<longleftrightarrow> ueSubNet q = ueSubNet p \<and> p_first (ue_pool q) = p_first (ue_pool p)
     \<and> p_last (ue_pool q) = p_last (ue_pool p) \<and> ue_ok q"

lemma pool_keeps_refl [simp]: "pool_keeps p p \<longleftrightarrow> ue_ok p"
  by (simp add: pool_keeps_def)

lemma ue_free_net: "ue_ok p \<Longrightarrow> ue_free p \<subseteq> net_addrs (ueSubNet p)"
  using avail_range [of "ue_pool p"] by (auto simp: ue_ok_def ue_free_def)

lemma pool_keepsI:
  "ue_ok p \<Longrightarrow> pool_inv q \<Longrightarrow> same_range (ue_pool p) q \<Longrightarrow> pool_keeps p (p\<lparr>ue_pool := q\<rparr>)"
  by (simp add: pool_keeps_def ue_ok_def)

lemma ue_free_minus:
  assumes "length ip = 4" and "avail q = avail (ue_pool p) - {ip_val ip}"
  shows "ue_free (p\<lparr>ue_pool := q\<rparr>) = ue_free p - {ip}"
  using assms ip_val_inj by (auto simp: ue_free_def)

text \<open>What each operation does to the free addresses: any free address, the requested one, and giving one back.\<close>

lemma Allocate_any:
  assumes "ue_ok p"
  shows "\<exists>r q. UeIPPool_Allocate None p = Some (r, q) \<and> pool_keeps p q
    \<and> (case r of None \<Rightarrow> ue_free p = {} \<and> q = p | Some ip \<Rightarrow> ip \<in> ue_free p \<and> ue_free q = ue_free p - {ip})"
proof (cases "head (ue_pool p)")
  case Nil
  then have "Allocate (ue_pool p) = ((0, False), ue_pool p)" "avail (ue_pool p) = {}"
    by (simp_all add: Allocate_def avail_def)
  then show ?thesis using assms by (simp add: UeIPPool_Allocate_def ue_free_def)
next
  case (Cons sg rest)
  have inv: "pool_inv (ue_pool p)" using assms by (simp add: ue_ok_def)
  note T = Allocate_takes [OF inv Cons]
  let ?v = "seg_first sg"
  obtain q where al: "Allocate (ue_pool p) = ((?v, True), q)" using T(1) by (cases "Allocate (ue_pool p)") simp
  let ?ip = "uint32ToIP (of_int ?v)"
  have r: "0 \<le> ?v" "?v < 2 ^ 32" using avail_range [OF inv] T(2) assms by (auto simp: ue_ok_def)
  have v: "length ?ip = 4" "ip_val ?ip = ?v" using ip_of_val [OF r] by (simp_all add: ip_val_uint32ToIP(1))
  have "UeIPPool_Allocate None p = Some (Some ?ip, p\<lparr>ue_pool := q\<rparr>)"
    by (simp add: UeIPPool_Allocate_def al)
  moreover have "?ip \<in> ue_free p" using v T(2) by (simp add: ue_free_def)
  moreover have "ue_free (p\<lparr>ue_pool := q\<rparr>) = ue_free p - {?ip}"
    by (rule ue_free_minus) (use v T(3) al in simp_all)
  moreover have "pool_keeps p (p\<lparr>ue_pool := q\<rparr>)" using pool_keepsI [OF assms T(4,5)] by (simp add: al)
  ultimately show ?thesis by auto
qed

lemma Allocate_this:
  assumes "ue_ok p" and "length ip = 4"
  shows "\<exists>q. UeIPPool_Allocate (Some ip) p = Some (if ip \<in> ue_free p then Some ip else None, q) \<and> pool_keeps p q
    \<and> ue_free q = ue_free p - {ip} \<and> (ip \<notin> ue_free p \<longrightarrow> q = p)"
proof -
  have inv: "pool_inv (ue_pool p)" using assms(1) by (simp add: ue_ok_def)
  obtain w where w: "be_Uint32 ip = Some w" "uint w = ip_val ip" "uint32ToIP w = ip"
    using be_Uint32_val [OF assms(2)] by blast
  show ?thesis
  proof (cases "ip_val ip \<in> avail (ue_pool p)")
    case True
    then obtain q where q: "Use (ip_val ip) (ue_pool p) = (True, q)" "avail q = avail (ue_pool p) - {ip_val ip}"
        "pool_inv q" "same_range (ue_pool p) q"
      using Use_takes [OF inv] by blast
    have "UeIPPool_Allocate (Some ip) p = Some (Some ip, p\<lparr>ue_pool := q\<rparr>)" "ip \<in> ue_free p"
      using q(1) True assms(2) by (simp_all add: UeIPPool_Allocate_def w ue_free_def)
    then show ?thesis using pool_keepsI [OF assms(1) q(3,4)] ue_free_minus [OF assms(2) q(2)] by auto
  next
    case False
    then have "Use (ip_val ip) (ue_pool p) = (False, ue_pool p)" by (simp add: avail_def Use_def use_loop_None)
    moreover have "ip \<notin> ue_free p" using False by (simp add: ue_free_def)
    ultimately show ?thesis using assms(1) by (auto simp: UeIPPool_Allocate_def w)
  qed
qed

lemma Release_this:
  assumes "ue_ok p" and "ip \<in> net_addrs (ueSubNet p)" and "ip \<notin> ue_free p"
  shows "\<exists>q. UeIPPool_Release ip p = Some q \<and> pool_keeps p q \<and> ue_free q = insert ip (ue_free p)"
proof -
  have inv: "pool_inv (ue_pool p)" using assms(1) by (simp add: ue_ok_def)
  have l: "length ip = 4" "p_first (ue_pool p) \<le> ip_val ip" "ip_val ip \<le> p_last (ue_pool p)"
    "ip_val ip \<notin> avail (ue_pool p)"
    using assms by (auto simp: ue_ok_def ue_free_def)
  obtain q where q: "Free (ip_val ip) (ue_pool p) = (True, q)" "avail q = insert (ip_val ip) (avail (ue_pool p))"
      "pool_inv q" "same_range (ue_pool p) q"
    using Free_adds [OF inv l(2-4)] by blast
  have "ue_free (p\<lparr>ue_pool := q\<rparr>) = insert ip (ue_free p)"
    using q(2) l(1) ip_val_inj by (auto simp: ue_free_def)
  then show ?thesis
    using be_Uint32_val [OF l(1)] q(1) pool_keepsI [OF assms(1) q(3,4)] by (auto simp: UeIPPool_Release_def)
qed

lemma Exclude_ok:
  assumes "ue_ok p" and "ue_ok e" and "Exclude e p = (True, q)"
  shows "pool_keeps p q \<and> ue_free q = ue_free p - net_addrs (ueSubNet e)"
proof -
  let ?f = "p_first (ue_pool e)" and ?l = "p_last (ue_pool e)"
  have inv: "pool_inv (ue_pool p)" using assms(1) by (simp add: ue_ok_def)
  have c: "Contains (ue_pool p) ?f ?l" using assms(3)
    by (auto simp: Exclude_def Reserve_def Min_of_def Max_of_def split: if_splits prod.splits)
  obtain r where r: "Reserve ?f ?l (ue_pool p) = (True, r)" "avail r = avail (ue_pool p) - {?f .. ?l}" "pool_inv r"
      "same_range (ue_pool p) r"
    using Reserve_takes [OF inv c] by blast
  have "q = p\<lparr>ue_pool := r\<rparr>" using assms(3) r(1) by (simp add: Exclude_def Min_of_def Max_of_def)
  then show ?thesis using pool_keepsI [OF assms(1) r(3,4)] r(2) assms(2) by (auto simp: ue_free_def ue_ok_def)
qed

text \<open>Pools that pass the overlap check have no address in common.\<close>

lemma not_IsJoint_disjoint:
  "ue_ok p \<Longrightarrow> ue_ok q \<Longrightarrow> \<not> IsJoint (ue_pool p) (ue_pool q) \<Longrightarrow> net_addrs (ueSubNet p) \<inter> net_addrs (ueSubNet q) = {}"
  by (auto simp: ue_ok_def IsJoint_def)

lemma isOverlap_disjoint:
  assumes "list_all ue_ok ps" and "\<not> isOverlap ps" and "i < length ps" and "j < length ps" and "i \<noteq> j"
  shows "net_addrs (ueSubNet (ps ! i)) \<inter> net_addrs (ueSubNet (ps ! j)) = {}"
  using assms
proof (induction ps arbitrary: i j)
  case (Cons p ps)
  have d: "net_addrs (ueSubNet p) \<inter> net_addrs (ueSubNet q) = {}" if "q \<in> set ps" for q
    using that Cons.prems by (intro not_IsJoint_disjoint) (auto simp: list_all_iff list_ex_iff)
  show ?case
    using Cons d [of "ps ! (i - 1)"] d [of "ps ! (j - 1)"] by (cases i; cases j) auto
qed simp

section \<open>A pool as an allocator\<close>

text \<open>A pool meets the contract of an allocator: its identifiers are the addresses of the network that are not free.\<close>

definition ue_over :: "IPNet \<Rightarrow> UeIPPool \<Rightarrow> bool" where
  "ue_over n p \<longleftrightarrow> ue_ok p \<and> ueSubNet p = n"

definition ue_used :: "UeIPPool \<Rightarrow> bytes set" where
  "ue_used p = net_addrs (ueSubNet p) - ue_free p"

definition ue_alloc :: "UeIPPool \<Rightarrow> (bytes \<times> UeIPPool) option" where
  "ue_alloc p = (case UeIPPool_Allocate None p of Some (Some ip, q) \<Rightarrow> Some (ip, q) | _ \<Rightarrow> None)"

definition ue_release :: "bytes \<Rightarrow> UeIPPool \<Rightarrow> UeIPPool" where
  "ue_release ip p = (case UeIPPool_Release ip p of Some q \<Rightarrow> q | None \<Rightarrow> p)"

lemma ue_allocD:
  assumes "ue_ok p" and "ue_alloc p = Some (ip, q)"
  shows "ip \<in> ue_free p \<and> ue_free q = ue_free p - {ip} \<and> pool_keeps p q"
proof -
  obtain r q' where r: "UeIPPool_Allocate None p = Some (r, q')" "pool_keeps p q'"
      "case r of None \<Rightarrow> ue_free p = {} \<and> q' = p | Some ip \<Rightarrow> ip \<in> ue_free p \<and> ue_free q' = ue_free p - {ip}"
    using Allocate_any [OF assms(1)] by blast
  then show ?thesis using assms(2) by (cases r) (simp_all add: ue_alloc_def)
qed

lemma ue_releaseD:
  assumes "ue_ok p" and "ip \<in> ue_used p"
  shows "ue_free (ue_release ip p) = insert ip (ue_free p) \<and> pool_keeps p (ue_release ip p)"
proof -
  obtain q where "UeIPPool_Release ip p = Some q" "pool_keeps p q" "ue_free q = insert ip (ue_free p)"
    using Release_this [OF assms(1)] assms(2) by (auto simp: ue_used_def)
  then show ?thesis by (simp add: ue_release_def)
qed

interpretation ue_ips: id_allocator "ue_over n" ue_used ue_alloc ue_release for n
proof
  fix p ip q
  assume o: "ue_over n p" and al: "ue_alloc p = Some (ip, q)"
  then have ok: "ue_ok p" by (simp add: ue_over_def)
  note D = ue_allocD [OF ok al]
  show "ip \<notin> ue_used p" using D by (simp add: ue_used_def)
  show "ue_used q = insert ip (ue_used p)" using D ue_free_net [OF ok] by (auto simp: ue_used_def pool_keeps_def)
  show "ue_over n q" using D o by (simp add: pool_keeps_def ue_over_def)
next
  fix p ip
  assume o: "ue_over n p" and u: "ip \<in> ue_used p"
  then have "ue_ok p" by (simp add: ue_over_def)
  note D = ue_releaseD [OF this u]
  show "ue_used (ue_release ip p) = ue_used p - {ip}" using D by (auto simp: ue_used_def pool_keeps_def)
  show "ue_over n (ue_release ip p)" using D o by (simp add: pool_keeps_def ue_over_def)
qed

text \<open>Clients of a new pool hold pairwise different addresses, and what they do not hold is free.\<close>

lemma UeIPPool_conserves:
  assumes "ParseCIDR cidr = Some n" and "length (net_IP n) = 4" and "NewUEIPPool cidr = Some (Some p)"
    and "client_run ue_alloc ue_release p [] es = Some (held, q)"
  shows "distinct held \<and> set held = net_addrs n - ue_free q"
proof -
  obtain p' where "NewUEIPPool cidr = Some (Some p')" "ueSubNet p' = n" "ue_ok p'" "ue_free p' = net_addrs n"
    by (rule NewUEIPPool_ok [OF assms(1,2)])
  then have p: "ue_over n p" "ue_used p = {}" using assms(3) by (simp_all add: ue_over_def ue_used_def)
  have "distinct held" "ue_used q = set held" "ue_over n q"
    using ue_ips.client_run_conserves [OF assms(4) p(1)] p(2) by auto
  then show ?thesis by (simp add: ue_used_def ue_over_def)
qed

end
