(* ===== verification/Smf_Topology.thy ===== *)
theory Smf_Topology
  imports Smf_Ue_Ip_Pool
begin

text \<open>
  The user plane topology of the SMF, \<open>NFs/smf/internal/context/user_plane_information.go\<close>, with the parts of \<open>snssai.go\<close>
  and \<open>upf.go\<close> it uses: nodes and links from the configuration, the pools of user addresses of each data network, and the
  removal of a node.

  Nodes and pools are shared by pointers, so the state has two stores, lists in which a pointer is an index; nothing is ever
  taken out of a store. A UPF belongs to one node and is a field of it. The Node ID of go-pfcp is a datatype, and its method
  \<open>ResolveNodeIdToIp().String()\<close>, which may ask a name server, is the parameter \<open>res\<close>; \<open>newid\<close> stands for \<open>uuid.New\<close>.
  \<open>logger.Fatalf\<close> ends the process: it is \<open>Err\<close>.
\<close>

section \<open>Slices and data networks\<close>

record SNssai =
  Sst :: int
  Sd :: string

text \<open>\<open>strings.EqualFold\<close> for ASCII texts: a slice differentiator is a hexadecimal number.\<close>

definition fold_char :: "char \<Rightarrow> char" where
  "fold_char c = (if 65 \<le> (of_char c :: nat) \<and> (of_char c :: nat) \<le> 90 then char_of (of_char c + 32 :: nat) else c)"

definition EqualFold :: "string \<Rightarrow> string \<Rightarrow> bool" where
  "EqualFold s t \<longleftrightarrow> map fold_char s = map fold_char t"

definition SNssai_Equal :: "SNssai \<Rightarrow> SNssai \<Rightarrow> bool" where
  "SNssai_Equal s target \<longleftrightarrow> Sst s = Sst target \<and> EqualFold (Sd s) (Sd target)"

record DnnUPFInfoItem =
  di_Dnn :: string
  DnaiList :: "string list"
  PduSessionTypes :: "string list"
  UeIPPools :: "nat list"
  StaticIPPools :: "nat list"

definition ContainsDNAI :: "DnnUPFInfoItem \<Rightarrow> string \<Rightarrow> bool" where
  "ContainsDNAI d targetDnai = (if targetDnai = [] then DnaiList d = [] else targetDnai \<in> set (DnaiList d))"

record SnssaiUPFInfo =
  si_SNssai :: SNssai
  DnnList :: "DnnUPFInfoItem list"

record UPFSelectionParams =
  sel_Dnn :: string
  sel_SNssai :: SNssai
  sel_Dnai :: string
  sel_PDUAddress :: "bytes option"

section \<open>Nodes\<close>

datatype NodeID =
  NodeIdTypeIpv4Address bytes
| NodeIdTypeIpv6Address bytes
| NodeIdTypeFqdn string

text \<open>\<open>upf_associated\<close> says that the association context is not done.\<close>

record UPFInterfaceInfo =
  NetworkInstances :: "string list"
  IPv4EndPointAddresses :: "bytes list"
  IPv6EndPointAddresses :: "bytes list"
  EndpointFQDN :: string

record UPF =
  upf_uuid :: string
  upf_NodeID :: NodeID
  upf_Addr :: string
  SNssaiInfos :: "SnssaiUPFInfo list"
  N3Interfaces :: "UPFInterfaceInfo list"
  N9Interfaces :: "UPFInterfaceInfo list"
  upf_associated :: bool

record InterfaceUpfInfoItem =
  ic_InterfaceType :: string
  ic_Endpoints :: "string list"
  ic_NetworkInstances :: "string list"

definition add_endpoint :: "string \<Rightarrow> UPFInterfaceInfo \<Rightarrow> UPFInterfaceInfo" where
  "add_endpoint endpoint i =
     (case ParseIP endpoint of
        None \<Rightarrow> i\<lparr>EndpointFQDN := endpoint\<rparr>
      | Some eIP \<Rightarrow>
          (case To4 eIP of
             None \<Rightarrow> i\<lparr>IPv6EndPointAddresses := IPv6EndPointAddresses i @ [eIP]\<rparr>
           | Some eIPv4 \<Rightarrow> i\<lparr>IPv4EndPointAddresses := IPv4EndPointAddresses i @ [eIPv4]\<rparr>))"

definition NewUPFInterfaceInfo :: "InterfaceUpfInfoItem \<Rightarrow> UPFInterfaceInfo" where
  "NewUPFInterfaceInfo i =
     (fold add_endpoint (ic_Endpoints i)
       \<lparr>NetworkInstances = [], IPv4EndPointAddresses = [], IPv6EndPointAddresses = [], EndpointFQDN = []\<rparr>)
     \<lparr>NetworkInstances := ic_NetworkInstances i\<rparr>"

definition add_interface :: "InterfaceUpfInfoItem \<Rightarrow> UPF \<Rightarrow> UPF" where
  "add_interface i upf =
     (if ic_InterfaceType i = ''N3'' then upf\<lparr>N3Interfaces := N3Interfaces upf @ [NewUPFInterfaceInfo i]\<rparr>
      else if ic_InterfaceType i = ''N9'' then upf\<lparr>N9Interfaces := N9Interfaces upf @ [NewUPFInterfaceInfo i]\<rparr>
      else upf)"

text \<open>The generators of rule identifiers, of a library, and the tables of rules are left out. A new UPF is not associated.\<close>

definition NewUPF :: "string \<Rightarrow> NodeID \<Rightarrow> InterfaceUpfInfoItem list \<Rightarrow> UPF" where
  "NewUPF uuid nodeID ifaces =
     fold add_interface ifaces
       \<lparr>upf_uuid = uuid, upf_NodeID = nodeID, upf_Addr = [], SNssaiInfos = [], N3Interfaces = [], N9Interfaces = [],
        upf_associated = False\<rparr>"

definition GetInterface :: "UPF \<Rightarrow> string \<Rightarrow> string \<Rightarrow> UPFInterfaceInfo option" where
  "GetInterface upf interfaceType dnn =
     (if interfaceType = ''N3'' then List.find (\<lambda>i. dnn \<in> set (NetworkInstances i)) (N3Interfaces upf)
      else if interfaceType = ''N9'' then List.find (\<lambda>i. dnn \<in> set (NetworkInstances i)) (N9Interfaces upf)
      else None)"

definition isSupportSnssai :: "UPF \<Rightarrow> SNssai \<Rightarrow> bool" where
  "isSupportSnssai upf snssai \<longleftrightarrow> list_ex (\<lambda>i. SNssai_Equal (si_SNssai i) snssai) (SNssaiInfos upf)"

record UPNode =
  up_Name :: string
  up_Type :: string
  up_NodeID :: NodeID
  up_ANIP :: "bytes option"
  up_Links :: "nat list"
  up_UPF :: "UPF option"

abbreviation UPNODE_UPF :: string where "UPNODE_UPF \<equiv> ''UPF''"
abbreviation UPNODE_AN :: string where "UPNODE_AN \<equiv> ''AN''"

text \<open>A nil UPF, which an access network has, is a panic.\<close>

definition MatchedSelection :: "UPNode \<Rightarrow> UPFSelectionParams \<Rightarrow> bool option" where
  "MatchedSelection u sel =
     map_option (\<lambda>upf.
       list_ex (\<lambda>i. SNssai_Equal (si_SNssai i) (sel_SNssai sel)
         \<and> list_ex (\<lambda>d. di_Dnn d = sel_Dnn sel \<and> (sel_Dnai sel = [] \<or> ContainsDNAI d (sel_Dnai sel))) (DnnList i))
         (SNssaiInfos upf)) (up_UPF u)"

record UserPlaneInformation =
  upi_nodes :: "UPNode list"
  upi_pools :: "UeIPPool list"
  UPNodes :: "(string, nat) gomap"
  UPFs :: "(string, nat) gomap"
  AccessNetwork :: "(string, nat) gomap"
  UPFIPToName :: "(string, string) gomap"
  UPFsID :: "(string, string) gomap"
  UPFsIPtoID :: "(string, string) gomap"
  DefaultUserPlanePath :: "(string, nat list) gomap"
  DefaultUserPlanePathToUPF :: "(string, (string, nat list) gomap) gomap"

section \<open>The configuration\<close>

record DnnUpfInfoConfig =
  dc_Dnn :: string
  dc_DnaiList :: "string list"
  dc_PduSessionTypes :: "string list"
  dc_Pools :: "string list"
  dc_StaticPools :: "string list"

record SnssaiUpfInfoConfig =
  sc_SNssai :: SNssai
  sc_DnnUpfInfoList :: "DnnUpfInfoConfig list"

record UPNodeConfig =
  nc_Type :: string
  nc_NodeID :: string
  nc_Addr :: string
  nc_ANIP :: string
  nc_Interfaces :: "InterfaceUpfInfoItem list"
  nc_SNssaiInfos :: "SnssaiUpfInfoConfig list"

record UPTopology =
  cfg_UPNodes :: "(string, UPNodeConfig) gomap"
  cfg_Links :: "(string \<times> string) list"

subsection \<open>Pools of a data network\<close>

text \<open>The new pools go to the end of the store; the result has their pointers.\<close>

fun new_pools :: "string list \<Rightarrow> UeIPPool list \<Rightarrow> (nat list \<times> UeIPPool list) gores" where
  "new_pools [] st = Val ([], st)"
| "new_pools (cidr # cs) st =
     (case NewUEIPPool cidr of
        None \<Rightarrow> Panic
      | Some None \<Rightarrow> Err
      | Some (Some p) \<Rightarrow> gbind (new_pools cs (st @ [p])) (\<lambda>(ps, st'). Val (length st # ps, st')))"

text \<open>A static pool is excluded from the pools of the data network that contain its first address.\<close>

definition exclude_from :: "nat \<Rightarrow> nat \<Rightarrow> UeIPPool list \<Rightarrow> UeIPPool list gores" where
  "exclude_from s d st =
     (if IPNet_Contains (ueSubNet (st ! d)) (net_IP (ueSubNet (st ! s)))
      then (case Exclude (st ! s) (st ! d) of (False, _) \<Rightarrow> Err | (True, q) \<Rightarrow> Val (st[d := q]))
      else Val st)"

fun new_static_pools :: "nat list \<Rightarrow> string list \<Rightarrow> UeIPPool list \<Rightarrow> (nat list \<times> UeIPPool list) gores" where
  "new_static_pools ds [] st = Val ([], st)"
| "new_static_pools ds (cidr # cs) st =
     (case NewUEIPPool cidr of
        None \<Rightarrow> Panic
      | Some None \<Rightarrow> Err
      | Some (Some p) \<Rightarrow>
          gbind (gloop (exclude_from (length st)) ds (st @ [p])) (\<lambda>st1.
          gbind (new_static_pools ds cs st1) (\<lambda>(ps, st'). Val (length st # ps, st'))))"

text \<open>The network and the broadcast address are taken out of a pool; a failure is only logged.\<close>

definition reserve_edges :: "nat \<Rightarrow> UeIPPool list \<Rightarrow> UeIPPool list" where
  "reserve_edges d st =
     (let p = st ! d; lo = Min_of (ue_pool p); hi = Max_of (ue_pool p)
      in if lo \<noteq> hi then st[d := p\<lparr>ue_pool := snd (Reserve hi hi (snd (Reserve lo lo (ue_pool p))))\<rparr>] else st)"

text \<open>\<open>edges\<close> is true at start-up; a node added later keeps both addresses in its pools.\<close>

definition new_dnn :: "bool \<Rightarrow> DnnUpfInfoConfig \<Rightarrow> UeIPPool list \<Rightarrow> (DnnUPFInfoItem \<times> UeIPPool list) gores" where
  "new_dnn edges c st =
     gbind (new_pools (dc_Pools c) st) (\<lambda>(ueIPPools, st1).
     gbind (new_static_pools ueIPPools (dc_StaticPools c) st1) (\<lambda>(staticUeIPPools, st2).
     Val (\<lparr>di_Dnn = dc_Dnn c, DnaiList = dc_DnaiList c, PduSessionTypes = dc_PduSessionTypes c,
           UeIPPools = ueIPPools, StaticIPPools = staticUeIPPools\<rparr>,
          if edges then fold reserve_edges ueIPPools st2 else st2)))"

fun new_dnns :: "bool \<Rightarrow> DnnUpfInfoConfig list \<Rightarrow> UeIPPool list \<Rightarrow> (DnnUPFInfoItem list \<times> UeIPPool list) gores" where
  "new_dnns edges [] st = Val ([], st)"
| "new_dnns edges (c # cs) st =
     gbind (new_dnn edges c st) (\<lambda>(d, st1). gbind (new_dnns edges cs st1) (\<lambda>(ds, st2). Val (d # ds, st2)))"

fun new_snssais :: "bool \<Rightarrow> SnssaiUpfInfoConfig list \<Rightarrow> UeIPPool list \<Rightarrow> (SnssaiUPFInfo list \<times> UeIPPool list) gores" where
  "new_snssais edges [] st = Val ([], st)"
| "new_snssais edges (c # cs) st =
     gbind (new_dnns edges (sc_DnnUpfInfoList c) st) (\<lambda>(ds, st1).
     gbind (new_snssais edges cs st1) (\<lambda>(is, st2). Val (\<lparr>si_SNssai = sc_SNssai c, DnnList = ds\<rparr> # is, st2)))"

subsection \<open>Nodes\<close>

text \<open>\<open>To4\<close> of a nil address is nil: a text that is no address is a domain name.\<close>

definition config_NodeID :: "string \<Rightarrow> NodeID" where
  "config_NodeID s =
     (case ParseIP s of
        None \<Rightarrow> NodeIdTypeFqdn s
      | Some ip \<Rightarrow> (case To4 ip of Some v4 \<Rightarrow> NodeIdTypeIpv4Address v4 | None \<Rightarrow> NodeIdTypeIpv6Address ip))"

text \<open>An access network keeps the zero Node ID, an IPv4 address that is nil. \<open>new_node\<close> is one round of the loop at start-up
  (\<open>edges\<close>) or when nodes are added; only the first sets the name and
  the address of the UPF, only the second its identifiers.\<close>

definition new_node ::
  "(NodeID \<Rightarrow> string) \<Rightarrow> (nat \<Rightarrow> string) \<Rightarrow> bool \<Rightarrow> string \<times> UPNodeConfig \<Rightarrow> UserPlaneInformation \<Rightarrow> UserPlaneInformation gores" where
  "new_node res newid edges nc upi =
     (case nc of (name, node) \<Rightarrow>
       let a = length (upi_nodes upi);
           n0 = \<lparr>up_Name = (if edges then name else []), up_Type = nc_Type node, up_NodeID = NodeIdTypeIpv4Address [],
                 up_ANIP = None, up_Links = [], up_UPF = None\<rparr>;
           store = (\<lambda>n upi. upi\<lparr>upi_nodes := upi_nodes upi @ [n], UPNodes := mput name a (UPNodes upi),
                     UPFIPToName := mput (res (up_NodeID n)) name (UPFIPToName upi)\<rparr>)
       in if nc_Type node = UPNODE_AN then
            Val (store (n0\<lparr>up_ANIP := ParseIP (nc_ANIP node)\<rparr>) (upi\<lparr>AccessNetwork := mput name a (AccessNetwork upi)\<rparr>))
          else if nc_Type node = UPNODE_UPF then
            gbind (new_snssais edges (nc_SNssaiInfos node) (upi_pools upi)) (\<lambda>(infos, pools).
              let nid = config_NodeID (nc_NodeID node); uuid = newid a;
                  upf = NewUPF uuid nid (nc_Interfaces node);
                  n = n0\<lparr>up_NodeID := nid,
                        up_UPF := Some (upf\<lparr>upf_Addr := (if edges then nc_Addr node else []), SNssaiInfos := infos\<rparr>)\<rparr>;
                  upi1 = upi\<lparr>upi_pools := pools, UPFs := mput name a (UPFs upi)\<rparr>
              in Val (store n (if edges then upi1
                   else upi1\<lparr>UPFsID := mput name uuid (UPFsID upi1), UPFsIPtoID := mput (res nid) uuid (UPFsIPtoID upi1)\<rparr>)))
          else Val (store n0 upi))"

text \<open>All pools for dynamic addresses of the UPFs.\<close>

definition dynamic_pools :: "UserPlaneInformation \<Rightarrow> nat list" where
  "dynamic_pools upi =
     concat (map (\<lambda>(_, a). case up_UPF (upi_nodes upi ! a) of
         None \<Rightarrow> []
       | Some upf \<Rightarrow> concat (map (\<lambda>i. concat (map UeIPPools (DnnList i))) (SNssaiInfos upf))) (UPFs upi))"

definition check_overlap :: "UserPlaneInformation \<Rightarrow> UserPlaneInformation gores" where
  "check_overlap upi = (if isOverlap (map ((!) (upi_pools upi)) (dynamic_pools upi)) then Err else Val upi)"

subsection \<open>Links\<close>

fun nodeInPath :: "nat \<Rightarrow> nat list \<Rightarrow> int" where
  "nodeInPath u [] = -1"
| "nodeInPath u (x # xs) = (if x = u then 0 else let i = nodeInPath u xs in if i = -1 then -1 else i + 1)"

abbreviation nodeInLink :: "nat \<Rightarrow> nat list \<Rightarrow> int" where
  "nodeInLink \<equiv> nodeInPath"

definition removeNodeFromLink :: "nat list \<Rightarrow> nat \<Rightarrow> nat list" where
  "removeNodeFromLink links index = butlast (links[index := last links])"

definition add_link :: "string \<times> string \<Rightarrow> UserPlaneInformation \<Rightarrow> UserPlaneInformation" where
  "add_link l upi =
     (case (map_of (UPNodes upi) (fst l), map_of (UPNodes upi) (snd l)) of
        (Some a, Some b) \<Rightarrow>
          let ns = upi_nodes upi
          in if nodeInLink b (up_Links (ns ! a)) \<noteq> -1 \<or> nodeInLink a (up_Links (ns ! b)) \<noteq> -1 then upi
             else
               let ns1 = ns[a := (ns ! a)\<lparr>up_Links := up_Links (ns ! a) @ [b]\<rparr>]
               in upi\<lparr>upi_nodes := ns1[b := (ns1 ! b)\<lparr>up_Links := up_Links (ns1 ! b) @ [a]\<rparr>]\<rparr>
      | _ \<Rightarrow> upi)"

definition LinksFromConfiguration :: "UPTopology \<Rightarrow> UserPlaneInformation \<Rightarrow> UserPlaneInformation" where
  "LinksFromConfiguration t upi = fold add_link (cfg_Links t) upi"

subsection \<open>Start-up, additions and removal\<close>

definition empty_upi :: UserPlaneInformation where
  "empty_upi = \<lparr>upi_nodes = [], upi_pools = [], UPNodes = [], UPFs = [], AccessNetwork = [], UPFIPToName = [], UPFsID = [],
     UPFsIPtoID = [], DefaultUserPlanePath = [], DefaultUserPlanePathToUPF = []\<rparr>"

definition NewUserPlaneInformation ::
  "(NodeID \<Rightarrow> string) \<Rightarrow> (nat \<Rightarrow> string) \<Rightarrow> UPTopology \<Rightarrow> UserPlaneInformation gores" where
  "NewUserPlaneInformation res newid t =
     gbind (gloop (new_node res newid True) (cfg_UPNodes t) empty_upi) (\<lambda>upi.
     gbind (check_overlap upi) (\<lambda>upi. Val (LinksFromConfiguration t upi)))"

definition UpNodesFromConfiguration ::
  "(NodeID \<Rightarrow> string) \<Rightarrow> (nat \<Rightarrow> string) \<Rightarrow> UPTopology \<Rightarrow> UserPlaneInformation \<Rightarrow> UserPlaneInformation gores" where
  "UpNodesFromConfiguration res newid t upi =
     gbind (gloop (\<lambda>nc upi. if fst nc \<in> set (keys (UPNodes upi)) then Val upi else new_node res newid False nc upi)
       (cfg_UPNodes t) upi) check_overlap"

definition AllocateUPFID :: "(NodeID \<Rightarrow> string) \<Rightarrow> UserPlaneInformation \<Rightarrow> UserPlaneInformation gores" where
  "AllocateUPFID res upi =
     gloop (\<lambda>(name, a) upi.
       case up_UPF (upi_nodes upi ! a) of
         None \<Rightarrow> Panic
       | Some upf \<Rightarrow> Val (upi\<lparr>UPFsID := mput name (upf_uuid upf) (UPFsID upi),
           UPFsIPtoID := mput (res (up_NodeID (upi_nodes upi ! a))) (upf_uuid upf) (UPFsIPtoID upi)\<rparr>)) (UPFs upi) upi"

definition unlink :: "nat \<Rightarrow> nat \<Rightarrow> UPNode list \<Rightarrow> UPNode list" where
  "unlink a n ns =
     (let i = nodeInLink a (up_Links (ns ! n))
      in if i = -1 then ns else ns[n := (ns ! n)\<lparr>up_Links := removeNodeFromLink (up_Links (ns ! n)) (nat i)\<rparr>])"

text \<open>The removal from the global table of UPFs (\<open>RemoveUPFNodeByNodeID\<close>) is outside the topology.\<close>

definition UpNodeDelete :: "string \<Rightarrow> UserPlaneInformation \<Rightarrow> UserPlaneInformation" where
  "UpNodeDelete name upi =
     (case map_of (UPNodes upi) name of
        None \<Rightarrow> upi
      | Some a \<Rightarrow>
          let ty = up_Type (upi_nodes upi ! a);
              upi1 = (if ty = UPNODE_UPF
                      then upi\<lparr>UPFs := mdel name (UPFs upi),
                             DefaultUserPlanePathToUPF :=
                               map (\<lambda>(sel, dests). (sel, filter (\<lambda>(_, path). nodeInPath a path = -1) dests))
                                 (DefaultUserPlanePathToUPF upi)\<rparr>
                      else upi);
              upi2 = (if ty = UPNODE_AN then upi1\<lparr>AccessNetwork := mdel name (AccessNetwork upi1)\<rparr> else upi1);
              upi3 = upi2\<lparr>UPNodes := mdel name (UPNodes upi2)\<rparr>
          in upi3\<lparr>upi_nodes := fold (\<lambda>(_, n). unlink a n) (UPNodes upi3) (upi_nodes upi3)\<rparr>)"

end
