(* ===== verification/Smf_Path.thy ===== *)
theory Smf_Path
  imports Smf_Topology
begin

text \<open>
  Paths through the user plane, \<open>NFs/smf/internal/context/user_plane_information.go\<close>: the depth-first search
  \<open>getPathBetween\<close> with the default paths it fills in, and the breadth-first search \<open>selectAnchorUPF\<close> for anchors.

  The recursion of \<open>getPathBetween\<close> ends because every call marks a node as visited. The model counts calls with fuel: the
  number of nodes is enough, and \<open>Err\<close>, the result without fuel, is shown never to occur. A nil UPF is a panic. The test
  \<open>reflect.DeepEqual(*cur, *dest)\<close> is the equality of the pointers: the destination is a UPF node, different nodes have
  different UPF pointers, and two different UPFs are never deeply equal because they hold functions that are not nil.
\<close>

section \<open>Depth-first search\<close>

fun path_from :: "UPNode list \<Rightarrow> SNssai \<Rightarrow> nat \<Rightarrow> nat \<Rightarrow> nat \<Rightarrow> nat list \<Rightarrow> (nat list \<times> nat list option) gores"
  and path_links :: "UPNode list \<Rightarrow> SNssai \<Rightarrow> nat \<Rightarrow> nat \<Rightarrow> nat list \<Rightarrow> nat list \<Rightarrow> (nat list \<times> nat list option) gores" where
  "path_from ns sn dest 0 cur visited = Err"
| "path_from ns sn dest (Suc fuel) cur visited =
     (if cur = dest then Val (cur # visited, Some [cur])
      else gbind (path_links ns sn dest fuel (up_Links (ns ! cur)) (cur # visited))
             (\<lambda>(visited', tail). Val (visited', map_option ((#) cur) tail)))"
| "path_links ns sn dest fuel [] visited = Val (visited, None)"
| "path_links ns sn dest fuel (node # rest) visited =
     (if node \<in> set visited then path_links ns sn dest fuel rest visited
      else case up_UPF (ns ! node) of
             None \<Rightarrow> Panic
           | Some upf \<Rightarrow>
               if \<not> isSupportSnssai upf sn then path_links ns sn dest fuel rest (node # visited)
               else gbind (path_from ns sn dest fuel node visited) (\<lambda>(visited', path).
                      case path of
                        Some p \<Rightarrow> Val (visited', Some p)
                      | None \<Rightarrow> path_links ns sn dest fuel rest visited'))"

definition getPathBetween :: "UPNode list \<Rightarrow> nat \<Rightarrow> nat \<Rightarrow> UPFSelectionParams \<Rightarrow> nat list option gores" where
  "getPathBetween ns cur dest sel =
     gbind (path_from ns (sel_SNssai sel) dest (length ns) cur []) (\<lambda>(_, path). Val path)"

section \<open>Soundness and completeness\<close>

text \<open>Links that stay inside the store; a step goes along a link to a UPF that serves the slice.\<close>

definition links_ok :: "UPNode list \<Rightarrow> bool" where
  "links_ok ns \<longleftrightarrow> list_all (\<lambda>n. list_all (\<lambda>l. l < length ns) (up_Links n)) ns"

definition serves :: "UPNode list \<Rightarrow> SNssai \<Rightarrow> nat \<Rightarrow> bool" where
  "serves ns sn l \<longleftrightarrow> (case up_UPF (ns ! l) of None \<Rightarrow> False | Some upf \<Rightarrow> isSupportSnssai upf sn)"

definition up_step :: "UPNode list \<Rightarrow> SNssai \<Rightarrow> nat \<Rightarrow> nat \<Rightarrow> bool" where
  "up_step ns sn a b \<longleftrightarrow> b \<in> set (up_Links (ns ! a)) \<and> serves ns sn b"

fun up_path :: "UPNode list \<Rightarrow> SNssai \<Rightarrow> nat list \<Rightarrow> bool" where
  "up_path ns sn (a # b # p) \<longleftrightarrow> up_step ns sn a b \<and> up_path ns sn (b # p)"
| "up_path ns sn _ \<longleftrightarrow> True"

lemma up_path_Cons: "p \<noteq> [] \<Longrightarrow> up_path ns sn (a # p) \<longleftrightarrow> up_step ns sn a (hd p) \<and> up_path ns sn p"
  by (cases p) simp_all

lemma links_okD: "links_ok ns \<Longrightarrow> a < length ns \<Longrightarrow> l \<in> set (up_Links (ns ! a)) \<Longrightarrow> l < length ns"
  by (auto simp: links_ok_def list_all_iff)

lemma path_visited:
  "path_from ns sn dest fuel cur visited = Val (visited', r) \<Longrightarrow> set visited \<subseteq> set visited'"
  "path_links ns sn dest fuel links visited = Val (visited', r) \<Longrightarrow> set visited \<subseteq> set visited'"
proof (induction fuel cur visited and fuel links visited arbitrary: visited' r and visited' r rule: path_from_path_links.induct)
  case (2 ns sn dest fuel cur visited)
  then show ?case
    by (cases "path_links ns sn dest fuel (up_Links (ns ! cur)) (cur # visited)") (auto split: if_splits)
next
  case (4 ns sn dest fuel node rest visited)
  then show ?case
    by (cases "path_from ns sn dest fuel node visited") (auto split: if_splits option.splits, blast+)
qed auto

text \<open>What a search returns: the path is one, starts at the node, ends at the destination and repeats no node.\<close>

lemma path_sound:
  "path_from ns sn dest fuel cur visited = Val (visited', Some p) \<Longrightarrow> cur \<notin> set visited \<Longrightarrow>
     p \<noteq> [] \<and> hd p = cur \<and> last p = dest \<and> up_path ns sn p \<and> distinct p \<and> set p \<inter> set visited = {}"
  "path_links ns sn dest fuel links visited = Val (visited', Some p) \<Longrightarrow>
     p \<noteq> [] \<and> hd p \<in> set links \<and> serves ns sn (hd p) \<and> last p = dest \<and> up_path ns sn p \<and> distinct p \<and> set p \<inter> set visited = {}"
proof (induction fuel cur visited and fuel links visited arbitrary: visited' p and visited' p rule: path_from_path_links.induct)
  case (2 ns sn dest fuel cur visited)
  show ?case
  proof (cases "cur = dest")
    case False
    then obtain q where q: "path_links ns sn dest fuel (up_Links (ns ! cur)) (cur # visited) = Val (visited', Some q)" "p = cur # q"
      using 2(2) by (cases "path_links ns sn dest fuel (up_Links (ns ! cur)) (cur # visited)") auto
    show ?thesis using 2(1) [OF False q(1)] 2(3) q(2) by (auto simp: up_path_Cons up_step_def)
  qed (use 2 in auto)
next
  case (4 ns sn dest fuel node rest visited)
  show ?case
  proof (cases "node \<in> set visited")
    case True
    then show ?thesis using 4(1) 4(5) by auto
  next
    case new: False
    then obtain upf where upf: "up_UPF (ns ! node) = Some upf" using 4(5) by (cases "up_UPF (ns ! node)") auto
    show ?thesis
    proof (cases "isSupportSnssai upf sn")
      case False
      then show ?thesis using 4(2) [OF new upf] 4(5) new upf by auto
    next
      case True
      then have s: "serves ns sn node" by (simp add: serves_def upf)
      obtain v r where r: "path_from ns sn dest fuel node visited = Val (v, r)"
        using 4(5) new upf True by (cases "path_from ns sn dest fuel node visited") auto
      have sub: "set visited \<subseteq> set v" by (rule path_visited(1) [OF r])
      show ?thesis
      proof (cases r)
        case None
        then have "path_links ns sn dest fuel rest v = Val (visited', Some p)" using 4(5) new upf True r by simp
        then show ?thesis using 4(4) [OF new upf, of v] True sub by auto
      next
        case (Some q)
        then show ?thesis using 4(3) [OF new upf] 4(5) new upf True r s by auto
      qed
    qed
  qed
qed auto

text \<open>What a failed search has done: every node it entered is not the destination, and all its links have been visited.\<close>

lemma path_closed:
  "path_from ns sn dest fuel cur visited = Val (visited', None) \<Longrightarrow>
     cur \<in> set visited' \<and> (\<forall>x\<in>set visited' - set visited. x = cur \<or> serves ns sn x \<longrightarrow> x \<noteq> dest \<and> set (up_Links (ns ! x)) \<subseteq> set visited')"
  "path_links ns sn dest fuel links visited = Val (visited', None) \<Longrightarrow>
     set links \<subseteq> set visited' \<and> (\<forall>x\<in>set visited' - set visited. serves ns sn x \<longrightarrow> x \<noteq> dest \<and> set (up_Links (ns ! x)) \<subseteq> set visited')"
proof (induction fuel cur visited and fuel links visited arbitrary: visited' and visited' rule: path_from_path_links.induct)
  case (2 ns sn dest fuel cur visited)
  have ne: "cur \<noteq> dest" using 2(2) by auto
  obtain q: "path_links ns sn dest fuel (up_Links (ns ! cur)) (cur # visited) = Val (visited', None)"
    using 2(2) ne by (cases "path_links ns sn dest fuel (up_Links (ns ! cur)) (cur # visited)") auto
  show ?case using 2(1) [OF ne q] path_visited(2) [OF q] ne by auto
next
  case (4 ns sn dest fuel node rest visited)
  show ?case
  proof (cases "node \<in> set visited")
    case True
    then have rest: "path_links ns sn dest fuel rest visited = Val (visited', None)" using 4(5) by simp
    show ?thesis using 4(1) [OF True rest] True path_visited(2) [OF rest] by auto
  next
    case new: False
    then obtain upf where upf: "up_UPF (ns ! node) = Some upf" using 4(5) by (cases "up_UPF (ns ! node)") auto
    show ?thesis
    proof (cases "isSupportSnssai upf sn")
      case False
      then have rest: "path_links ns sn dest fuel rest (node # visited) = Val (visited', None)" using 4(5) new upf by simp
      have "\<not> serves ns sn node" using False by (simp add: serves_def upf)
      then show ?thesis using 4(2) [OF new upf False rest] path_visited(2) [OF rest] by auto
    next
      case True
      then obtain v where v: "path_from ns sn dest fuel node visited = Val (v, None)"
          "path_links ns sn dest fuel rest v = Val (visited', None)"
        using 4(5) new upf by (cases "path_from ns sn dest fuel node visited") (auto split: option.splits)
      have "\<not> \<not> isSupportSnssai upf sn" using True by simp
      note A = 4(3) [OF new upf this v(1)] and B = 4(4) [OF new upf this v(2)] and sub = path_visited(2) [OF v(2)]
      have "x \<noteq> dest \<and> set (up_Links (ns ! x)) \<subseteq> set visited'" if "x \<in> set visited' - set visited" "serves ns sn x" for x
      proof (cases "x \<in> set v")
        case True
        then have "x \<noteq> dest \<and> set (up_Links (ns ! x)) \<subseteq> set v" using A that by simp
        then show ?thesis using sub by (auto dest: subsetD)
      next
        case False
        then show ?thesis using B that by simp
      qed
      then show ?thesis using A B sub by auto
    qed
  qed
qed auto

text \<open>Every call marks a node, so as much fuel as there are unmarked nodes is enough; and no panic occurs when every node that
  is linked and not yet marked is a UPF.\<close>

definition upfs_only :: "UPNode list \<Rightarrow> nat list \<Rightarrow> bool" where
  "upfs_only ns visited \<longleftrightarrow> (\<forall>l<length ns. up_UPF (ns ! l) = None \<longrightarrow> l \<in> set visited)"

definition unmarked :: "UPNode list \<Rightarrow> nat list \<Rightarrow> nat set" where
  "unmarked ns visited = {..<length ns} - set visited"

lemma card_unmarked_Cons:
  "cur < length ns \<Longrightarrow> cur \<notin> set visited \<Longrightarrow> card (unmarked ns visited) = Suc (card (unmarked ns (cur # visited)))"
proof -
  assume "cur < length ns" "cur \<notin> set visited"
  then have "unmarked ns visited = insert cur (unmarked ns (cur # visited))" by (auto simp: unmarked_def)
  moreover have "finite (unmarked ns (cur # visited))" "cur \<notin> unmarked ns (cur # visited)" by (simp_all add: unmarked_def)
  ultimately show ?thesis by simp
qed

lemma card_unmarked_mono: "set visited \<subseteq> set visited' \<Longrightarrow> card (unmarked ns visited') \<le> card (unmarked ns visited)"
  unfolding unmarked_def by (rule card_mono) auto

lemma path_total:
  assumes "links_ok ns"
  shows "upfs_only ns visited \<or> up_UPF (ns ! cur) = None \<and> upfs_only ns (cur # visited) \<Longrightarrow> cur < length ns \<Longrightarrow> cur \<notin> set visited \<Longrightarrow> card (unmarked ns visited) \<le> fuel \<Longrightarrow>
       \<exists>r. path_from ns sn dest fuel cur visited = Val r"
    and "upfs_only ns visited \<Longrightarrow> list_all (\<lambda>l. l < length ns) links \<Longrightarrow> card (unmarked ns visited) \<le> fuel \<Longrightarrow>
       \<exists>r. path_links ns sn dest fuel links visited = Val r"
  using assms
proof (induction ns sn dest fuel cur visited and ns sn dest fuel links visited rule: path_from_path_links.induct)
  case (1 ns sn dest cur visited)
  then show ?case using card_unmarked_Cons [of cur ns visited] by simp
next
  case (2 ns sn dest fuel cur visited)
  have "card (unmarked ns (cur # visited)) \<le> fuel" using 2(3-5) card_unmarked_Cons [of cur ns visited] by simp
  moreover have "upfs_only ns (cur # visited)" using 2(2) by (auto simp: upfs_only_def)
  moreover have "list_all (\<lambda>l. l < length ns) (up_Links (ns ! cur))" using 2(3,6) by (auto simp: links_ok_def list_all_iff)
  ultimately have "cur \<noteq> dest \<Longrightarrow> \<exists>r. path_links ns sn dest fuel (up_Links (ns ! cur)) (cur # visited) = Val r"
    using 2(1,6) by blast
  then show ?case by (cases "cur = dest") auto
next
  case (4 ns sn dest fuel node rest visited)
  show ?case
  proof (cases "node \<in> set visited")
    case True
    then show ?thesis using 4(1) 4(5-) by auto
  next
    case new: False
    have node: "node < length ns" using 4(6) by simp
    then obtain upf where upf: "up_UPF (ns ! node) = Some upf" using new 4(5) by (auto simp: upfs_only_def)
    show ?thesis
    proof (cases "isSupportSnssai upf sn")
      case False
      have "upfs_only ns (node # visited)" using 4(5) by (auto simp: upfs_only_def)
      moreover have "card (unmarked ns (node # visited)) \<le> fuel"
        using card_unmarked_mono [of visited "node # visited" ns] 4(7) by (simp add: subset_insertI)
      ultimately show ?thesis using 4(2) [OF new upf False] 4(6,8) False new upf by auto
    next
      case True
      obtain v r where v: "path_from ns sn dest fuel node visited = Val (v, r)"
        using 4(3) [OF new upf] True 4(5-) node new by auto
      have "upfs_only ns v" "card (unmarked ns v) \<le> fuel"
        using path_visited(1) [OF v] 4(5,7) card_unmarked_mono [of visited v ns] by (auto simp: upfs_only_def)
      then have "\<exists>s. path_links ns sn dest fuel rest v = Val s" using 4(4) [OF new upf] True 4(6,8) by auto
      then show ?thesis using new upf True v by (cases r) auto
    qed
  qed
qed auto

lemma up_path_reach: "up_path ns sn p \<Longrightarrow> p \<noteq> [] \<Longrightarrow> (up_step ns sn)\<^sup>*\<^sup>* (hd p) (last p)"
  by (induction ns sn p rule: up_path.induct) (auto intro: converse_rtranclp_into_rtranclp)

lemma closed_reach:
  assumes "(up_step ns sn)\<^sup>*\<^sup>* cur x" and "cur \<in> V"
    and "\<forall>x\<in>V. x = cur \<or> serves ns sn x \<longrightarrow> set (up_Links (ns ! x)) \<subseteq> V"
  shows "x \<in> V \<and> (x = cur \<or> serves ns sn x)"
  using assms(1)
proof (induction rule: rtranclp_induct)
  case (step y z)
  then show ?case using assms(3) by (auto simp: up_step_def)
qed (simp add: assms(2))

text \<open>The access network the search starts from is the only node without a UPF.\<close>

definition search_ok :: "UPNode list \<Rightarrow> nat \<Rightarrow> bool" where
  "search_ok ns cur \<longleftrightarrow> links_ok ns \<and> cur < length ns \<and> list_all (\<lambda>l. l = cur \<or> up_UPF (ns ! l) \<noteq> None) [0..<length ns]"

lemma getPathBetween_spec:
  assumes "search_ok ns cur"
  shows "\<exists>r. getPathBetween ns cur dest sel = Val r
    \<and> (r \<noteq> None \<longleftrightarrow> (up_step ns (sel_SNssai sel))\<^sup>*\<^sup>* cur dest)
    \<and> (\<forall>p. r = Some p \<longrightarrow> p \<noteq> [] \<and> hd p = cur \<and> last p = dest \<and> up_path ns (sel_SNssai sel) p \<and> distinct p)"
proof -
  let ?sn = "sel_SNssai sel"
  have a: "links_ok ns" "cur < length ns" "\<And>l. l < length ns \<Longrightarrow> l \<noteq> cur \<Longrightarrow> up_UPF (ns ! l) \<noteq> None"
    using assms by (auto simp: search_ok_def list_all_iff)
  have u: "upfs_only ns [] \<or> up_UPF (ns ! cur) = None \<and> upfs_only ns [cur]"
  proof -
    have "l = cur" if "l < length ns" "up_UPF (ns ! l) = None" for l using a(3) that by blast
    then show ?thesis by (cases "up_UPF (ns ! cur)") (auto simp: upfs_only_def)
  qed
  have "card (unmarked ns []) \<le> length ns" by (simp add: unmarked_def)
  then obtain v r where r: "path_from ns ?sn dest (length ns) cur [] = Val (v, r)"
    using path_total(1) [OF a(1) u a(2), where fuel = "length ns" and sn = ?sn and dest = dest] by auto
  have s: "p \<noteq> [] \<and> hd p = cur \<and> last p = dest \<and> up_path ns ?sn p \<and> distinct p" if "r = Some p" for p
    using path_sound(1) [OF r [unfolded that]] by simp
  moreover have "r \<noteq> None \<longleftrightarrow> (up_step ns ?sn)\<^sup>*\<^sup>* cur dest"
  proof
    assume "r \<noteq> None"
    then obtain p where "r = Some p" by blast
    then show "(up_step ns ?sn)\<^sup>*\<^sup>* cur dest" using s [of p] up_path_reach [of ns ?sn p] by auto
  next
    assume reach: "(up_step ns ?sn)\<^sup>*\<^sup>* cur dest"
    show "r \<noteq> None"
    proof
      assume n: "r = None"
      note c = path_closed(1) [OF r [unfolded n]]
      have "dest \<in> set v \<and> (dest = cur \<or> serves ns ?sn dest)" by (rule closed_reach [OF reach]) (use c in auto)
      then show False using c by auto
    qed
  qed
  ultimately show ?thesis by (auto simp: getPathBetween_def r)
qed

section \<open>Breadth-first search for anchors\<close>

text \<open>The links of a node that are not visited and serve the data network; a link to a node without a UPF panics.\<close>

fun new_links :: "UPNode list \<Rightarrow> UPFSelectionParams \<Rightarrow> nat list \<Rightarrow> nat list \<Rightarrow> nat list option" where
  "new_links ns sel visited [] = Some []"
| "new_links ns sel visited (link # rest) =
     (if link \<in> set visited then new_links ns sel visited rest
      else case MatchedSelection (ns ! link) sel of
             None \<Rightarrow> None
           | Some m \<Rightarrow> map_option (\<lambda>ls. if m then link # ls else ls) (new_links ns sel visited rest))"

lemma new_links_set:
  "new_links ns sel visited ls = Some new \<Longrightarrow>
     set new = {l \<in> set ls. l \<notin> set visited \<and> MatchedSelection (ns ! l) sel = Some True}"
  by (induction ls arbitrary: new) (auto split: if_splits option.splits)

text \<open>A node is marked only when it is taken from the queue, so it can be queued more than once. The loop ends: taking an
  unmarked node leaves fewer unmarked nodes, and taking a marked one leaves fewer marked nodes in the queue, because only
  unmarked ones are added.\<close>

function anchor_loop ::
  "UPNode list \<Rightarrow> UPFSelectionParams \<Rightarrow> UPFSelectionParams \<Rightarrow> nat list \<Rightarrow> nat list \<Rightarrow> nat list \<Rightarrow> nat list option" where
  "anchor_loop ns sel selI [] visited upList = Some upList"
| "anchor_loop ns sel selI (node # queue) visited upList =
     (if node \<ge> length ns then None
      else case new_links ns selI (node # visited) (up_Links (ns ! node)) of
             None \<Rightarrow> None
           | Some new \<Rightarrow>
               (case (if new = [] \<and> up_Type (ns ! node) = UPNODE_UPF then MatchedSelection (ns ! node) sel else Some False) of
                  None \<Rightarrow> None
                | Some found \<Rightarrow>
                    anchor_loop ns sel selI (queue @ new) (node # visited) (if found then upList @ [node] else upList)))"
  by pat_completeness auto
termination
proof (relation "measures [\<lambda>(ns, _, _, _, visited, _). card (unmarked ns visited),
    \<lambda>(_, _, _, queue, visited, _). length (filter (\<lambda>n. n \<in> set visited) queue)]")
  fix ns sel selI node queue visited upList new found
  assume n: "\<not> length ns \<le> node" and new: "new_links ns selI (node # visited) (up_Links (ns ! node)) = Some new"
  show "((ns, sel, selI, queue @ new, node # visited, if found then upList @ [node] else upList),
      (ns, sel, selI, node # queue, visited, upList))
    \<in> measures [\<lambda>(ns, _, _, _, visited, _). card (unmarked ns visited),
        \<lambda>(_, _, _, queue, visited, _). length (filter (\<lambda>n. n \<in> set visited) queue)]"
  proof (cases "node \<in> set visited")
    case True
    have "filter (\<lambda>n. n \<in> set (node # visited)) new = []" using new_links_set [OF new] by (auto simp: filter_empty_conv)
    then show ?thesis using True by (simp add: unmarked_def insert_absorb)
  next
    case False
    then show ?thesis using card_unmarked_Cons [of node ns visited] n by simp
  qed
qed simp

definition selectAnchorUPF :: "UPNode list \<Rightarrow> nat \<Rightarrow> UPFSelectionParams \<Rightarrow> nat list option" where
  "selectAnchorUPF ns source sel =
     anchor_loop ns sel \<lparr>sel_Dnn = sel_Dnn sel, sel_SNssai = sel_SNssai sel, sel_Dnai = [], sel_PDUAddress = None\<rparr> [source] [] []"

text \<open>Steps of this search, and what it returns.\<close>

definition anchor_step :: "UPNode list \<Rightarrow> UPFSelectionParams \<Rightarrow> nat \<Rightarrow> nat \<Rightarrow> bool" where
  "anchor_step ns sel a b \<longleftrightarrow> b \<in> set (up_Links (ns ! a)) \<and> MatchedSelection (ns ! b) (sel\<lparr>sel_Dnai := [], sel_PDUAddress := None\<rparr>) = Some True"

definition anchor_ok :: "UPNode list \<Rightarrow> nat \<Rightarrow> UPFSelectionParams \<Rightarrow> nat \<Rightarrow> bool" where
  "anchor_ok ns source sel a \<longleftrightarrow> (anchor_step ns sel)\<^sup>*\<^sup>* source a \<and> a < length ns \<and> up_Type (ns ! a) = UPNODE_UPF
     \<and> MatchedSelection (ns ! a) sel = Some True"

text \<open>One round of the loop, as the proofs below use it.\<close>

lemma anchor_loop_Cons:
  assumes "anchor_loop ns sel selI (node # queue) visited upList = Some ups"
  obtains new found where "node < length ns" "new_links ns selI (node # visited) (up_Links (ns ! node)) = Some new"
    "(if new = [] \<and> up_Type (ns ! node) = UPNODE_UPF then MatchedSelection (ns ! node) sel else Some False) = Some found"
    "anchor_loop ns sel selI (queue @ new) (node # visited) (if found then upList @ [node] else upList) = Some ups"
proof -
  have n: "node < length ns" using assms by (simp split: if_splits)
  then obtain new where new: "new_links ns selI (node # visited) (up_Links (ns ! node)) = Some new"
    using assms by (auto split: option.splits)
  let ?m = "if new = [] \<and> up_Type (ns ! node) = UPNODE_UPF then MatchedSelection (ns ! node) sel else Some False"
  obtain found where "?m = Some found" using assms n new by (cases ?m) simp_all
  then show thesis using assms n new by (intro that) simp_all
qed

lemma anchor_loop_sound:
  assumes "anchor_loop ns sel selI queue visited upList = Some ups"
    and "selI = sel\<lparr>sel_Dnai := [], sel_PDUAddress := None\<rparr>"
    and "\<forall>n\<in>set queue. (anchor_step ns sel)\<^sup>*\<^sup>* source n" and "list_all (anchor_ok ns source sel) upList"
  shows "list_all (anchor_ok ns source sel) ups"
  using assms
proof (induction ns sel selI queue visited upList rule: anchor_loop.induct)
  case (2 ns sel selI node queue visited upList)
  from 2(2) obtain new found where r: "node < length ns" "new_links ns selI (node # visited) (up_Links (ns ! node)) = Some new"
    "(if new = [] \<and> up_Type (ns ! node) = UPNODE_UPF then MatchedSelection (ns ! node) sel else Some False) = Some found"
    "anchor_loop ns sel selI (queue @ new) (node # visited) (if found then upList @ [node] else upList) = Some ups"
    by (rule anchor_loop_Cons)
  have src: "(anchor_step ns sel)\<^sup>*\<^sup>* source node" using 2(4) by simp
  have "(anchor_step ns sel)\<^sup>*\<^sup>* source m" if "m \<in> set new" for m
  proof -
    have "anchor_step ns sel node m" using that new_links_set [OF r(2)] 2(3) by (simp add: anchor_step_def)
    with src show ?thesis by (rule rtranclp.rtrancl_into_rtrancl)
  qed
  then have q: "\<forall>m\<in>set (queue @ new). (anchor_step ns sel)\<^sup>*\<^sup>* source m" using 2(4) by auto
  have "anchor_ok ns source sel node" if "found" using src r(1,3) that by (auto simp: anchor_ok_def split: if_splits)
  then have "list_all (anchor_ok ns source sel) (if found then upList @ [node] else upList)" using 2(5) by simp
  then show ?case using 2(1) [OF _ r(2,3,4) 2(3) q] r(1) by simp
qed simp

lemma new_links_total:
  "\<forall>l\<in>set ls. l \<notin> set visited \<longrightarrow> up_UPF (ns ! l) \<noteq> None \<Longrightarrow> \<exists>new. new_links ns sel visited ls = Some new"
  by (induction ls) (auto simp: MatchedSelection_def)

lemma MatchedSelection_total: "up_UPF u \<noteq> None \<Longrightarrow> \<exists>m. MatchedSelection u sel = Some m"
  by (auto simp: MatchedSelection_def)

text \<open>The nodes of a topology that the search can walk through: links stay inside, and exactly the nodes of type UPF have a
  UPF.\<close>

definition nodes_typed :: "UPNode list \<Rightarrow> bool" where
  "nodes_typed ns \<longleftrightarrow> list_all (\<lambda>n. (up_UPF n \<noteq> None) = (up_Type n = UPNODE_UPF)) ns"

lemma nodes_typedD: "nodes_typed ns \<Longrightarrow> a < length ns \<Longrightarrow> up_UPF (ns ! a) \<noteq> None \<longleftrightarrow> up_Type (ns ! a) = UPNODE_UPF"
  by (auto simp: nodes_typed_def list_all_iff)

lemma anchor_loop_total:
  assumes "links_ok ns" and "nodes_typed ns" and "\<forall>n\<in>set queue. n < length ns"
    and "\<forall>l<length ns. up_UPF (ns ! l) = None \<longrightarrow> l \<in> set visited \<or> queue = [l]"
  shows "\<exists>ups. anchor_loop ns sel selI queue visited upList = Some ups"
  using assms
proof (induction ns sel selI queue visited upList rule: anchor_loop.induct)
  case (2 ns sel selI node queue visited upList)
  have n: "node < length ns" using 2(4) by simp
  have u: "up_UPF (ns ! l) \<noteq> None" if "l < length ns" "l \<notin> set (node # visited)" for l using 2(5) that by auto
  have "\<forall>l\<in>set (up_Links (ns ! node)). l \<notin> set (node # visited) \<longrightarrow> up_UPF (ns ! l) \<noteq> None"
    using u links_okD [OF 2(2) n] by blast
  then obtain new where new: "new_links ns selI (node # visited) (up_Links (ns ! node)) = Some new"
    using new_links_total by blast
  obtain found where f: "(if new = [] \<and> up_Type (ns ! node) = UPNODE_UPF then MatchedSelection (ns ! node) sel else Some False) = Some found"
    using MatchedSelection_total [of "ns ! node" sel] nodes_typedD [OF 2(3) n] by (cases "new = []") auto
  have "\<forall>m\<in>set (queue @ new). m < length ns" using 2(4) new_links_set [OF new] links_okD [OF 2(2) n] by auto
  moreover have "\<forall>l<length ns. up_UPF (ns ! l) = None \<longrightarrow> l \<in> set (node # visited) \<or> queue @ new = [l]" using u by blast
  ultimately show ?case using 2(1) [OF _ new f 2(2,3)] n new f by simp
qed simp

lemma anchor_loop_extends: "anchor_loop ns sel selI queue visited upList = Some ups \<Longrightarrow> set upList \<subseteq> set ups"
proof (induction ns sel selI queue visited upList rule: anchor_loop.induct)
  case (2 ns sel selI node queue visited upList)
  from 2(2) show ?case
    by (rule anchor_loop_Cons) (use 2(1) in \<open>force split: if_splits\<close>)
qed simp

lemma anchor_loop_nonempty:
  assumes "anchor_loop ns sel selI queue visited upList = Some ups" and "nodes_typed ns" and "queue \<noteq> []"
    and "\<forall>n\<in>set queue. MatchedSelection (ns ! n) selI = Some True" and "\<And>u. MatchedSelection u sel = MatchedSelection u selI"
  shows "ups \<noteq> []"
  using assms
proof (induction ns sel selI queue visited upList rule: anchor_loop.induct)
  case (2 ns sel selI node queue visited upList)
  from 2(2) obtain new found where r: "node < length ns" "new_links ns selI (node # visited) (up_Links (ns ! node)) = Some new"
    "(if new = [] \<and> up_Type (ns ! node) = UPNODE_UPF then MatchedSelection (ns ! node) sel else Some False) = Some found"
    "anchor_loop ns sel selI (queue @ new) (node # visited) (if found then upList @ [node] else upList) = Some ups"
    by (rule anchor_loop_Cons)
  have m: "MatchedSelection (ns ! node) sel = Some True" using 2(5,6) by simp
  then have t: "up_Type (ns ! node) = UPNODE_UPF" using nodes_typedD [OF 2(3) r(1)] by (auto simp: MatchedSelection_def)
  show ?case
  proof (cases "new = []")
    case True
    then have "found" using r(3) m t by simp
    then show ?thesis using anchor_loop_extends [OF r(4)] by auto
  next
    case False
    have "\<forall>n\<in>set (queue @ new). MatchedSelection (ns ! n) selI = Some True" using 2(5) new_links_set [OF r(2)] by auto
    then show ?thesis using 2(1) [OF _ r(2,3,4) 2(3)] r(1) False 2(6) by auto
  qed
qed simp

lemma MatchedSelection_no_dnai:
  "sel_Dnai sel = [] \<Longrightarrow> MatchedSelection u sel = MatchedSelection u (sel\<lparr>sel_Dnai := [], sel_PDUAddress := None\<rparr>)"
  by (simp add: MatchedSelection_def)

lemma selectAnchorUPF_alt:
  "selectAnchorUPF ns source sel = anchor_loop ns sel (sel\<lparr>sel_Dnai := [], sel_PDUAddress := None\<rparr>) [source] [] []"
  by (cases sel) (simp add: selectAnchorUPF_def)

lemma selectAnchorUPF_spec:
  assumes ok: "search_ok ns source" and ty: "nodes_typed ns" and an: "up_Type (ns ! source) = UPNODE_AN"
  shows "\<exists>ups. selectAnchorUPF ns source sel = Some ups \<and> list_all (anchor_ok ns source sel) ups
    \<and> (sel_Dnai sel = [] \<longrightarrow> (ups = [] \<longleftrightarrow> \<not> (\<exists>b. b \<noteq> source \<and> anchor_step ns sel source b)))"
proof -
  let ?selI = "sel\<lparr>sel_Dnai := [], sel_PDUAddress := None\<rparr>"
  have l: "links_ok ns" "source < length ns" using ok by (simp_all add: search_ok_def)
  have u: "up_UPF (ns ! k) \<noteq> None" if "k < length ns" "k \<noteq> source" for k
    using ok that by (auto simp: search_ok_def list_all_iff)
  then have w: "\<forall>k<length ns. up_UPF (ns ! k) = None \<longrightarrow> k \<in> set [] \<or> [source] = [k]" by blast
  have q: "\<forall>n\<in>set [source]. n < length ns" using l(2) by simp
  obtain ups where ups: "anchor_loop ns sel ?selI [source] [] [] = Some ups"
    using anchor_loop_total [OF l(1) ty q w] by blast
  have "list_all (anchor_ok ns source sel) ups" by (rule anchor_loop_sound [OF ups]) simp_all
  moreover have "ups = [] \<longleftrightarrow> \<not> (\<exists>b. b \<noteq> source \<and> anchor_step ns sel source b)" if d: "sel_Dnai sel = []"
  proof -
    from ups obtain new found where r: "source < length ns" "new_links ns ?selI [source] (up_Links (ns ! source)) = Some new"
      "(if new = [] \<and> up_Type (ns ! source) = UPNODE_UPF then MatchedSelection (ns ! source) sel else Some False) = Some found"
      "anchor_loop ns sel ?selI ([] @ new) [source] (if found then [] @ [source] else []) = Some ups"
      by (rule anchor_loop_Cons)
    have new: "new = [] \<longleftrightarrow> \<not> (\<exists>b. b \<noteq> source \<and> anchor_step ns sel source b)"
      unfolding set_empty [symmetric] new_links_set [OF r(2)] anchor_step_def by auto
    have "\<not> found" using r(3) an by simp
    then have loop: "anchor_loop ns sel ?selI new [source] [] = Some ups" using r(4) by simp
    show ?thesis
    proof (cases "new = []")
      case True
      then show ?thesis using loop new by simp
    next
      case False
      have "\<forall>n\<in>set new. MatchedSelection (ns ! n) ?selI = Some True" using new_links_set [OF r(2)] by simp
      then have "ups \<noteq> []" by (rule anchor_loop_nonempty [OF loop ty False]) (rule MatchedSelection_no_dnai [OF d])
      then show ?thesis using False new by simp
    qed
  qed
  ultimately show ?thesis using ups by (auto simp: selectAnchorUPF_alt)
qed

end
