(* ===== verification/Smf_User_Plane.thy ===== *)
theory Smf_User_Plane
  imports Smf_Path "HOL-Library.List_Lexorder" "HOL-Library.Char_ord"
begin

text \<open>
  Default paths and the choice of an anchor UPF with a user address,
  \<open>NFs/smf/internal/context/user_plane_information.go\<close>.

  \<open>rnd k n\<close> is the value of the \<open>k\<close>-th call of \<open>rand.Intn(n)\<close> of a selection; the theorems hold for every \<open>rnd\<close>. A nil path
  or address is \<open>None\<close>.
\<close>

section \<open>Default paths\<close>

definition int_String :: "int \<Rightarrow> string" where
  "int_String i = (if i < 0 then CHR ''-'' # itoa (nat (- i)) else itoa (nat i))"

definition sel_String :: "UPFSelectionParams \<Rightarrow> string" where
  "sel_String sel =
     (if sel_Dnn sel \<noteq> [] then ''Dnn: '' @ sel_Dnn sel @ [CHR 0x0A] else [])
     @ ''Sst: '' @ int_String (Sst (sel_SNssai sel)) @ '', Sd: '' @ Sd (sel_SNssai sel) @ [CHR 0x0A]
     @ (if sel_Dnai sel \<noteq> [] then ''DNAI: '' @ sel_Dnai sel @ [CHR 0x0A] else [])
     @ (case sel_PDUAddress sel of None \<Rightarrow> [] | Some ip \<Rightarrow> ''PDUAddress: '' @ ip_String ip @ [CHR 0x0A])"

definition selectUPPathSource :: "UserPlaneInformation \<Rightarrow> nat option" where
  "selectUPPathSource upi =
     map_option snd (List.find (\<lambda>(_, a). up_Type (upi_nodes upi ! a) = UPNODE_AN) (AccessNetwork upi))"

definition strip_an :: "UserPlaneInformation \<Rightarrow> nat list \<Rightarrow> nat list" where
  "strip_an upi path = (if up_Type (upi_nodes upi ! hd path) = UPNODE_AN then tl path else path)"

definition GenerateDefaultPathToUPF ::
  "(NodeID \<Rightarrow> string) \<Rightarrow> UPFSelectionParams \<Rightarrow> nat \<Rightarrow> UserPlaneInformation \<Rightarrow> (bool \<times> UserPlaneInformation) gores" where
  "GenerateDefaultPathToUPF res sel dest upi =
     (case selectUPPathSource upi of
        None \<Rightarrow> Val (False, upi)
      | Some source \<Rightarrow>
          gbind (getPathBetween (upi_nodes upi) source dest sel) (\<lambda>path.
            Val (case path of
                   None \<Rightarrow> (False, upi)
                 | Some p \<Rightarrow>
                     let dests = (case map_of (DefaultUserPlanePathToUPF upi) (sel_String sel) of None \<Rightarrow> [] | Some m \<Rightarrow> m)
                     in (True, upi\<lparr>DefaultUserPlanePathToUPF :=
                          mput (sel_String sel) (mput (res (up_NodeID (upi_nodes upi ! dest))) (strip_an upi p) dests)
                            (DefaultUserPlanePathToUPF upi)\<rparr>))))"

definition cached_path_to :: "(NodeID \<Rightarrow> string) \<Rightarrow> UPFSelectionParams \<Rightarrow> nat \<Rightarrow> UserPlaneInformation \<Rightarrow> nat list option" where
  "cached_path_to res sel upf upi =
     Option.bind (map_of (DefaultUserPlanePathToUPF upi) (sel_String sel)) (\<lambda>m. map_of m (res (up_NodeID (upi_nodes upi ! upf))))"

definition GetDefaultUserPlanePathByDNNAndUPF ::
  "(NodeID \<Rightarrow> string) \<Rightarrow> UPFSelectionParams \<Rightarrow> nat \<Rightarrow> UserPlaneInformation \<Rightarrow> (nat list option \<times> UserPlaneInformation) gores" where
  "GetDefaultUserPlanePathByDNNAndUPF res sel upf upi =
     (case cached_path_to res sel upf upi of
        Some path \<Rightarrow> Val (Some path, upi)
      | None \<Rightarrow>
          gbind (GenerateDefaultPathToUPF res sel upf upi) (\<lambda>(pathExist, upi').
            Val (if pathExist then cached_path_to res sel upf upi' else None, upi')))"

text \<open>The UPFs that match a selection; one that serves the slice twice appears twice.\<close>

definition match_node :: "UPFSelectionParams \<Rightarrow> UPNode \<Rightarrow> nat \<Rightarrow> nat list option" where
  "match_node sel n a =
     map_option (\<lambda>upf. map (\<lambda>_. a) (filter (\<lambda>i. SNssai_Equal (si_SNssai i) (sel_SNssai sel)
         \<and> list_ex (\<lambda>d. di_Dnn d = sel_Dnn sel \<and> ContainsDNAI d (sel_Dnai sel)) (DnnList i)) (SNssaiInfos upf))) (up_UPF n)"

fun match_nodes :: "UPFSelectionParams \<Rightarrow> UPNode list \<Rightarrow> (string \<times> nat) list \<Rightarrow> nat list option" where
  "match_nodes sel ns [] = Some []"
| "match_nodes sel ns ((_, a) # rest) =
     Option.bind (match_node sel (ns ! a) a) (\<lambda>xs. map_option ((@) xs) (match_nodes sel ns rest))"

definition selectMatchUPF :: "UPFSelectionParams \<Rightarrow> UserPlaneInformation \<Rightarrow> nat list option" where
  "selectMatchUPF sel upi = match_nodes sel (upi_nodes upi) (UPFs upi)"

text \<open>The loop over the access networks ends with the first path.\<close>

fun first_path :: "UPNode list \<Rightarrow> UPFSelectionParams \<Rightarrow> nat \<Rightarrow> (string \<times> nat) list \<Rightarrow> nat list option gores" where
  "first_path ns sel dest [] = Val None"
| "first_path ns sel dest ((_, a) # rest) =
     (if up_Type (ns ! a) = UPNODE_AN
      then gbind (getPathBetween ns a dest sel) (\<lambda>path. if path \<noteq> None then Val path else first_path ns sel dest rest)
      else first_path ns sel dest rest)"

definition GenerateDefaultPath :: "UPFSelectionParams \<Rightarrow> UserPlaneInformation \<Rightarrow> (bool \<times> UserPlaneInformation) gores" where
  "GenerateDefaultPath sel upi =
     (case selectMatchUPF sel upi of
        None \<Rightarrow> Panic
      | Some [] \<Rightarrow> Val (False, upi)
      | Some (dest # _) \<Rightarrow>
          gbind (first_path (upi_nodes upi) sel dest (AccessNetwork upi)) (\<lambda>path.
            Val (case path of
                   None \<Rightarrow> (False, upi)
                 | Some p \<Rightarrow> (True, upi\<lparr>DefaultUserPlanePath := mput (sel_String sel) (strip_an upi p) (DefaultUserPlanePath upi)\<rparr>))))"

definition GetDefaultUserPlanePathByDNN ::
  "UPFSelectionParams \<Rightarrow> UserPlaneInformation \<Rightarrow> (nat list option \<times> UserPlaneInformation) gores" where
  "GetDefaultUserPlanePathByDNN sel upi =
     (case map_of (DefaultUserPlanePath upi) (sel_String sel) of
        Some path \<Rightarrow> Val (Some path, upi)
      | None \<Rightarrow>
          gbind (GenerateDefaultPath sel upi) (\<lambda>(pathExist, upi').
            Val (if pathExist then map_of (DefaultUserPlanePath upi') (sel_String sel) else None, upi')))"

section \<open>Anchor and address\<close>

definition GetUPFNameByIp :: "UserPlaneInformation \<Rightarrow> string \<Rightarrow> string" where
  "GetUPFNameByIp upi ip = (case map_of (UPFIPToName upi) ip of None \<Rightarrow> [] | Some name \<Rightarrow> name)"

definition sortUPFListByName :: "(NodeID \<Rightarrow> string) \<Rightarrow> UserPlaneInformation \<Rightarrow> nat list \<Rightarrow> nat list" where
  "sortUPFListByName res upi upfList =
     concat (map (\<lambda>name. filter (\<lambda>a. name = GetUPFNameByIp upi (res (up_NodeID (upi_nodes upi ! a)))) upfList)
       (sort (keys (UPFs upi))))"

definition rotate_from :: "nat \<Rightarrow> 'a list \<Rightarrow> 'a list" where
  "rotate_from offset inputList = drop offset inputList @ take offset inputList"

text \<open>The data network of a UPF that a selection is about, the first that matches.\<close>

definition find_dnn :: "UPF \<Rightarrow> UPFSelectionParams \<Rightarrow> DnnUPFInfoItem option" where
  "find_dnn upf sel =
     List.find (\<lambda>d. di_Dnn d = sel_Dnn sel \<and> (sel_Dnai sel = [] \<or> ContainsDNAI d (sel_Dnai sel)))
       (concat (map DnnList (filter (\<lambda>i. SNssai_Equal (si_SNssai i) (sel_SNssai sel)) (SNssaiInfos upf))))"

definition pool_with :: "UeIPPool list \<Rightarrow> bytes \<Rightarrow> nat list \<Rightarrow> nat option" where
  "pool_with pools ip ks = List.find (\<lambda>k. IPNet_Contains (ueSubNet (pools ! k)) ip) ks"

definition getUEIPPool :: "UeIPPool list \<Rightarrow> UPF \<Rightarrow> UPFSelectionParams \<Rightarrow> nat list \<times> bool" where
  "getUEIPPool pools upf sel =
     (case find_dnn upf sel of
        None \<Rightarrow> ([], False)
      | Some d \<Rightarrow>
          (case sel_PDUAddress sel of
             None \<Rightarrow> (UeIPPools d, False)
           | Some ip \<Rightarrow>
               (case pool_with pools ip (StaticIPPools d) of
                  Some k \<Rightarrow> ([k], True)
                | None \<Rightarrow>
                    (case pool_with pools ip (UeIPPools d) of Some k \<Rightarrow> ([k], False) | None \<Rightarrow> ([], False)))))"

fun alloc_pools :: "bytes option \<Rightarrow> nat list \<Rightarrow> UeIPPool list \<Rightarrow> (bytes option \<times> UeIPPool list) gores" where
  "alloc_pools req [] pools = Val (None, pools)"
| "alloc_pools req (k # ks) pools =
     (case UeIPPool_Allocate req (pools ! k) of
        None \<Rightarrow> Panic
      | Some (Some addr, q) \<Rightarrow> Val (Some addr, pools[k := q])
      | Some (None, q) \<Rightarrow> alloc_pools req ks (pools[k := q]))"

text \<open>The loop over the UPFs: one that is not associated or has no pool is passed over.\<close>

fun alloc_upfs :: "(nat \<Rightarrow> nat \<Rightarrow> nat) \<Rightarrow> nat \<Rightarrow> UPNode list \<Rightarrow> UPFSelectionParams \<Rightarrow> nat list \<Rightarrow> UeIPPool list
    \<Rightarrow> ((nat \<times> bytes \<times> bool) option \<times> UeIPPool list) gores" where
  "alloc_upfs rnd k ns sel [] pools = Val (None, pools)"
| "alloc_upfs rnd k ns sel (a # rest) pools =
     (case up_UPF (ns ! a) of
        None \<Rightarrow> Panic
      | Some upf \<Rightarrow>
          if \<not> upf_associated upf then alloc_upfs rnd k ns sel rest pools
          else
            let (ks, static) = getUEIPPool pools upf sel
            in if ks = [] then alloc_upfs rnd k ns sel rest pools
               else gbind (alloc_pools (sel_PDUAddress sel) (rotate_from (rnd k (length ks)) ks) pools) (\<lambda>(addr, pools').
                      case addr of
                        Some ip \<Rightarrow> Val (Some (a, ip, static), pools')
                      | None \<Rightarrow> alloc_upfs rnd (Suc k) ns sel rest pools'))"

text \<open>\<open>rand.Intn(0)\<close> panics: the list must not become empty when it is sorted by the names of the UPFs.\<close>

definition SelectUPFAndAllocUEIP ::
  "(NodeID \<Rightarrow> string) \<Rightarrow> (nat \<Rightarrow> nat \<Rightarrow> nat) \<Rightarrow> UPFSelectionParams \<Rightarrow> UserPlaneInformation
    \<Rightarrow> ((nat \<times> bytes \<times> bool) option \<times> UserPlaneInformation) gores" where
  "SelectUPFAndAllocUEIP res rnd sel upi =
     (case selectUPPathSource upi of
        None \<Rightarrow> Val (None, upi)
      | Some source \<Rightarrow>
          (case selectAnchorUPF (upi_nodes upi) source sel of
             None \<Rightarrow> Panic
           | Some [] \<Rightarrow> Val (None, upi)
           | Some upfs \<Rightarrow>
               let sorted = sortUPFListByName res upi upfs
               in if sorted = [] then Panic
                  else gbind (alloc_upfs rnd 1 (upi_nodes upi) sel (rotate_from (rnd 0 (length sorted)) sorted) (upi_pools upi))
                         (\<lambda>(r, pools). Val (r, upi\<lparr>upi_pools := pools\<rparr>))))"

definition node_pools :: "UPF \<Rightarrow> bool \<Rightarrow> nat list" where
  "node_pools upf static =
     concat (map (\<lambda>d. if static then StaticIPPools d else UeIPPools d) (concat (map DnnList (SNssaiInfos upf))))"

definition findPoolByAddr :: "UeIPPool list \<Rightarrow> UPF \<Rightarrow> bytes \<Rightarrow> bool \<Rightarrow> nat option" where
  "findPoolByAddr pools upf addr static = pool_with pools addr (node_pools upf static)"

definition ReleaseUEIP :: "nat \<Rightarrow> bytes \<Rightarrow> bool \<Rightarrow> UserPlaneInformation \<Rightarrow> UserPlaneInformation gores" where
  "ReleaseUEIP a addr static upi =
     (case up_UPF (upi_nodes upi ! a) of
        None \<Rightarrow> Panic
      | Some upf \<Rightarrow>
          (case findPoolByAddr (upi_pools upi) upf addr static of
             None \<Rightarrow> Val upi
           | Some k \<Rightarrow>
               (case UeIPPool_Release addr (upi_pools upi ! k) of
                  None \<Rightarrow> Panic
                | Some q \<Rightarrow> Val (upi\<lparr>upi_pools := (upi_pools upi)[k := q]\<rparr>))))"

section \<open>What a selection does\<close>

text \<open>An address leaves one pool of the store, or comes back to it; nothing else changes.\<close>

definition takes_addr :: "UeIPPool list \<Rightarrow> nat \<Rightarrow> bytes \<Rightarrow> UeIPPool list \<Rightarrow> bool" where
  "takes_addr pools k ip pools' \<longleftrightarrow> k < length pools \<and> ip \<in> ue_free (pools ! k) \<and> list_all2 pool_keeps pools pools'
     \<and> map ue_free pools' = (map ue_free pools)[k := ue_free (pools ! k) - {ip}]"

definition gives_addr :: "UeIPPool list \<Rightarrow> nat \<Rightarrow> bytes \<Rightarrow> UeIPPool list \<Rightarrow> bool" where
  "gives_addr pools k ip pools' \<longleftrightarrow> k < length pools \<and> list_all2 pool_keeps pools pools'
     \<and> map ue_free pools' = (map ue_free pools)[k := insert ip (ue_free (pools ! k))]"

text \<open>The addresses a pool can still give for a request.\<close>

definition wanted :: "bytes option \<Rightarrow> UeIPPool \<Rightarrow> bytes set" where
  "wanted req p = (case req of None \<Rightarrow> ue_free p | Some ip \<Rightarrow> ue_free p \<inter> {ip})"

abbreviation req_ok :: "bytes option \<Rightarrow> bool" where
  "req_ok req \<equiv> pred_option (\<lambda>ip. length ip = 4) req"

lemma Allocate_wanted:
  assumes "ue_ok p" and "req_ok req"
  shows "\<exists>r q. UeIPPool_Allocate req p = Some (r, q) \<and> pool_keeps p q
    \<and> (case r of None \<Rightarrow> wanted req p = {} \<and> q = p | Some ip \<Rightarrow> ip \<in> wanted req p \<and> ue_free q = ue_free p - {ip})"
proof (cases req)
  case None
  have w: "wanted None p = ue_free p" by (simp add: wanted_def)
  show ?thesis unfolding None w by (rule Allocate_any [OF assms(1)])
next
  case (Some ip)
  then have "length ip = 4" using assms(2) by simp
  then obtain q where q: "UeIPPool_Allocate (Some ip) p = Some (if ip \<in> ue_free p then Some ip else None, q)" "pool_keeps p q"
      "ue_free q = ue_free p - {ip}" "ip \<notin> ue_free p \<Longrightarrow> q = p"
    using Allocate_this [OF assms(1)] by blast
  then show ?thesis using Some by (cases "ip \<in> ue_free p") (auto simp: wanted_def)
qed

lemma keeps_same: "list_all ue_ok pools \<Longrightarrow> list_all2 pool_keeps pools pools"
  by (simp add: list_all2_conv_all_nth list_all_length)

lemma keeps_update: "list_all ue_ok pools \<Longrightarrow> k < length pools \<Longrightarrow> pool_keeps (pools ! k) q \<Longrightarrow> list_all2 pool_keeps pools (pools[k := q])"
  by (auto simp: list_all2_conv_all_nth list_all_length nth_list_update)

lemma alloc_pools_spec:
  assumes "list_all ue_ok pools" and "req_ok req" and "\<forall>k\<in>set ks. k < length pools"
  shows "\<exists>r pools'. alloc_pools req ks pools = Val (r, pools')
    \<and> (case r of None \<Rightarrow> pools' = pools \<and> (\<forall>k\<in>set ks. wanted req (pools ! k) = {})
       | Some ip \<Rightarrow> \<exists>k\<in>set ks. ip \<in> wanted req (pools ! k) \<and> takes_addr pools k ip pools')"
  using assms(3)
proof (induction ks)
  case (Cons k ks)
  have k: "k < length pools" using Cons.prems by simp
  then obtain r q where r: "UeIPPool_Allocate req (pools ! k) = Some (r, q)" "pool_keeps (pools ! k) q"
      "case r of None \<Rightarrow> wanted req (pools ! k) = {} \<and> q = pools ! k
       | Some ip \<Rightarrow> ip \<in> wanted req (pools ! k) \<and> ue_free q = ue_free (pools ! k) - {ip}"
    using Allocate_wanted [of "pools ! k" req] assms(1,2) by (auto simp: list_all_length)
  show ?case
  proof (cases r)
    case None
    then have e: "alloc_pools req (k # ks) pools = alloc_pools req ks pools" "wanted req (pools ! k) = {}"
      using r(1,3) by simp_all
    obtain r' pools' where IH: "alloc_pools req ks pools = Val (r', pools')"
      "case r' of None \<Rightarrow> pools' = pools \<and> (\<forall>k\<in>set ks. wanted req (pools ! k) = {})
       | Some ip \<Rightarrow> \<exists>k\<in>set ks. ip \<in> wanted req (pools ! k) \<and> takes_addr pools k ip pools'"
      using Cons.IH Cons.prems by auto
    show ?thesis unfolding e(1) IH(1) using IH(2) e(2) by (cases r') auto
  next
    case (Some ip)
    have "takes_addr pools k ip (pools[k := q])"
      using k r(2,3) Some keeps_update [OF assms(1) k r(2)] by (auto simp: takes_addr_def wanted_def map_update split: option.splits)
    then show ?thesis using Some r by auto
  qed
qed simp

text \<open>What a store must be for a selection: pools in order, pointers inside the store.\<close>

definition pools_ok :: "UserPlaneInformation \<Rightarrow> bool" where
  "pools_ok upi \<longleftrightarrow> list_all ue_ok (upi_pools upi)
     \<and> (\<forall>n\<in>set (upi_nodes upi). \<forall>upf. up_UPF n = Some upf \<longrightarrow> (\<forall>st. \<forall>k\<in>set (node_pools upf st). k < length (upi_pools upi)))"

lemma find_SomeD: "List.find P xs = Some x \<Longrightarrow> x \<in> set xs \<and> P x"
  by (induction xs) (auto split: if_splits)

lemma pool_with_SomeD: "pool_with pools ip ks = Some k \<Longrightarrow> k \<in> set ks \<and> IPNet_Contains (ueSubNet (pools ! k)) ip"
  unfolding pool_with_def by (drule find_SomeD) simp

lemma find_dnn_in: "find_dnn upf sel = Some d \<Longrightarrow> \<exists>i\<in>set (SNssaiInfos upf). d \<in> set (DnnList i)"
  unfolding find_dnn_def by (drule find_SomeD) auto

lemma in_node_pools:
  "k \<in> set (node_pools upf st) \<longleftrightarrow>
     (\<exists>i\<in>set (SNssaiInfos upf). \<exists>d\<in>set (DnnList i). k \<in> set (if st then StaticIPPools d else UeIPPools d))"
  by (simp add: node_pools_def)

lemma getUEIPPool_in:
  assumes "getUEIPPool pools upf sel = (ks, st)" and "k \<in> set ks"
  shows "k \<in> set (node_pools upf st)"
proof -
  obtain d where d: "find_dnn upf sel = Some d" using assms by (auto simp: getUEIPPool_def split: option.splits)
  then have "k \<in> set (if st then StaticIPPools d else UeIPPools d)"
    using assms by (auto simp: getUEIPPool_def split: option.splits dest: pool_with_SomeD)
  then show ?thesis using find_dnn_in [OF d] unfolding in_node_pools by blast
qed

definition node_ok :: "UserPlaneInformation \<Rightarrow> nat \<Rightarrow> bool" where
  "node_ok upi a \<longleftrightarrow> a < length (upi_nodes upi) \<and> up_UPF (upi_nodes upi ! a) \<noteq> None"

text \<open>What a selection among the UPFs \<open>as\<close> may return. Without a result, no pool changes and no pool that serves the selection on
  an associated UPF has an address for it. With a result, the UPF is one of them and associated, and exactly the address is
  taken out of exactly one of its pools for the data network.\<close>

definition selects ::
  "UserPlaneInformation \<Rightarrow> UPFSelectionParams \<Rightarrow> nat list \<Rightarrow> (nat \<times> bytes \<times> bool) option \<Rightarrow> UeIPPool list \<Rightarrow> bool" where
  "selects upi sel as r pools' \<longleftrightarrow>
     (case r of
        None \<Rightarrow> pools' = upi_pools upi
          \<and> (\<forall>a\<in>set as. \<forall>upf. up_UPF (upi_nodes upi ! a) = Some upf \<longrightarrow> upf_associated upf \<longrightarrow>
               (\<forall>k\<in>set (fst (getUEIPPool (upi_pools upi) upf sel)). wanted (sel_PDUAddress sel) (upi_pools upi ! k) = {}))
      | Some (a, ip, st) \<Rightarrow> a \<in> set as \<and> (\<exists>upf k. up_UPF (upi_nodes upi ! a) = Some upf \<and> upf_associated upf
          \<and> st = snd (getUEIPPool (upi_pools upi) upf sel) \<and> k \<in> set (fst (getUEIPPool (upi_pools upi) upf sel))
          \<and> ip \<in> wanted (sel_PDUAddress sel) (upi_pools upi ! k) \<and> takes_addr (upi_pools upi) k ip pools'))"

lemma alloc_upfs_spec:
  assumes ok: "pools_ok upi" and req: "req_ok (sel_PDUAddress sel)" and "\<forall>a\<in>set as. node_ok upi a"
  shows "\<exists>r pools'. alloc_upfs rnd m (upi_nodes upi) sel as (upi_pools upi) = Val (r, pools') \<and> selects upi sel as r pools'"
  using assms(3)
proof (induction as arbitrary: m)
  case (Cons a as)
  let ?pools = "upi_pools upi" and ?req = "sel_PDUAddress sel"
  obtain upf where upf: "up_UPF (upi_nodes upi ! a) = Some upf" "a < length (upi_nodes upi)"
    using Cons.prems by (auto simp: node_ok_def)
  obtain ks st where g: "getUEIPPool ?pools upf sel = (ks, st)" by fastforce
  have ks: "\<forall>k\<in>set ks. k < length ?pools"
    using getUEIPPool_in [OF g] ok upf(1) nth_mem [OF upf(2)] unfolding pools_ok_def by blast
  let ?rot = "rotate_from (rnd m (length ks)) ks"
  have rot: "set ?rot = set ks" by (metis append_take_drop_id rotate_from_def set_append sup_commute)
  obtain r pools' where al: "alloc_pools ?req ?rot ?pools = Val (r, pools')"
      "case r of None \<Rightarrow> pools' = ?pools \<and> (\<forall>k\<in>set ks. wanted ?req (?pools ! k) = {})
       | Some ip \<Rightarrow> \<exists>k\<in>set ks. ip \<in> wanted ?req (?pools ! k) \<and> takes_addr ?pools k ip pools'"
    using alloc_pools_spec [of ?pools ?req ?rot] ok req ks unfolding rot by (auto simp: pools_ok_def)
  show ?case
  proof (cases "upf_associated upf \<and> ks \<noteq> [] \<and> r \<noteq> None")
    case True
    then obtain ip where ip: "r = Some ip" by auto
    have "alloc_upfs rnd m (upi_nodes upi) sel (a # as) ?pools = Val (Some (a, ip, st), pools')"
      using True al(1) ip by (simp add: upf g)
    then show ?thesis using al(2) ip True upf g by (auto simp: selects_def)
  next
    case False
    then have "\<exists>n. alloc_upfs rnd m (upi_nodes upi) sel (a # as) ?pools = alloc_upfs rnd n (upi_nodes upi) sel as ?pools"
      using al by (cases "upf_associated upf"; cases "ks = []") (auto simp: upf g)
    then obtain n where n: "alloc_upfs rnd m (upi_nodes upi) sel (a # as) ?pools = alloc_upfs rnd n (upi_nodes upi) sel as ?pools" by blast
    have "upf_associated upf \<Longrightarrow> \<forall>k\<in>set ks. wanted ?req (?pools ! k) = {}" using False al(2) by auto
    moreover obtain r' pools' where "alloc_upfs rnd n (upi_nodes upi) sel as ?pools = Val (r', pools')" "selects upi sel as r' pools'"
      using Cons.IH [of n] Cons.prems by auto
    ultimately show ?thesis unfolding n using upf(1) g by (cases r') (auto simp: selects_def)
  qed
qed (simp add: selects_def)

lemma selects_cong: "set as = set bs \<Longrightarrow> selects upi sel as r p = selects upi sel bs r p"
  by (cases r) (auto simp: selects_def)

lemma set_rotate_from [simp]: "set (rotate_from n xs) = set xs"
  by (metis append_take_drop_id rotate_from_def set_append sup_commute)

text \<open>A topology in order: one access network to start from, links inside the store, pools in order, and every UPF is found by
  its address under a name the table of UPFs has.\<close>

definition names_ok :: "(NodeID \<Rightarrow> string) \<Rightarrow> UserPlaneInformation \<Rightarrow> bool" where
  "names_ok res upi \<longleftrightarrow> list_all (\<lambda>n. up_Type n = UPNODE_UPF \<longrightarrow> GetUPFNameByIp upi (res (up_NodeID n)) \<in> set (keys (UPFs upi))) (upi_nodes upi)"

definition topology_ok :: "(NodeID \<Rightarrow> string) \<Rightarrow> UserPlaneInformation \<Rightarrow> bool" where
  "topology_ok res upi \<longleftrightarrow> nodes_typed (upi_nodes upi) \<and> pred_option (search_ok (upi_nodes upi)) (selectUPPathSource upi)
     \<and> pools_ok upi \<and> names_ok res upi"

lemma source_is_AN: "selectUPPathSource upi = Some source \<Longrightarrow> up_Type (upi_nodes upi ! source) = UPNODE_AN"
  unfolding selectUPPathSource_def by (auto dest: find_SomeD)

lemma set_buckets: "set (concat (map (\<lambda>n. filter (\<lambda>a. n = f a) as) ns)) = {a \<in> set as. f a \<in> set ns}"
  by auto

lemma set_sortUPFListByName:
  assumes "names_ok res upi" and "\<forall>a\<in>set as. a < length (upi_nodes upi) \<and> up_Type (upi_nodes upi ! a) = UPNODE_UPF"
  shows "set (sortUPFListByName res upi as) = set as"
proof -
  have "GetUPFNameByIp upi (res (up_NodeID (upi_nodes upi ! a))) \<in> set (keys (UPFs upi))" if "a \<in> set as" for a
    using assms that unfolding names_ok_def list_all_length by blast
  then show ?thesis unfolding sortUPFListByName_def set_buckets set_sort by blast
qed

lemma select_spec:
  assumes ok: "topology_ok res upi" and req: "req_ok (sel_PDUAddress sel)"
  shows "\<exists>r pools'. SelectUPFAndAllocUEIP res rnd sel upi = Val (r, upi\<lparr>upi_pools := pools'\<rparr>)
    \<and> (case selectUPPathSource upi of
         None \<Rightarrow> r = None \<and> pools' = upi_pools upi
       | Some source \<Rightarrow> \<exists>as. selectAnchorUPF (upi_nodes upi) source sel = Some as
           \<and> list_all (anchor_ok (upi_nodes upi) source sel) as \<and> selects upi sel as r pools')"
proof (cases "selectUPPathSource upi")
  case None
  then show ?thesis by (simp add: SelectUPFAndAllocUEIP_def)
next
  case (Some source)
  let ?ns = "upi_nodes upi"
  have t: "nodes_typed ?ns" "search_ok ?ns source" "pools_ok upi" "names_ok res upi"
    using ok Some by (simp_all add: topology_ok_def)
  obtain as where as: "selectAnchorUPF ?ns source sel = Some as" "list_all (anchor_ok ?ns source sel) as"
    using selectAnchorUPF_spec [OF t(2,1) source_is_AN [OF Some]] by blast
  show ?thesis
  proof (cases as)
    case Nil
    then show ?thesis using Some as by (simp add: SelectUPFAndAllocUEIP_def selects_def)
  next
    case (Cons a0 as0)
    have a: "\<forall>a\<in>set as. a < length ?ns \<and> up_Type (?ns ! a) = UPNODE_UPF"
      using as(2) by (auto simp: list_all_iff anchor_ok_def)
    let ?sorted = "sortUPFListByName res upi as"
    let ?rot = "rotate_from (rnd 0 (length ?sorted)) ?sorted"
    have s: "set ?sorted = set as" by (rule set_sortUPFListByName [OF t(4) a])
    then have ne: "?sorted \<noteq> []" using Cons by auto
    have "\<forall>a\<in>set ?rot. node_ok upi a" using a nodes_typedD [OF t(1)] unfolding set_rotate_from s node_ok_def by blast
    then obtain r pools' where r: "alloc_upfs rnd 1 ?ns sel ?rot (upi_pools upi) = Val (r, pools')" "selects upi sel ?rot r pools'"
      using alloc_upfs_spec [OF t(3) req] by blast
    have "SelectUPFAndAllocUEIP res rnd sel upi = Val (r, upi\<lparr>upi_pools := pools'\<rparr>)"
      using Some as(1) r(1) ne unfolding SelectUPFAndAllocUEIP_def Cons by (simp add: Let_def)
    moreover have "selects upi sel as r pools'" using r(2) selects_cong [of ?rot as] s by simp
    ultimately show ?thesis using Some as by auto
  qed
qed

section \<open>Addresses are unique\<close>

text \<open>Sessions that ask for addresses and give them back, while UPFs become associated and are lost
  (\<open>sbi/processor/association.go\<close>). A session holds the UPF, the address and whether it is static; only what is held is
  given back.\<close>

definition set_associated :: "nat \<Rightarrow> bool \<Rightarrow> UserPlaneInformation \<Rightarrow> UserPlaneInformation" where
  "set_associated a b upi = upi\<lparr>upi_nodes := (upi_nodes upi)
     [a := (upi_nodes upi ! a)\<lparr>up_UPF := map_option (\<lambda>upf. upf\<lparr>upf_associated := b\<rparr>) (up_UPF (upi_nodes upi ! a))\<rparr>]\<rparr>"

datatype ue_event =
  SelectUE "nat \<Rightarrow> nat \<Rightarrow> nat" UPFSelectionParams
| ReleaseUE "nat \<times> bytes \<times> bool"
| AssociateUPF nat bool

fun ue_run :: "(NodeID \<Rightarrow> string) \<Rightarrow> ue_event list \<Rightarrow> (nat \<times> bytes \<times> bool) list \<Rightarrow> UserPlaneInformation
    \<Rightarrow> ((nat \<times> bytes \<times> bool) list \<times> UserPlaneInformation) gores" where
  "ue_run res [] held upi = Val (held, upi)"
| "ue_run res (SelectUE rnd sel # es) held upi =
     gbind (SelectUPFAndAllocUEIP res rnd sel upi) (\<lambda>(r, upi').
       ue_run res es (case r of None \<Rightarrow> held | Some h \<Rightarrow> h # held) upi')"
| "ue_run res (ReleaseUE h # es) held upi =
     (if h \<notin> set held then ue_run res es held upi
      else case h of (a, ip, st) \<Rightarrow> gbind (ReleaseUEIP a ip st upi) (ue_run res es (remove1 h held)))"
| "ue_run res (AssociateUPF a b # es) held upi = ue_run res es held (set_associated a b upi)"

text \<open>Pools that share no free address, and on each UPF no network among the static and none among the dynamic pools that
  overlaps another.\<close>

definition pools_apart :: "UserPlaneInformation \<Rightarrow> bool" where
  "pools_apart upi \<longleftrightarrow>
     (\<forall>j<length (upi_pools upi). \<forall>k<length (upi_pools upi). j \<noteq> k \<longrightarrow> ue_free (upi_pools upi ! j) \<inter> ue_free (upi_pools upi ! k) = {})
     \<and> (\<forall>n\<in>set (upi_nodes upi). \<forall>upf. up_UPF n = Some upf \<longrightarrow> (\<forall>st. \<forall>j\<in>set (node_pools upf st). \<forall>k\<in>set (node_pools upf st).
          j \<noteq> k \<longrightarrow> net_addrs (ueSubNet (upi_pools upi ! j)) \<inter> net_addrs (ueSubNet (upi_pools upi ! k)) = {}))"

text \<open>The invariant of a run: what is held is free in no pool, and the pool it came from is the one a release finds.\<close>

definition held_ok :: "UserPlaneInformation \<Rightarrow> nat \<times> bytes \<times> bool \<Rightarrow> bool" where
  "held_ok upi h \<longleftrightarrow> (case h of (a, ip, st) \<Rightarrow> node_ok upi a
     \<and> (\<exists>k\<in>set (node_pools (the (up_UPF (upi_nodes upi ! a))) st). ip \<in> net_addrs (ueSubNet (upi_pools upi ! k)))
     \<and> (\<forall>k<length (upi_pools upi). ip \<notin> ue_free (upi_pools upi ! k)))"

definition run_inv :: "(NodeID \<Rightarrow> string) \<Rightarrow> (nat \<times> bytes \<times> bool) list \<Rightarrow> UserPlaneInformation \<Rightarrow> bool" where
  "run_inv res held upi \<longleftrightarrow> topology_ok res upi \<and> pools_apart upi \<and> list_all (held_ok upi) held \<and> distinct (map (fst \<circ> snd) held)"

lemma pool_with_unique:
  assumes "k \<in> set ks" and "IPNet_Contains (ueSubNet (pools ! k)) ip" and "length ip = 4"
    and "\<forall>j\<in>set ks. j \<noteq> k \<longrightarrow> net_addrs (ueSubNet (pools ! j)) \<inter> net_addrs (ueSubNet (pools ! k)) = {}"
  shows "pool_with pools ip ks = Some k"
proof (cases "pool_with pools ip ks")
  case None
  then show ?thesis using assms(1,2) by (auto simp: pool_with_def find_None_iff)
next
  case (Some j)
  then show ?thesis using assms pool_with_SomeD [OF Some] by (auto simp: net_addrs_def)
qed

text \<open>Steps only change pools, and a pool keeps its network.\<close>

lemma keeps_nth: "list_all2 pool_keeps ps qs \<Longrightarrow> k < length ps \<Longrightarrow> ueSubNet (qs ! k) = ueSubNet (ps ! k)"
  by (auto simp: list_all2_conv_all_nth pool_keeps_def)

lemma topology_ok_step:
  assumes "topology_ok res upi" and "list_all2 pool_keeps (upi_pools upi) pools'"
  shows "topology_ok res (upi\<lparr>upi_pools := pools'\<rparr>)"
proof -
  have "list_all ue_ok pools'" "length pools' = length (upi_pools upi)"
    using assms(2) by (auto simp: list_all2_conv_all_nth list_all_length pool_keeps_def)
  then show ?thesis
    using assms(1) by (auto simp: topology_ok_def pools_ok_def names_ok_def selectUPPathSource_def GetUPFNameByIp_def)
qed

lemma free_after:
  assumes "map ue_free pools' = (map ue_free pools)[k := X]" and "j < length pools"
  shows "ue_free (pools' ! j) = (if j = k then X else ue_free (pools ! j))" and "length pools' = length pools"
proof -
  show l: "length pools' = length pools" using arg_cong [OF assms(1), of length] by simp
  have "map ue_free pools' ! j = (map ue_free pools)[k := X] ! j" using assms(1) by simp
  then show "ue_free (pools' ! j) = (if j = k then X else ue_free (pools ! j))"
    using assms(2) l by (auto simp: nth_list_update)
qed

lemma pools_apart_step:
  assumes "pools_apart upi" and "list_all2 pool_keeps (upi_pools upi) pools'" and "pools_ok upi"
    and "map ue_free pools' = (map ue_free (upi_pools upi))[k := X]" and "k < length (upi_pools upi)"
    and "\<forall>j<length (upi_pools upi). j \<noteq> k \<longrightarrow> X \<inter> ue_free (upi_pools upi ! j) = {}"
  shows "pools_apart (upi\<lparr>upi_pools := pools'\<rparr>)"
proof -
  have l: "length pools' = length (upi_pools upi)" using assms(2) by (simp add: list_all2_lengthD)
  have "ue_free (pools' ! i) \<inter> ue_free (pools' ! j) = {}" if "i < length pools'" "j < length pools'" "i \<noteq> j" for i j
    using assms(1,6) that by (auto simp: free_after [OF assms(4)] l pools_apart_def)
  moreover have "ueSubNet (pools' ! j) = ueSubNet (upi_pools upi ! j)"
    if "n \<in> set (upi_nodes upi)" "up_UPF n = Some upf" "j \<in> set (node_pools upf st)" for n upf st j
    using that assms(3) keeps_nth [OF assms(2)] unfolding pools_ok_def by blast
  ultimately show ?thesis using assms(1) unfolding pools_apart_def by simp
qed

lemma held_ok_step:
  assumes "held_ok upi (a, ip, st)" and "list_all2 pool_keeps (upi_pools upi) pools'" and "pools_ok upi"
    and "\<forall>j<length (upi_pools upi). ip \<notin> ue_free (pools' ! j)"
  shows "held_ok (upi\<lparr>upi_pools := pools'\<rparr>) (a, ip, st)"
proof -
  have l: "length pools' = length (upi_pools upi)" using assms(2) by (simp add: list_all2_lengthD)
  obtain k upf where k: "a < length (upi_nodes upi)" "up_UPF (upi_nodes upi ! a) = Some upf" "k \<in> set (node_pools upf st)"
      "ip \<in> net_addrs (ueSubNet (upi_pools upi ! k))"
    using assms(1) by (auto simp: held_ok_def node_ok_def)
  have "ueSubNet (pools' ! k) = ueSubNet (upi_pools upi ! k)"
    using keeps_nth [OF assms(2)] assms(3) k(2,3) nth_mem [OF k(1)] unfolding pools_ok_def by blast
  then have "\<exists>k\<in>set (node_pools upf st). ip \<in> net_addrs (ueSubNet (pools' ! k))" using k(3,4) by (intro bexI [of _ k]) simp_all
  then show ?thesis using k(1,2) assms(4) l by (simp add: held_ok_def node_ok_def)
qed

text \<open>What a selection that returns does to the pools.\<close>

definition selection_effect :: "UserPlaneInformation \<Rightarrow> (nat \<times> bytes \<times> bool) option \<Rightarrow> UserPlaneInformation \<Rightarrow> bool" where
  "selection_effect upi r upi' \<longleftrightarrow> (case r of None \<Rightarrow> upi' = upi
     | Some (a, ip, st) \<Rightarrow> \<exists>pools' k. upi' = upi\<lparr>upi_pools := pools'\<rparr> \<and> node_ok upi a
         \<and> k \<in> set (node_pools (the (up_UPF (upi_nodes upi ! a))) st) \<and> takes_addr (upi_pools upi) k ip pools')"

lemma selects_effect:
  assumes "selects upi sel as r pools'" and "list_all (anchor_ok (upi_nodes upi) source sel) as"
  shows "selection_effect upi r (upi\<lparr>upi_pools := pools'\<rparr>)"
proof (cases r)
  case None
  then show ?thesis using assms(1) by (simp add: selects_def selection_effect_def)
next
  case (Some h)
  obtain a ip st where h: "h = (a, ip, st)" by (cases h)
  obtain upf k where s: "a \<in> set as" "up_UPF (upi_nodes upi ! a) = Some upf" "st = snd (getUEIPPool (upi_pools upi) upf sel)"
      "k \<in> set (fst (getUEIPPool (upi_pools upi) upf sel))" "takes_addr (upi_pools upi) k ip pools'"
    using assms(1) unfolding Some h selects_def by auto
  have "node_ok upi a" using assms(2) s(1,2) by (simp add: list_all_iff anchor_ok_def node_ok_def)
  moreover have "k \<in> set (node_pools upf st)" by (rule getUEIPPool_in [OF _ s(4)]) (simp add: s(3))
  ultimately show ?thesis using s(2,5) unfolding Some h selection_effect_def by auto
qed

lemma select_effect:
  assumes "topology_ok res upi" and "req_ok (sel_PDUAddress sel)"
  shows "\<exists>r upi'. SelectUPFAndAllocUEIP res rnd sel upi = Val (r, upi') \<and> selection_effect upi r upi'"
proof (cases "selectUPPathSource upi")
  case None
  then show ?thesis by (simp add: SelectUPFAndAllocUEIP_def selection_effect_def)
next
  case (Some source)
  then show ?thesis using select_spec [OF assms, of rnd] selects_effect by auto
qed

lemma run_inv_select:
  assumes inv: "run_inv res held upi" and eff: "selection_effect upi r upi'"
  shows "run_inv res (case r of None \<Rightarrow> held | Some h \<Rightarrow> h # held) upi'"
proof (cases r)
  case None
  then show ?thesis using assms by (simp add: selection_effect_def)
next
  case (Some h)
  obtain a ip st where h: "h = (a, ip, st)" by (cases h)
  have t: "topology_ok res upi" "pools_apart upi" "list_all (held_ok upi) held" "distinct (map (fst \<circ> snd) held)"
    using inv by (simp_all add: run_inv_def)
  have ok: "pools_ok upi" using t(1) by (simp add: topology_ok_def)
  obtain pools' k where p: "upi' = upi\<lparr>upi_pools := pools'\<rparr>" and a: "node_ok upi a"
      and kn: "k \<in> set (node_pools (the (up_UPF (upi_nodes upi ! a))) st)" and tk: "takes_addr (upi_pools upi) k ip pools'"
    using eff unfolding Some h selection_effect_def by auto
  have tk: "k < length (upi_pools upi)" "ip \<in> ue_free (upi_pools upi ! k)" "list_all2 pool_keeps (upi_pools upi) pools'"
      "map ue_free pools' = (map ue_free (upi_pools upi))[k := ue_free (upi_pools upi ! k) - {ip}]"
    using tk by (simp_all add: takes_addr_def)
  have ue: "ue_ok (upi_pools upi ! k)" using ok tk(1) by (simp add: pools_ok_def list_all_length)
  have dj: "ip \<notin> ue_free (upi_pools upi ! j)" if "j < length (upi_pools upi)" "j \<noteq> k" for j
    using t(2) tk(1,2) that unfolding pools_apart_def by blast
  have fr: "\<forall>j<length (upi_pools upi). ip \<notin> ue_free (pools' ! j)"
    using dj by (simp add: free_after [OF tk(4)])
  have fr': "\<forall>j<length (upi_pools upi). i \<notin> ue_free (pools' ! j)" if "\<forall>j<length (upi_pools upi). i \<notin> ue_free (upi_pools upi ! j)" for i
    using that by (simp add: free_after [OF tk(4)])
  have free: "\<forall>j<length (upi_pools upi). fst (snd x) \<notin> ue_free (upi_pools upi ! j)" if "x \<in> set held" for x
    using t(3) that by (cases x) (auto simp: list_all_iff held_ok_def)
  then have new: "ip \<notin> set (map (fst \<circ> snd) held)" using tk(1,2) by auto
  have apart: "pools_apart upi'" unfolding p
    by (rule pools_apart_step [OF t(2) tk(3) ok tk(4,1)]) (use t(2) tk(1) in \<open>auto simp: pools_apart_def\<close>)
  have "held_ok upi' x" if "x \<in> set held" for x
    using held_ok_step [OF _ tk(3) ok fr', of "fst x" "fst (snd x)" "snd (snd x)"] free [OF that] t(3) that
    by (simp add: p list_all_iff)
  moreover have "held_ok upi' h"
  proof -
    have "ip \<in> net_addrs (ueSubNet (pools' ! k))" using ue_free_net [OF ue] tk(2) keeps_nth [OF tk(3,1)] by auto
    then show ?thesis using a kn fr free_after(2) [OF tk(4,1)] by (auto simp: h p held_ok_def node_ok_def)
  qed
  ultimately show ?thesis using Some h new apart topology_ok_step [OF t(1) tk(3)] t(4) by (simp add: run_inv_def p list_all_iff)
qed

lemma ReleaseUEIP_held:
  assumes "pools_ok upi" and "pools_apart upi" and "held_ok upi (a, ip, st)"
  shows "\<exists>pools' k. ReleaseUEIP a ip st upi = Val (upi\<lparr>upi_pools := pools'\<rparr>) \<and> gives_addr (upi_pools upi) k ip pools'"
proof -
  let ?pools = "upi_pools upi"
  obtain upf k where k: "a < length (upi_nodes upi)" "up_UPF (upi_nodes upi ! a) = Some upf" "k \<in> set (node_pools upf st)"
      "ip \<in> net_addrs (ueSubNet (?pools ! k))" "\<forall>j<length ?pools. ip \<notin> ue_free (?pools ! j)"
    using assms(3) by (auto simp: held_ok_def node_ok_def)
  have n: "upi_nodes upi ! a \<in> set (upi_nodes upi)" using k(1) by simp
  have l: "k < length ?pools" using assms(1) n k(2,3) unfolding pools_ok_def by blast
  have "\<forall>j\<in>set (node_pools upf st). j \<noteq> k \<longrightarrow> net_addrs (ueSubNet (?pools ! j)) \<inter> net_addrs (ueSubNet (?pools ! k)) = {}"
    using assms(2) n k(2,3) unfolding pools_apart_def by blast
  then have f: "findPoolByAddr ?pools upf ip st = Some k"
    using pool_with_unique [OF k(3)] k(4) by (simp add: findPoolByAddr_def net_addrs_def)
  have ue: "list_all ue_ok ?pools" using assms(1) by (simp add: pools_ok_def)
  then obtain q where q: "UeIPPool_Release ip (?pools ! k) = Some q" "pool_keeps (?pools ! k) q"
      "ue_free q = insert ip (ue_free (?pools ! k))"
    using Release_this [OF _ k(4)] k(5) l by (auto simp: list_all_length)
  have "gives_addr ?pools k ip (?pools[k := q])"
    using l q(2,3) keeps_update [OF ue l q(2)] by (simp add: gives_addr_def map_update)
  then show ?thesis using f q(1) k(2) by (auto simp: ReleaseUEIP_def)
qed

lemma run_inv_release:
  assumes inv: "run_inv res held upi" and h: "(a, ip, st) \<in> set held" and g: "gives_addr (upi_pools upi) k ip pools'"
  shows "run_inv res (remove1 (a, ip, st) held) (upi\<lparr>upi_pools := pools'\<rparr>)"
proof -
  have t: "topology_ok res upi" "pools_apart upi" "list_all (held_ok upi) held" "distinct (map (fst \<circ> snd) held)"
    using inv by (simp_all add: run_inv_def)
  have ok: "pools_ok upi" using t(1) by (simp add: topology_ok_def)
  have g: "k < length (upi_pools upi)" "list_all2 pool_keeps (upi_pools upi) pools'"
      "map ue_free pools' = (map ue_free (upi_pools upi))[k := insert ip (ue_free (upi_pools upi ! k))]"
    using g by (simp_all add: gives_addr_def)
  have free: "\<forall>j<length (upi_pools upi). fst (snd x) \<notin> ue_free (upi_pools upi ! j)" if "x \<in> set held" for x
    using t(3) that by (cases x) (auto simp: list_all_iff held_ok_def)
  have d: "distinct held" using t(4) by (simp add: distinct_map)
  have ne: "fst (snd x) \<noteq> ip" if "x \<in> set (remove1 (a, ip, st) held)" for x
    using inj_onD [OF conjunct2 [OF t(4) [unfolded distinct_map]], of x "(a, ip, st)"] h d that by auto
  have "held_ok (upi\<lparr>upi_pools := pools'\<rparr>) x" if x: "x \<in> set (remove1 (a, ip, st) held)" for x
  proof -
    have m: "x \<in> set held" using x by (meson notin_set_remove1)
    have "\<forall>j<length (upi_pools upi). fst (snd x) \<notin> ue_free (pools' ! j)"
      using free [OF m] ne [OF x] by (simp add: free_after [OF g(3)])
    then show ?thesis
      using held_ok_step [OF _ g(2) ok, of "fst x" "fst (snd x)" "snd (snd x)"] t(3) m by (simp add: list_all_iff)
  qed
  moreover have "pools_apart (upi\<lparr>upi_pools := pools'\<rparr>)"
    by (rule pools_apart_step [OF t(2) g(2) ok g(3,1)]) (use t(2) g(1) free [OF h] in \<open>auto simp: pools_apart_def\<close>)
  moreover have "distinct (map (fst \<circ> snd) (remove1 (a, ip, st) held))"
    using t(4) d by (simp add: distinct_map inj_on_def)
  ultimately show ?thesis using topology_ok_step [OF t(1) g(2)] by (simp add: run_inv_def list_all_iff)
qed

text \<open>Requests a run may contain: one for a given address gives four bytes.\<close>

fun event_ok :: "ue_event \<Rightarrow> bool" where
  "event_ok (SelectUE rnd sel) = req_ok (sel_PDUAddress sel)"
| "event_ok (ReleaseUE h) = True"
| "event_ok (AssociateUPF a b) = True"

text \<open>An association changes nothing the invariant looks at.\<close>

lemma set_associated_same [simp]:
  "upi_pools (set_associated a b upi) = upi_pools upi" "AccessNetwork (set_associated a b upi) = AccessNetwork upi"
  "UPFs (set_associated a b upi) = UPFs upi" "UPFIPToName (set_associated a b upi) = UPFIPToName upi"
  "length (upi_nodes (set_associated a b upi)) = length (upi_nodes upi)"
  by (simp_all add: set_associated_def)

lemma set_associated_node:
  fixes a b upi n defines "u \<equiv> upi_nodes (set_associated a b upi) ! n"
  shows "up_Type u = up_Type (upi_nodes upi ! n)" "up_NodeID u = up_NodeID (upi_nodes upi ! n)"
    "up_Links u = up_Links (upi_nodes upi ! n)" "up_UPF u = None \<longleftrightarrow> up_UPF (upi_nodes upi ! n) = None"
    "map_option SNssaiInfos (up_UPF u) = map_option SNssaiInfos (up_UPF (upi_nodes upi ! n))"
proof -
  have u: "u = (if n = a \<and> a < length (upi_nodes upi)
     then (upi_nodes upi ! a)\<lparr>up_UPF := map_option (\<lambda>upf. upf\<lparr>upf_associated := b\<rparr>) (up_UPF (upi_nodes upi ! a))\<rparr> else upi_nodes upi ! n)"
    unfolding u_def set_associated_def by (cases "a < length (upi_nodes upi)") (simp_all add: nth_list_update list_update_beyond)
  show "up_Type u = up_Type (upi_nodes upi ! n)" "up_NodeID u = up_NodeID (upi_nodes upi ! n)"
    "up_Links u = up_Links (upi_nodes upi ! n)" "up_UPF u = None \<longleftrightarrow> up_UPF (upi_nodes upi ! n) = None"
    unfolding u by auto
  show "map_option SNssaiInfos (up_UPF u) = map_option SNssaiInfos (up_UPF (upi_nodes upi ! n))"
    unfolding u by (cases "up_UPF (upi_nodes upi ! n)") auto
qed

lemma set_associated_upf:
  assumes "up_UPF (upi_nodes (set_associated a b upi) ! n) = Some upf"
  obtains upf' where "up_UPF (upi_nodes upi ! n) = Some upf'" "node_pools upf = node_pools upf'"
proof -
  obtain upf' where u: "up_UPF (upi_nodes upi ! n) = Some upf'" "SNssaiInfos upf = SNssaiInfos upf'"
    using set_associated_node(5) [of a b upi n] assms by (cases "up_UPF (upi_nodes upi ! n)") auto
  show thesis by (intro that [OF u(1)] ext) (simp add: node_pools_def u(2))
qed

lemma set_associated_upfs:
  assumes "m \<in> set (upi_nodes (set_associated a b upi))" and "up_UPF m = Some upf"
  shows "\<exists>n\<in>set (upi_nodes upi). \<exists>upf'. up_UPF n = Some upf' \<and> node_pools upf = node_pools upf'"
proof -
  obtain n where n: "n < length (upi_nodes upi)" "m = upi_nodes (set_associated a b upi) ! n"
    using assms(1) by (auto simp: in_set_conv_nth)
  obtain upf' where "up_UPF (upi_nodes upi ! n) = Some upf'" "node_pools upf = node_pools upf'"
    by (rule set_associated_upf) (use assms(2) n(2) in simp)
  then show ?thesis using n(1) nth_mem by blast
qed

lemma topology_ok_associated:
  assumes "topology_ok res upi"
  shows "topology_ok res (set_associated a b upi)"
proof -
  let ?u = "set_associated a b upi"
  have "selectUPPathSource ?u = selectUPPathSource upi" by (simp add: selectUPPathSource_def set_associated_node)
  moreover have "nodes_typed (upi_nodes ?u)"
    using assms by (simp add: topology_ok_def nodes_typed_def list_all_length set_associated_node del: not_None_eq)
  moreover have "search_ok (upi_nodes ?u) s" if "search_ok (upi_nodes upi) s" for s
    using that by (simp add: search_ok_def links_ok_def list_all_length set_associated_node del: not_None_eq)
  moreover have "names_ok res ?u"
    using assms by (simp add: topology_ok_def names_ok_def list_all_length set_associated_node GetUPFNameByIp_def)
  moreover have "pools_ok ?u"
  proof -
    have "k < length (upi_pools upi)" if "m \<in> set (upi_nodes ?u)" "up_UPF m = Some upf" "k \<in> set (node_pools upf st)" for m upf st k
      using set_associated_upfs [OF that(1,2)] that(3) assms unfolding topology_ok_def pools_ok_def by auto
    then show ?thesis using assms by (simp add: topology_ok_def pools_ok_def)
  qed
  ultimately show ?thesis using assms by (cases "selectUPPathSource upi") (simp_all add: topology_ok_def)
qed

lemma run_inv_associated:
  assumes "run_inv res held upi"
  shows "run_inv res held (set_associated a b upi)"
proof -
  let ?u = "set_associated a b upi"
  have "net_addrs (ueSubNet (upi_pools upi ! j)) \<inter> net_addrs (ueSubNet (upi_pools upi ! k)) = {}"
    if m: "m \<in> set (upi_nodes ?u)" "up_UPF m = Some upf" "j \<in> set (node_pools upf st)" "k \<in> set (node_pools upf st)" "j \<noteq> k" for m upf st j k
  proof -
    obtain n upf' where "n \<in> set (upi_nodes upi)" "up_UPF n = Some upf'" "node_pools upf = node_pools upf'"
      using set_associated_upfs [OF m(1,2)] by blast
    then show ?thesis using m(3-) assms unfolding run_inv_def pools_apart_def by metis
  qed
  then have "pools_apart ?u" using assms unfolding run_inv_def pools_apart_def by simp
  moreover have "held_ok ?u h" if h: "held_ok upi h" for h
  proof -
    obtain n ip st where n: "h = (n, ip, st)" by (cases h)
    obtain upf where "up_UPF (upi_nodes ?u ! n) = Some upf"
      using h set_associated_node(4) [of a b upi n] by (auto simp: n held_ok_def node_ok_def)
    moreover from this obtain upf' where "up_UPF (upi_nodes upi ! n) = Some upf'" "node_pools upf = node_pools upf'"
      by (rule set_associated_upf)
    ultimately show ?thesis using h by (simp add: n held_ok_def node_ok_def)
  qed
  ultimately show ?thesis using assms topology_ok_associated by (auto simp: run_inv_def list_all_iff)
qed

lemma ue_run_inv:
  assumes "run_inv res held upi" and "list_all event_ok es"
  shows "\<exists>held' upi'. ue_run res es held upi = Val (held', upi') \<and> run_inv res held' upi'"
  using assms
proof (induction es arbitrary: held upi)
  case (Cons e es)
  show ?case
  proof (cases e)
    case (SelectUE rnd sel)
    have "topology_ok res upi" using Cons.prems(1) by (simp add: run_inv_def)
    moreover have "req_ok (sel_PDUAddress sel)" using Cons.prems(2) SelectUE by simp
    ultimately obtain r upi' where r: "SelectUPFAndAllocUEIP res rnd sel upi = Val (r, upi')" "selection_effect upi r upi'"
      using select_effect by blast
    then show ?thesis
      using Cons.IH [OF run_inv_select [OF Cons.prems(1) r(2)]] Cons.prems(2) SelectUE by simp
  next
    case (ReleaseUE h)
    obtain a ip st where h: "h = (a, ip, st)" by (cases h)
    show ?thesis
    proof (cases "h \<in> set held")
      case True
      then have "pools_ok upi" "pools_apart upi" "held_ok upi (a, ip, st)"
        using Cons.prems(1) h by (auto simp: run_inv_def topology_ok_def list_all_iff)
      then obtain pools' k where p: "ReleaseUEIP a ip st upi = Val (upi\<lparr>upi_pools := pools'\<rparr>)" "gives_addr (upi_pools upi) k ip pools'"
        using ReleaseUEIP_held by blast
      then show ?thesis
        using Cons.IH [OF run_inv_release [OF Cons.prems(1) True [unfolded h] p(2)]] Cons.prems(2) True
        unfolding ReleaseUE h by simp
    qed (use Cons in \<open>simp add: ReleaseUE\<close>)
  next
    case (AssociateUPF a b)
    then show ?thesis using Cons.IH [OF run_inv_associated [OF Cons.prems(1)]] Cons.prems(2) by simp
  qed
qed simp

end
