(* ===== verification/Smf_Startup.thy ===== *)
theory Smf_Startup
  imports Smf_User_Plane
begin

text \<open>
  From the configuration of the SMF to the addresses of its sessions: what \<open>NewUserPlaneInformation\<close> builds is a topology the
  searches and the selection can rely on, so that no two sessions ever hold the same address. The last section has the
  configurations and operations for which this fails.
\<close>

section \<open>Pools at start-up\<close>

definition v4_cidr :: "string \<Rightarrow> bool" where
  "v4_cidr c \<longleftrightarrow> (case ParseCIDR c of None \<Rightarrow> False | Some n \<Rightarrow> length (net_IP n) = 4)"

lemma Reserve_keeps: "pool_inv p \<Longrightarrow> pool_inv (snd (Reserve f l p)) \<and> same_range p (snd (Reserve f l p))"
  using Reserve_takes [of p f l] by (cases "Contains p f l") (auto simp: Reserve_def)

lemma reserve_edges_ok:
  assumes "list_all ue_ok st" and "d < length st"
  shows "list_all ue_ok (reserve_edges d st)"
proof -
  let ?p = "st ! d" let ?f = "p_first (ue_pool ?p)" and ?l = "p_last (ue_pool ?p)"
  let ?q = "snd (Reserve ?l ?l (snd (Reserve ?f ?f (ue_pool ?p))))"
  have ok: "ue_ok ?p" using assms by (simp add: list_all_length)
  then have "pool_inv (ue_pool ?p)" by (simp add: ue_ok_def)
  then have "pool_inv ?q \<and> same_range (ue_pool ?p) ?q" using Reserve_keeps by metis
  then have "ue_ok (?p\<lparr>ue_pool := ?q\<rparr>)" using pool_keepsI [OF ok, of ?q] by (simp add: pool_keeps_def)
  then show ?thesis using assms by (auto simp: reserve_edges_def Let_def Min_of_def Max_of_def list_all_length nth_list_update)
qed

lemma length_reserve_edges [simp]: "length (reserve_edges d st) = length st"
  by (simp add: reserve_edges_def Let_def)

lemma length_fold_reserve_edges [simp]: "length (fold reserve_edges ds st) = length st"
  by (induction ds arbitrary: st) simp_all

lemma fold_reserve_edges_ok:
  "list_all ue_ok st \<Longrightarrow> \<forall>d\<in>set ds. d < length st \<Longrightarrow> list_all ue_ok (fold reserve_edges ds st)"
  by (induction ds arbitrary: st) (simp_all add: reserve_edges_ok)

text \<open>What a step of the construction does to the store of pools: new pools at its end, all in order; \<open>ps\<close> are their pointers.\<close>

definition grows :: "UeIPPool list \<Rightarrow> nat list \<Rightarrow> UeIPPool list \<Rightarrow> bool" where
  "grows st ps st' \<longleftrightarrow> length st \<le> length st' \<and> ps = [length st..<length st'] \<and> (list_all ue_ok st \<longrightarrow> list_all ue_ok st')"

lemma upt_split: "i \<le> j \<Longrightarrow> j \<le> k \<Longrightarrow> [i..<j] @ [j..<k] = [i..<k]"
  by (metis le_add_diff_inverse upt_add_eq_append)

lemma grows_trans: "grows st ps st' \<Longrightarrow> grows st' qs st'' \<Longrightarrow> grows st (ps @ qs) st''"
  by (simp add: grows_def upt_split)

lemma gbind_Val_iff [simp]: "gbind r f = Val b \<longleftrightarrow> (\<exists>a. r = Val a \<and> f a = Val b)"
  by (cases r) auto

lemma new_pools_grows:
  "new_pools cs st = Val (ps, st') \<Longrightarrow> list_all v4_cidr cs \<Longrightarrow> grows st ps st'"
proof (induction cs arbitrary: st ps)
  case Nil
  then show ?case by (simp add: grows_def)
next
  case (Cons c cs)
  then obtain n where n: "ParseCIDR c = Some n" "length (net_IP n) = 4" by (auto simp: v4_cidr_def split: option.splits)
  obtain p where p: "NewUEIPPool c = Some (Some p)" "ue_ok p" by (rule NewUEIPPool_ok [OF n])
  then obtain qs where q: "new_pools cs (st @ [p]) = Val (qs, st')" "ps = length st # qs"
    using Cons.prems(1) by auto
  have "grows (st @ [p]) qs st'" using Cons.IH [OF q(1)] Cons.prems(2) by simp
  then show ?case using p(2) q(2) by (auto simp: grows_def upt_conv_Cons)
qed

definition dnn_plain :: "DnnUpfInfoConfig \<Rightarrow> bool" where
  "dnn_plain c \<longleftrightarrow> list_all v4_cidr (dc_Pools c) \<and> dc_StaticPools c = []"

lemma new_dnn_grows:
  assumes "new_dnn edges c st = Val (d, st')" and "dnn_plain c"
  shows "grows st (UeIPPools d) st' \<and> StaticIPPools d = []"
proof -
  obtain ps st1 where p: "new_pools (dc_Pools c) st = Val (ps, st1)" "UeIPPools d = ps" "StaticIPPools d = []"
      "st' = (if edges then fold reserve_edges ps st1 else st1)"
    using assms by (auto simp: new_dnn_def dnn_plain_def)
  have g: "grows st ps st1" using new_pools_grows [OF p(1)] assms(2) by (simp add: dnn_plain_def)
  then show ?thesis using fold_reserve_edges_ok [of st1 ps] p(2-) by (auto simp: grows_def)
qed

lemma new_dnns_grows:
  "new_dnns edges cs st = Val (ds, st') \<Longrightarrow> list_all dnn_plain cs \<Longrightarrow>
     grows st (concat (map UeIPPools ds)) st' \<and> list_all (\<lambda>d. StaticIPPools d = []) ds"
proof (induction cs arbitrary: st ds)
  case (Cons c cs)
  obtain d st1 es where d: "new_dnn edges c st = Val (d, st1)" "new_dnns edges cs st1 = Val (es, st')" "ds = d # es"
    using Cons.prems(1) by auto
  then show ?case using new_dnn_grows [OF d(1)] Cons.IH [OF d(2)] Cons.prems(2) by (auto intro: grows_trans)
qed (simp add: grows_def)

lemma new_snssais_grows:
  "new_snssais edges cs st = Val (infos, st') \<Longrightarrow> list_all (\<lambda>i. list_all dnn_plain (sc_DnnUpfInfoList i)) cs \<Longrightarrow>
     grows st (concat (map UeIPPools (concat (map DnnList infos)))) st' \<and> list_all (\<lambda>d. StaticIPPools d = []) (concat (map DnnList infos))"
proof (induction cs arbitrary: st infos)
  case (Cons c cs)
  obtain ds st1 infos1 where d: "new_dnns edges (sc_DnnUpfInfoList c) st = Val (ds, st1)" "new_snssais edges cs st1 = Val (infos1, st')"
      "infos = \<lparr>si_SNssai = sc_SNssai c, DnnList = ds\<rparr> # infos1"
    using Cons.prems(1) by auto
  then show ?case using new_dnns_grows [OF d(1)] Cons.IH [OF d(2)] Cons.prems(2) by (auto intro: grows_trans)
qed (simp add: grows_def)

section \<open>Nodes at start-up\<close>

text \<open>A configuration of UPFs and at most one access network, as the searches need it: IPv4 pools, no static pools, and no UPF
  whose Node ID resolves like the empty Node ID of an access network.\<close>

definition node_plain :: "(NodeID \<Rightarrow> string) \<Rightarrow> string \<times> UPNodeConfig \<Rightarrow> bool" where
  "node_plain res nc \<longleftrightarrow> (case nc of (name, n) \<Rightarrow>
     nc_Type n = UPNODE_AN
     \<or> nc_Type n = UPNODE_UPF \<and> list_all (\<lambda>i. list_all dnn_plain (sc_DnnUpfInfoList i)) (nc_SNssaiInfos n)
         \<and> res (config_NodeID (nc_NodeID n)) \<noteq> res (NodeIdTypeIpv4Address []))"

definition config_ok :: "(NodeID \<Rightarrow> string) \<Rightarrow> UPTopology \<Rightarrow> bool" where
  "config_ok res t \<longleftrightarrow> distinct (keys (cfg_UPNodes t)) \<and> list_all (node_plain res) (cfg_UPNodes t)
     \<and> length (filter (\<lambda>(_, n). nc_Type n = UPNODE_AN) (cfg_UPNodes t)) \<le> 1"

text \<open>What holds after the nodes \<open>pre\<close> of the configuration.\<close>

definition built :: "(NodeID \<Rightarrow> string) \<Rightarrow> (string \<times> UPNodeConfig) list \<Rightarrow> UserPlaneInformation \<Rightarrow> bool" where
  "built res pre upi \<longleftrightarrow>
     map up_Type (upi_nodes upi) = map (nc_Type \<circ> snd) pre \<and> UPNodes upi = zip (keys pre) [0..<length pre]
     \<and> nodes_typed (upi_nodes upi) \<and> list_all (\<lambda>n. up_Links n = []) (upi_nodes upi)
     \<and> set (keys (UPFs upi)) \<subseteq> set (keys pre) \<and> set (keys (AccessNetwork upi)) \<subseteq> set (keys pre)"

definition built_pools :: "UserPlaneInformation \<Rightarrow> bool" where
  "built_pools upi \<longleftrightarrow> list_all ue_ok (upi_pools upi) \<and> dynamic_pools upi = [0..<length (upi_pools upi)]
     \<and> (\<forall>(name, a)\<in>set (UPFs upi). a < length (upi_nodes upi))
     \<and> (\<forall>n\<in>set (upi_nodes upi). \<forall>upf. up_UPF n = Some upf \<longrightarrow> node_pools upf True = [] \<and> (\<forall>k\<in>set (node_pools upf False). k < length (upi_pools upi)))"

definition built_names :: "(NodeID \<Rightarrow> string) \<Rightarrow> UserPlaneInformation \<Rightarrow> bool" where
  "built_names res upi \<longleftrightarrow>
     (\<forall>(name, a)\<in>set (AccessNetwork upi). a < length (upi_nodes upi))
     \<and> (\<forall>n\<in>set (upi_nodes upi). up_Type n = UPNODE_UPF \<longrightarrow>
          res (up_NodeID n) \<noteq> res (NodeIdTypeIpv4Address []) \<and> map_of (UPFIPToName upi) (res (up_NodeID n)) \<noteq> None)
     \<and> (\<forall>r name. map_of (UPFIPToName upi) r = Some name \<longrightarrow> r \<noteq> res (NodeIdTypeIpv4Address []) \<longrightarrow> name \<in> set (keys (UPFs upi)))"

lemma mput_new: "k \<notin> set (keys m) \<Longrightarrow> mput k v m = m @ [(k, v)]"
  by (induction m) auto

lemma new_node_cases:
  assumes "new_node res newid True (name, c) upi = Val upi'" and "node_plain res (name, c)"
  obtains
    (AN) ip where "nc_Type c = UPNODE_AN"
      "upi' = upi\<lparr>upi_nodes := upi_nodes upi @ [\<lparr>up_Name = name, up_Type = UPNODE_AN, up_NodeID = NodeIdTypeIpv4Address [], up_ANIP = ip,
           up_Links = [], up_UPF = None\<rparr>], AccessNetwork := mput name (length (upi_nodes upi)) (AccessNetwork upi),
         UPNodes := mput name (length (upi_nodes upi)) (UPNodes upi), UPFIPToName := mput (res (NodeIdTypeIpv4Address [])) name (UPFIPToName upi)\<rparr>"
  | (UPF) upf pools where "nc_Type c = UPNODE_UPF" "res (config_NodeID (nc_NodeID c)) \<noteq> res (NodeIdTypeIpv4Address [])"
      "grows (upi_pools upi) (node_pools upf False) pools" "node_pools upf True = []"
      "upi' = upi\<lparr>upi_pools := pools, upi_nodes := upi_nodes upi @ [\<lparr>up_Name = name, up_Type = UPNODE_UPF,
           up_NodeID = config_NodeID (nc_NodeID c), up_ANIP = None, up_Links = [], up_UPF = Some upf\<rparr>],
         UPFs := mput name (length (upi_nodes upi)) (UPFs upi), UPNodes := mput name (length (upi_nodes upi)) (UPNodes upi),
         UPFIPToName := mput (res (config_NodeID (nc_NodeID c))) name (UPFIPToName upi)\<rparr>"
proof (cases "nc_Type c = UPNODE_AN")
  case True
  then show thesis by (rule AN [of "ParseIP (nc_ANIP c)"]) (use True assms(1) in \<open>auto simp: new_node_def Let_def\<close>)
next
  case False
  then have u: "nc_Type c = UPNODE_UPF" "list_all (\<lambda>i. list_all dnn_plain (sc_DnnUpfInfoList i)) (nc_SNssaiInfos c)"
      "res (config_NodeID (nc_NodeID c)) \<noteq> res (NodeIdTypeIpv4Address [])"
    using assms(2) by (auto simp: node_plain_def)
  obtain infos pools where i: "new_snssais True (nc_SNssaiInfos c) (upi_pools upi) = Val (infos, pools)"
    using assms(1) u(1) by (auto simp: new_node_def Let_def)
  let ?upf = "(NewUPF (newid (length (upi_nodes upi))) (config_NodeID (nc_NodeID c)) (nc_Interfaces c))
    \<lparr>upf_Addr := nc_Addr c, SNssaiInfos := infos\<rparr>"
  have g: "grows (upi_pools upi) (concat (map UeIPPools (concat (map DnnList infos)))) pools"
      "list_all (\<lambda>d. StaticIPPools d = []) (concat (map DnnList infos))"
    using new_snssais_grows [OF i u(2)] by simp_all
  show thesis
    by (rule UPF [OF u(1,3), of ?upf pools]) (use g assms(1) u(1) i in \<open>auto simp: node_pools_def new_node_def Let_def list_all_iff\<close>)
qed

lemma dynamic_pools_append:
  assumes "\<forall>(name, a)\<in>set (UPFs upi). a < length (upi_nodes upi)"
    and "upi_nodes upi' = upi_nodes upi @ [n]" and "UPFs upi' = UPFs upi"
  shows "dynamic_pools upi' = dynamic_pools upi"
  using assms unfolding dynamic_pools_def
  by (intro arg_cong [where f = concat] map_cong) (auto simp: nth_append)

lemma dynamic_pools_snoc:
  assumes "\<forall>(name, a)\<in>set (UPFs upi). a < length (upi_nodes upi)"
    and "upi_nodes upi' = upi_nodes upi @ [n]" and "UPFs upi' = UPFs upi @ [(name, length (upi_nodes upi))]" and "up_UPF n = Some upf"
  shows "dynamic_pools upi' = dynamic_pools upi @ node_pools upf False"
proof -
  have "dynamic_pools (upi\<lparr>upi_nodes := upi_nodes upi @ [n]\<rparr>) = dynamic_pools upi"
    by (rule dynamic_pools_append [OF assms(1)]) simp_all
  moreover have "concat (map (\<lambda>i. concat (map UeIPPools (DnnList i))) xs) = concat (map UeIPPools (concat (map DnnList xs)))" for xs
    by (induction xs) simp_all
  ultimately show ?thesis using assms(2-) by (simp add: dynamic_pools_def node_pools_def)
qed

lemma new_node_built:
  assumes "new_node res newid True (name, c) upi = Val upi'" and "node_plain res (name, c)" and "name \<notin> set (keys pre)"
    and "built res pre upi"
  shows "built res (pre @ [(name, c)]) upi'"
proof -
  have l: "length (upi_nodes upi) = length pre" using assms(4) by (metis built_def length_map)
  have k: "name \<notin> set (keys (UPNodes upi))" "name \<notin> set (keys (UPFs upi))" "name \<notin> set (keys (AccessNetwork upi))"
    using assms(3,4) by (auto simp: built_def)
  show ?thesis
    using assms(1,2) by (rule new_node_cases) (use assms(4) k l in \<open>auto simp: built_def nodes_typed_def mput_new\<close>)
qed

lemma new_node_built_pools:
  assumes "new_node res newid True (name, c) upi = Val upi'" and "node_plain res (name, c)" and "name \<notin> set (keys (UPFs upi))"
    and b: "built_pools upi"
  shows "built_pools upi'"
  using assms(1,2)
proof (cases rule: new_node_cases)
  case (AN ip)
  have a: "\<forall>(name, a)\<in>set (UPFs upi). a < length (upi_nodes upi)" using b by (simp add: built_pools_def)
  have "dynamic_pools upi' = dynamic_pools upi" by (rule dynamic_pools_append [OF a]) (simp_all add: AN)
  then show ?thesis using b by (auto simp: built_pools_def AN)
next
  case (UPF upf pools)
  have a: "\<forall>(name, a)\<in>set (UPFs upi). a < length (upi_nodes upi)" using b by (simp add: built_pools_def)
  have "dynamic_pools upi' = dynamic_pools upi @ node_pools upf False"
    by (rule dynamic_pools_snoc [OF a], (simp add: UPF(5) mput_new [OF assms(3)])+)
  moreover have "k < length pools" if "n \<in> set (upi_nodes upi)" "up_UPF n = Some u" "k \<in> set (node_pools u False)" for n u k
  proof -
    have "k < length (upi_pools upi)" using b that unfolding built_pools_def by blast
    then show ?thesis using UPF(3) by (simp add: grows_def)
  qed
  ultimately show ?thesis using b UPF(3,4) by (auto simp: built_pools_def UPF(5) mput_new [OF assms(3)] grows_def upt_split)
qed

lemma new_node_built_names:
  assumes "new_node res newid True (name, c) upi = Val upi'" and "node_plain res (name, c)" and b: "built_names res upi"
    and "name \<notin> set (keys (AccessNetwork upi))" and "name \<notin> set (keys (UPFs upi))"
  shows "built_names res upi'"
  using assms(1,2)
proof (cases rule: new_node_cases)
  case (AN ip)
  then show ?thesis using b assms(4) by (auto simp: built_names_def mput_new)
next
  case (UPF upf pools)
  then show ?thesis using b assms(5) by (auto simp: built_names_def mput_new)
qed

lemma new_nodes_built:
  assumes "gloop (new_node res newid True) cs upi = Val upi'" and "list_all (node_plain res) cs" and "distinct (keys (pre @ cs))"
    and "built res pre upi" and "built_pools upi" and "built_names res upi"
  shows "built res (pre @ cs) upi' \<and> built_pools upi' \<and> built_names res upi'"
  using assms
proof (induction cs arbitrary: upi pre)
  case (Cons x cs)
  obtain name c where x: "x = (name, c)" by (cases x)
  obtain upi1 where u: "new_node res newid True (name, c) upi = Val upi1" "gloop (new_node res newid True) cs upi1 = Val upi'"
    using Cons.prems(1) by (auto simp: x)
  have p: "node_plain res (name, c)" "name \<notin> set (keys pre)" using Cons.prems(2,3) by (auto simp: x)
  have k: "name \<notin> set (keys (UPFs upi))" "name \<notin> set (keys (AccessNetwork upi))" using p(2) Cons.prems(4) by (auto simp: built_def)
  have "built res (pre @ [x]) upi1" using new_node_built [OF u(1) p Cons.prems(4)] by (simp add: x)
  moreover have "built_pools upi1" by (rule new_node_built_pools [OF u(1) p(1) k(1) Cons.prems(5)])
  moreover have "built_names res upi1" by (rule new_node_built_names [OF u(1) p(1) Cons.prems(6) k(2,1)])
  ultimately show ?case using Cons.IH [OF u(2), of "pre @ [x]"] Cons.prems(2,3) by simp
qed simp

section \<open>Links at start-up\<close>

text \<open>Links change only the links of nodes, and stay inside the store.\<close>

definition linked :: "UPNode list \<Rightarrow> UPNode list \<Rightarrow> bool" where
  "linked ns ns' \<longleftrightarrow> map (\<lambda>n. n\<lparr>up_Links := []\<rparr>) ns' = map (\<lambda>n. n\<lparr>up_Links := []\<rparr>) ns"

lemma linked_update: "a < length ns \<Longrightarrow> linked ns (ns[a := (ns ! a)\<lparr>up_Links := ls\<rparr>])"
  by (simp add: linked_def map_update list_update_same_conv)

lemma links_ok_update: "links_ok ns \<Longrightarrow> a < length ns \<Longrightarrow> b < length ns \<Longrightarrow> links_ok (ns[a := (ns ! a)\<lparr>up_Links := up_Links (ns ! a) @ [b]\<rparr>])"
  by (auto simp: links_ok_def list_all_length nth_list_update nth_append less_Suc_eq)

lemma add_link_linked:
  assumes "links_ok (upi_nodes upi)" and "\<forall>(name, a)\<in>set (UPNodes upi). a < length (upi_nodes upi)"
  shows "\<exists>ns. add_link l upi = upi\<lparr>upi_nodes := ns\<rparr> \<and> links_ok ns \<and> linked (upi_nodes upi) ns"
proof (cases "map_of (UPNodes upi) (fst l)"; cases "map_of (UPNodes upi) (snd l)")
  fix a b
  assume a: "map_of (UPNodes upi) (fst l) = Some a" and b: "map_of (UPNodes upi) (snd l) = Some b"
  let ?ns = "upi_nodes upi"
  let ?ns1 = "?ns[a := (?ns ! a)\<lparr>up_Links := up_Links (?ns ! a) @ [b]\<rparr>]"
  let ?ns2 = "?ns1[b := (?ns1 ! b)\<lparr>up_Links := up_Links (?ns1 ! b) @ [a]\<rparr>]"
  have l: "a < length ?ns" "b < length ?ns" using assms(2) map_of_SomeD [OF a] map_of_SomeD [OF b] by auto
  have "links_ok ?ns2" using links_ok_update [OF links_ok_update [OF assms(1) l]] l by simp
  moreover have "linked ?ns ?ns2"
    using linked_update [OF l(1)] linked_update [of b ?ns1] l(2) unfolding linked_def by simp
  moreover have "upi\<lparr>upi_nodes := upi_nodes upi\<rparr> = upi" "linked ?ns ?ns" by (simp_all add: linked_def)
  moreover have "add_link l upi = upi\<lparr>upi_nodes := ?ns\<rparr> \<or> add_link l upi = upi\<lparr>upi_nodes := ?ns2\<rparr>"
    using a b by (simp add: add_link_def Let_def)
  ultimately show ?thesis using assms(1) by blast
qed (use assms(1) in \<open>auto simp: add_link_def linked_def intro!: exI [of _ "upi_nodes upi"]\<close>)

lemma fold_add_link_linked:
  assumes "links_ok (upi_nodes upi)" and "\<forall>(name, a)\<in>set (UPNodes upi). a < length (upi_nodes upi)"
  shows "\<exists>ns. fold add_link ls upi = upi\<lparr>upi_nodes := ns\<rparr> \<and> links_ok ns \<and> linked (upi_nodes upi) ns"
  using assms
proof (induction ls arbitrary: upi)
  case Nil
  then show ?case by (intro exI [of _ "upi_nodes upi"]) (simp add: linked_def)
next
  case (Cons l ls)
  obtain ns where ns: "add_link l upi = upi\<lparr>upi_nodes := ns\<rparr>" "links_ok ns" "linked (upi_nodes upi) ns"
    using add_link_linked [OF Cons.prems] by blast
  have "length ns = length (upi_nodes upi)" using ns(3) by (metis length_map linked_def)
  then obtain ns' where "fold add_link ls (upi\<lparr>upi_nodes := ns\<rparr>) = upi\<lparr>upi_nodes := ns, upi_nodes := ns'\<rparr>" "links_ok ns'" "linked ns ns'"
    using Cons.IH [of "upi\<lparr>upi_nodes := ns\<rparr>"] ns(2) Cons.prems(2) by auto
  then show ?case using ns by (intro exI [of _ ns']) (simp add: linked_def)
qed

lemma linkedD:
  assumes "linked ns ns'"
  shows "length ns' = length ns"
    and "i < length ns \<Longrightarrow> up_Type (ns' ! i) = up_Type (ns ! i) \<and> up_NodeID (ns' ! i) = up_NodeID (ns ! i) \<and> up_UPF (ns' ! i) = up_UPF (ns ! i)"
proof -
  show l: "length ns' = length ns" using assms by (metis linked_def length_map)
  assume i: "i < length ns"
  then have "(ns' ! i)\<lparr>up_Links := []\<rparr> = (ns ! i)\<lparr>up_Links := []\<rparr>"
    using arg_cong [OF assms [unfolded linked_def], of "\<lambda>xs. xs ! i"] l by simp
  then show "up_Type (ns' ! i) = up_Type (ns ! i) \<and> up_NodeID (ns' ! i) = up_NodeID (ns ! i) \<and> up_UPF (ns' ! i) = up_UPF (ns ! i)"
    by (metis UPNode.select_convs(2,3,6) UPNode.surjective UPNode.update_convs(5))
qed

section \<open>The topology at start-up\<close>

lemma one_satisfies:
  assumes "length (filter P xs) \<le> 1" and "i < length xs" "P (xs ! i)" and "j < length xs" "P (xs ! j)"
  shows "i = j"
proof -
  have "card {i. i < length xs \<and> P (xs ! i)} \<le> Suc 0" using assms(1) by (simp add: length_filter_conv_card)
  then show ?thesis using assms(2-) by (subst (asm) card_le_Suc0_iff_eq) auto
qed

lemma startup_spec:
  assumes "config_ok res t" and "NewUserPlaneInformation res newid t = Val upi"
  obtains upi0 ns where "upi = upi0\<lparr>upi_nodes := ns\<rparr>" "linked (upi_nodes upi0) ns" "links_ok ns" "built res (cfg_UPNodes t) upi0"
    "built_pools upi0" "built_names res upi0" "\<not> isOverlap (upi_pools upi0)"
proof -
  obtain upi0 where u: "gloop (new_node res newid True) (cfg_UPNodes t) empty_upi = Val upi0"
      "\<not> isOverlap (map ((!) (upi_pools upi0)) (dynamic_pools upi0))" "upi = fold add_link (cfg_Links t) upi0"
    using assms(2) by (auto simp: NewUserPlaneInformation_def check_overlap_def LinksFromConfiguration_def split: if_splits)
  have "built res [] empty_upi" "built_pools empty_upi" "built_names res empty_upi"
    by (simp_all add: built_def built_pools_def built_names_def empty_upi_def nodes_typed_def dynamic_pools_def)
  then have b: "built res (cfg_UPNodes t) upi0" "built_pools upi0" "built_names res upi0"
    using new_nodes_built [OF u(1), of "[]"] assms(1) by (simp_all add: config_ok_def)
  have l: "length (upi_nodes upi0) = length (cfg_UPNodes t)" using b(1) by (metis built_def length_map)
  have "links_ok (upi_nodes upi0)" using b(1) by (auto simp: built_def links_ok_def list_all_iff)
  moreover have "\<forall>(name, a)\<in>set (UPNodes upi0). a < length (upi_nodes upi0)"
    using b(1) by (auto simp: built_def l dest: set_zip_rightD)
  ultimately obtain ns where n: "upi = upi0\<lparr>upi_nodes := ns\<rparr>" "links_ok ns" "linked (upi_nodes upi0) ns"
    using fold_add_link_linked [of upi0 "cfg_Links t"] u(3) by auto
  have "map ((!) (upi_pools upi0)) (dynamic_pools upi0) = upi_pools upi0" using b(2) by (simp add: built_pools_def map_nth)
  then show thesis using that [OF n(1,3,2) b] u(2) by simp
qed

lemma startup_topology_ok:
  assumes c: "config_ok res t" and "NewUserPlaneInformation res newid t = Val upi"
  shows "topology_ok res upi"
proof -
  obtain upi0 ns where u: "upi = upi0\<lparr>upi_nodes := ns\<rparr>" "linked (upi_nodes upi0) ns" "links_ok ns" "built res (cfg_UPNodes t) upi0"
      "built_pools upi0" "built_names res upi0"
    by (rule startup_spec [OF assms])
  note l = linkedD [OF u(2)]
  have len: "length (upi_nodes upi0) = length (cfg_UPNodes t)" using u(4) by (metis built_def length_map)
  have ty: "up_Type (ns ! i) = nc_Type (snd (cfg_UPNodes t ! i))" if "i < length (cfg_UPNodes t)" for i
    using arg_cong [OF conjunct1 [OF u(4) [unfolded built_def]], of "\<lambda>xs. xs ! i"] that len l(2) [of i] by simp
  let ?an = "\<lambda>(_, n). nc_Type n = UPNODE_AN"
  have one: "length (filter ?an (cfg_UPNodes t)) \<le> 1" using c by (simp add: config_ok_def)
  have typed: "nodes_typed ns" using u(4) l by (simp add: built_def nodes_typed_def list_all_length del: not_None_eq)
  have "search_ok ns s" if s: "selectUPPathSource upi = Some s" for s
  proof -
    have an: "up_Type (ns ! s) = UPNODE_AN" using source_is_AN [OF s] by (simp add: u(1))
    have sl: "s < length (cfg_UPNodes t)" using s u(6) len
      by (auto simp: selectUPPathSource_def built_names_def u(1) dest!: find_SomeD)
    have san: "?an (cfg_UPNodes t ! s)" using ty [OF sl] an by (simp add: case_prod_beta)
    have "up_UPF (ns ! i) \<noteq> None" if i: "i < length ns" "i \<noteq> s" for i
    proof -
      have il: "i < length (cfg_UPNodes t)" using i(1) l(1) len by simp
      have "\<not> ?an (cfg_UPNodes t ! i)" by (rule contrapos_nn [OF i(2)], rule one_satisfies [OF one il _ sl san])
      moreover have "node_plain res (cfg_UPNodes t ! i)" using c il by (simp add: config_ok_def list_all_length)
      ultimately have "up_Type (ns ! i) = UPNODE_UPF" using ty [OF il] by (simp add: node_plain_def case_prod_beta)
      then show ?thesis using nodes_typedD [OF typed i(1)] by simp
    qed
    then show ?thesis using u(3) sl l(1) len by (simp add: search_ok_def list_all_length del: not_None_eq) blast
  qed
  moreover have "pools_ok upi"
  proof -
    have "\<exists>m\<in>set (upi_nodes upi0). up_UPF m = up_UPF n" if "n \<in> set ns" for n
      using that l by (metis in_set_conv_nth)
    then have "k < length (upi_pools upi0)" if "n \<in> set ns" "up_UPF n = Some upf" "k \<in> set (node_pools upf st)" for n upf st k
      using u(5) that unfolding built_pools_def by (cases st) fastforce+
    then show ?thesis using u(5) by (simp add: pools_ok_def built_pools_def u(1))
  qed
  moreover have "names_ok res upi"
  proof -
    have "GetUPFNameByIp upi0 (res (up_NodeID n)) \<in> set (keys (UPFs upi0))" if "n \<in> set (upi_nodes upi0)" "up_Type n = UPNODE_UPF" for n
      using u(6) that unfolding built_names_def GetUPFNameByIp_def by fastforce
    then show ?thesis using l by (simp add: names_ok_def list_all_length u(1) GetUPFNameByIp_def)
  qed
  ultimately show ?thesis using typed by (cases "selectUPPathSource upi") (simp_all add: topology_ok_def u(1))
qed

lemma startup_pools_apart:
  assumes "config_ok res t" and "NewUserPlaneInformation res newid t = Val upi"
  shows "pools_apart upi"
proof -
  obtain upi0 ns where u: "upi = upi0\<lparr>upi_nodes := ns\<rparr>" "built_pools upi0" "\<not> isOverlap (upi_pools upi0)"
    by (rule startup_spec [OF assms])
  have ok: "pools_ok upi" using startup_topology_ok [OF assms] by (simp add: topology_ok_def)
  have "list_all ue_ok (upi_pools upi)" "\<not> isOverlap (upi_pools upi)" using u by (simp_all add: built_pools_def)
  then have net: "net_addrs (ueSubNet (upi_pools upi ! j)) \<inter> net_addrs (ueSubNet (upi_pools upi ! k)) = {}"
    if "j < length (upi_pools upi)" "k < length (upi_pools upi)" "j \<noteq> k" for j k
    using isOverlap_disjoint that by blast
  moreover have "ue_free (upi_pools upi ! j) \<subseteq> net_addrs (ueSubNet (upi_pools upi ! j))" if "j < length (upi_pools upi)" for j
    using ue_free_net u(2) that by (simp add: built_pools_def list_all_length u(1))
  ultimately have "ue_free (upi_pools upi ! j) \<inter> ue_free (upi_pools upi ! k) = {}"
    if "j < length (upi_pools upi)" "k < length (upi_pools upi)" "j \<noteq> k" for j k
    using that by blast
  then show ?thesis using net ok unfolding pools_apart_def pools_ok_def by blast
qed

section \<open>No two sessions share an address\<close>


text \<open>A small configuration: one access network, one UPF with one pool, and a link between them.\<close>

definition ex_res :: "NodeID \<Rightarrow> string" where
  "ex_res nid = (case nid of NodeIdTypeIpv4Address ip \<Rightarrow> if ip = [] then ''<nil>'' else ''v4'' | NodeIdTypeIpv6Address _ \<Rightarrow> ''v6'' | NodeIdTypeFqdn s \<Rightarrow> s)"

definition ex_pool :: string where
  "ex_pool = v4_string [10, 60, 0, 0] @ CHR ''/'' # itoa 16"

definition ex_slice :: SNssai where
  "ex_slice = \<lparr>Sst = 1, Sd = ''010203''\<rparr>"

definition ex_dnn :: DnnUpfInfoConfig where
  "ex_dnn = \<lparr>dc_Dnn = ''internet'', dc_DnaiList = [], dc_PduSessionTypes = [], dc_Pools = [ex_pool], dc_StaticPools = []\<rparr>"

definition ex_config :: UPTopology where
  "ex_config = \<lparr>cfg_UPNodes =
     [(''gNB1'', \<lparr>nc_Type = UPNODE_AN, nc_NodeID = [], nc_Addr = [], nc_ANIP = [], nc_Interfaces = [], nc_SNssaiInfos = []\<rparr>),
      (''UPF'', \<lparr>nc_Type = UPNODE_UPF, nc_NodeID = ''upf'', nc_Addr = ''upf'', nc_ANIP = [], nc_Interfaces = [],
        nc_SNssaiInfos = [\<lparr>sc_SNssai = ex_slice, sc_DnnUpfInfoList = [ex_dnn]\<rparr>]\<rparr>)],
     cfg_Links = [(''gNB1'', ''UPF'')]\<rparr>"

definition ex_sel :: UPFSelectionParams where
  "ex_sel = \<lparr>sel_Dnn = ''internet'', sel_SNssai = ex_slice, sel_Dnai = [], sel_PDUAddress = None\<rparr>"

lemma ex_pool_v4: "v4_cidr ex_pool"
  by (simp add: v4_cidr_def ex_pool_def ParseCIDR_v4)

definition ex_upf :: UPF where
  "ex_upf = \<lparr>upf_uuid = [], upf_NodeID = NodeIdTypeFqdn ''upf'', upf_Addr = ''upf'',
     SNssaiInfos = [\<lparr>si_SNssai = ex_slice, DnnList = [\<lparr>di_Dnn = ''internet'', DnaiList = [], PduSessionTypes = [], UeIPPools = [0], StaticIPPools = []\<rparr>]\<rparr>],
     N3Interfaces = [], N9Interfaces = [], upf_associated = False\<rparr>"

definition ex_nodes :: "UPNode list" where
  "ex_nodes =
     [\<lparr>up_Name = ''gNB1'', up_Type = UPNODE_AN, up_NodeID = NodeIdTypeIpv4Address [], up_ANIP = None, up_Links = [1], up_UPF = None\<rparr>,
      \<lparr>up_Name = ''UPF'', up_Type = UPNODE_UPF, up_NodeID = NodeIdTypeFqdn ''upf'', up_ANIP = None, up_Links = [0], up_UPF = Some ex_upf\<rparr>]"

lemma ex_config_ok: "config_ok ex_res ex_config"
  using ex_pool_v4 by (simp add: config_ok_def ex_config_def node_plain_def dnn_plain_def ex_dnn_def ex_res_def config_NodeID_def ParseIP_def)

lemma ex_startup:
  "\<exists>p. NewUserPlaneInformation ex_res (\<lambda>_. []) ex_config = Val \<lparr>upi_nodes = ex_nodes, upi_pools = [p],
     UPNodes = [(''gNB1'', 0), (''UPF'', 1)], UPFs = [(''UPF'', 1)], AccessNetwork = [(''gNB1'', 0)],
     UPFIPToName = [(''<nil>'', ''gNB1''), (''upf'', ''UPF'')], UPFsID = [], UPFsIPtoID = [], DefaultUserPlanePath = [], DefaultUserPlanePathToUPF = []\<rparr>"
proof -
  obtain n where n: "ParseCIDR ex_pool = Some n" "length (net_IP n) = 4" using ex_pool_v4 by (auto simp: v4_cidr_def split: option.splits)
  obtain p where p: "NewUEIPPool ex_pool = Some (Some p)" by (rule NewUEIPPool_ok [OF n])
  obtain q where q: "reserve_edges 0 [p] = [q]"
    using length_reserve_edges [of 0 "[p]"] by (metis length_0_conv length_Suc_conv length_Cons list.size(3))
  have snssais: "new_snssais True [\<lparr>sc_SNssai = ex_slice, sc_DnnUpfInfoList = [ex_dnn]\<rparr>] [] =
      Val ([\<lparr>si_SNssai = ex_slice, DnnList = [\<lparr>di_Dnn = ''internet'', DnaiList = [], PduSessionTypes = [], UeIPPools = [0], StaticIPPools = []\<rparr>]\<rparr>], [q])"
    by (simp add: new_dnn_def ex_dnn_def p q)
  show ?thesis
    by (rule exI [of _ q]) (simp add: NewUserPlaneInformation_def ex_config_def new_node_def Let_def empty_upi_def snssais ex_res_def
        config_NodeID_def ParseIP_def NewUPF_def check_overlap_def dynamic_pools_def LinksFromConfiguration_def add_link_def ex_nodes_def ex_upf_def
        del: new_snssais.simps)
qed


section \<open>One selection\<close>



section \<open>The searches\<close>

text \<open>C8: the search for a path always ends without a panic. It finds a path exactly when the destination can be reached from
  the access network through UPFs of the slice, and what it finds is such a path, without a node twice.\<close>

theorem getPathBetween_correct:
  assumes "search_ok ns cur"
  shows "\<exists>r. getPathBetween ns cur dest sel = Val r
    \<and> (r \<noteq> None \<longleftrightarrow> (up_step ns (sel_SNssai sel))\<^sup>*\<^sup>* cur dest)
    \<and> (\<forall>p. r = Some p \<longrightarrow> p \<noteq> [] \<and> hd p = cur \<and> last p = dest \<and> up_path ns (sel_SNssai sel) p \<and> distinct p)"
  using assms by (rule getPathBetween_spec)

lemma ex_search_ok: "search_ok ex_nodes 0"
  by (simp add: search_ok_def links_ok_def ex_nodes_def upt_rec)

theorem getPathBetween_correct_witness:
  "\<exists>p. getPathBetween ex_nodes 0 1 ex_sel = Val (Some p) \<and> hd p = 0 \<and> last p = 1"
proof -
  have "up_step ex_nodes (sel_SNssai ex_sel) 0 1"
    by (simp add: up_step_def serves_def ex_nodes_def ex_upf_def ex_sel_def isSupportSnssai_def SNssai_Equal_def EqualFold_def)
  then have "(up_step ex_nodes (sel_SNssai ex_sel))\<^sup>*\<^sup>* 0 1" by blast
  with getPathBetween_correct [OF ex_search_ok, of 1 ex_sel] show ?thesis by auto
qed



section \<open>Removal of a node\<close>

lemma nodeInPath_spec:
  "(nodeInPath a xs = -1 \<longleftrightarrow> a \<notin> set xs) \<and> (a \<in> set xs \<longrightarrow> 0 \<le> nodeInPath a xs \<and> nat (nodeInPath a xs) < length xs \<and> xs ! nat (nodeInPath a xs) = a)"
  by (induction xs) (auto simp: Let_def nat_add_distrib)

lemma removeNodeFromLink_distinct:
  assumes "distinct ls" and "i < length ls"
  shows "set (removeNodeFromLink ls i) = set ls - {ls ! i}"
proof (cases ls rule: rev_cases)
  case (snoc xs z)
  have z: "z \<notin> set xs" "distinct xs" using assms(1) snoc by auto
  show ?thesis
  proof (cases "i < length xs")
    case True
    have "set (xs[i := z]) = insert z (set xs - {xs ! i})" by (rule set_update_distinct [OF z(2) True])
    then show ?thesis using True z nth_mem [OF True] by (auto simp: removeNodeFromLink_def snoc list_update_append1 nth_append)
  next
    case False
    then have "i = length xs" using assms(2) snoc by simp
    then show ?thesis using z by (simp add: removeNodeFromLink_def snoc nth_append)
  qed
qed (use assms in simp)

lemma unlink_nth: "b \<noteq> n \<Longrightarrow> unlink a n ns ! b = ns ! b" "length (unlink a n ns) = length ns"
  by (simp_all add: unlink_def Let_def)

lemma unlink_links:
  assumes "n < length ns" and "distinct (up_Links (ns ! n))"
  shows "set (up_Links (unlink a n ns ! n)) = set (up_Links (ns ! n)) - {a}"
proof (cases "a \<in> set (up_Links (ns ! n))")
  case True
  then show ?thesis using nodeInPath_spec [of a "up_Links (ns ! n)"] removeNodeFromLink_distinct [OF assms(2)] assms(1)
    by (simp add: unlink_def Let_def)
next
  case False
  then show ?thesis using nodeInPath_spec [of a "up_Links (ns ! n)"] by (simp add: unlink_def)
qed

lemma fold_unlink_other: "c \<notin> snd ` set us \<Longrightarrow> fold (\<lambda>(_, n). unlink a n) us ns ! c = ns ! c"
  by (induction us arbitrary: ns) (auto simp: unlink_nth(1))

lemma fold_unlink:
  assumes "distinct (map snd us)" and "\<forall>(n, b)\<in>set us. b < length ns \<and> distinct (up_Links (ns ! b))" and "(m, c) \<in> set us"
  shows "set (up_Links (fold (\<lambda>(_, n). unlink a n) us ns ! c)) = set (up_Links (ns ! c)) - {a}"
  using assms
proof (induction us arbitrary: ns)
  case (Cons u us)
  obtain n b where u: "u = (n, b)" by (cases u)
  have same: "unlink a b ns ! d = ns ! d" if "(x, d) \<in> set us" for x d
    using Cons.prems(1) that u by (intro unlink_nth) (auto simp: image_iff)
  have rest: "\<forall>(n, d)\<in>set us. d < length (unlink a b ns) \<and> distinct (up_Links (unlink a b ns ! d))"
    using Cons.prems(2) same by (auto simp: unlink_nth(2))
  show ?case
  proof (cases "(m, c) \<in> set us")
    case True
    then show ?thesis using Cons.IH [OF _ rest True] Cons.prems(1) same [OF True] u by simp
  next
    case False
    then have c: "c = b" "c \<notin> snd ` set us" using Cons.prems(1,3) u by auto
    show ?thesis using fold_unlink_other [OF c(2)] unlink_links [of b ns a] Cons.prems(2) u c(1) by simp
  qed
qed simp

text \<open>C20: the removal of a node. It is no longer a node, every other node keeps exactly its other links, and no cached path to a
  UPF runs through a removed UPF. (Nodes have one name each, and no link twice.)\<close>

theorem UpNodeDelete_correct:
  assumes "map_of (UPNodes upi) name = Some a" and "distinct (map snd (UPNodes upi))"
    and "\<forall>(n, b)\<in>set (UPNodes upi). b < length (upi_nodes upi) \<and> distinct (up_Links (upi_nodes upi ! b))"
  shows "map_of (UPNodes (UpNodeDelete name upi)) = (map_of (UPNodes upi))(name := None)
    \<and> (\<forall>m c. map_of (UPNodes (UpNodeDelete name upi)) m = Some c \<longrightarrow>
         set (up_Links (upi_nodes (UpNodeDelete name upi) ! c)) = set (up_Links (upi_nodes upi ! c)) - {a})
    \<and> (up_Type (upi_nodes upi ! a) = UPNODE_UPF \<longrightarrow>
         (\<forall>(sel, dests)\<in>set (DefaultUserPlanePathToUPF (UpNodeDelete name upi)). \<forall>(dest, path)\<in>set dests. a \<notin> set path))"
proof (intro conjI allI impI)
  let ?upi' = "UpNodeDelete name upi" and ?us = "mdel name (UPNodes upi)"
  have us: "UPNodes ?upi' = ?us" "upi_nodes ?upi' = fold (\<lambda>(_, n). unlink a n) ?us (upi_nodes upi)"
    using assms(1) by (simp_all add: UpNodeDelete_def Let_def)
  then show "map_of (UPNodes ?upi') = (map_of (UPNodes upi))(name := None)" by simp
  have sub: "set ?us \<subseteq> set (UPNodes upi)" "distinct (map snd ?us)"
    using assms(2) by (auto simp: AList.delete_eq distinct_map_filter)
  fix m c assume "map_of (UPNodes ?upi') m = Some c"
  then have "(m, c) \<in> set ?us" unfolding us(1) by (rule map_of_SomeD)
  then show "set (up_Links (upi_nodes ?upi' ! c)) = set (up_Links (upi_nodes upi ! c)) - {a}"
    unfolding us(2) by (intro fold_unlink [OF sub(2)]) (use assms(3) sub(1) in blast)
next
  assume "up_Type (upi_nodes upi ! a) = UPNODE_UPF"
  then show "\<forall>(sel, dests)\<in>set (DefaultUserPlanePathToUPF (UpNodeDelete name upi)). \<forall>(dest, path)\<in>set dests. a \<notin> set path"
    using assms(1) by (auto simp: UpNodeDelete_def Let_def nodeInPath_spec)
qed

theorem UpNodeDelete_correct_witness:
  "set (up_Links (upi_nodes (UpNodeDelete ''UPF'' (empty_upi\<lparr>upi_nodes := ex_nodes, UPNodes := [(''gNB1'', 0), (''UPF'', 1)]\<rparr>)) ! 0)) = {}"
  using UpNodeDelete_correct [of "empty_upi\<lparr>upi_nodes := ex_nodes, UPNodes := [(''gNB1'', 0), (''UPF'', 1)]\<rparr>" "''UPF''" 1]
  by (auto simp: ex_nodes_def)

section \<open>Where the guarantees end\<close>

subsection \<open>Pools\<close>

lemma reserve_edges_free:
  assumes "ue_ok p" and "p_first (ue_pool p) \<noteq> p_last (ue_pool p)" and "p_first (ue_pool p) \<le> p_last (ue_pool p)"
  shows "\<exists>q. reserve_edges (length st) (st @ p # st') = st @ q # st'
    \<and> ue_free q = {ip \<in> ue_free p. ip_val ip \<noteq> p_first (ue_pool p) \<and> ip_val ip \<noteq> p_last (ue_pool p)}"
proof -
  let ?f = "p_first (ue_pool p)" and ?l = "p_last (ue_pool p)"
  have inv: "pool_inv (ue_pool p)" using assms(1) by (simp add: ue_ok_def)
  obtain q where q: "Reserve ?f ?f (ue_pool p) = (True, q)" "avail q = avail (ue_pool p) - {?f}" "pool_inv q" "same_range (ue_pool p) q"
    using Reserve_takes [OF inv, of ?f ?f] assms(3) by (auto simp: Contains_def)
  obtain r where r: "Reserve ?l ?l q = (True, r)" "avail r = avail q - {?l}"
    using Reserve_takes [OF q(3), of ?l ?l] q(4) assms(3) by (auto simp: Contains_def)
  have "reserve_edges (length st) (st @ p # st') = st @ p\<lparr>ue_pool := r\<rparr> # st'"
    using q(1) r(1) assms(2) by (simp add: reserve_edges_def Let_def Min_of_def Max_of_def)
  then show ?thesis using q(2) r(2) by (auto simp: ue_free_def)
qed

lemma new_pool_range:
  assumes "ue_ok p" and "ueSubNet p = n" and "x \<in> net_addrs n" and "y \<in> net_addrs n" and "ip_val x < ip_val y"
  shows "p_first (ue_pool p) \<noteq> p_last (ue_pool p)" "p_first (ue_pool p) \<le> p_last (ue_pool p)"
    "p_first (ue_pool p) \<le> ip_val x" "ip_val y \<le> p_last (ue_pool p)"
  using assms by (auto simp: ue_ok_def)

text \<open>C37: a static pool is excluded only from dynamic pools that contain its first address. When the static network starts before
  the dynamic pool, the addresses they share stay free in both, so that one address can be given out twice.\<close>

theorem static_pool_not_excluded:
  assumes c: "ParseCIDR c = Some n" "length (net_IP n) = 4" and s: "ParseCIDR s = Some m" "length (net_IP m) = 4"
    and "\<not> IPNet_Contains n (net_IP m)" and ip: "ip \<in> net_addrs n" "ip \<in> net_addrs m"
    and lo: "lo \<in> net_addrs n" "ip_val lo < ip_val ip" and hi: "hi \<in> net_addrs n" "ip_val ip < ip_val hi"
  shows "\<exists>d p q p' q'. new_dnn True \<lparr>dc_Dnn = dnn, dc_DnaiList = [], dc_PduSessionTypes = [], dc_Pools = [c], dc_StaticPools = [s]\<rparr> [] = Val (d, [p, q])
    \<and> UeIPPools d = [0] \<and> StaticIPPools d = [1]
    \<and> UeIPPool_Allocate (Some ip) p = Some (Some ip, p') \<and> UeIPPool_Allocate (Some ip) q = Some (Some ip, q')"
proof -
  obtain p where p: "NewUEIPPool c = Some (Some p)" "ueSubNet p = n" "ue_ok p" "ue_free p = net_addrs n" by (rule NewUEIPPool_ok [OF c])
  obtain q where q: "NewUEIPPool s = Some (Some q)" "ueSubNet q = m" "ue_ok q" "ue_free q = net_addrs m" by (rule NewUEIPPool_ok [OF s])
  note r = new_pool_range [OF p(3,2) lo(1) hi(1)]
  obtain p1 where p1: "reserve_edges 0 [p, q] = [p1, q]"
      "ue_free p1 = {ip \<in> ue_free p. ip_val ip \<noteq> p_first (ue_pool p) \<and> ip_val ip \<noteq> p_last (ue_pool p)}"
    using reserve_edges_free [OF p(3) r(1,2), of "[]" "[q]"] lo hi by auto
  have free: "ip \<in> ue_free p1" "ip \<in> ue_free q" using p1(2) p(4) q(4) ip r(3,4) lo(2) hi(2) by auto
  have ok: "ue_ok p1" using reserve_edges_ok [of "[p, q]" 0] p(3) q(3) p1(1) by simp
  have l: "length ip = 4" using ip by (simp add: net_addrs_def)
  have "\<exists>x'. UeIPPool_Allocate (Some ip) x = Some (Some ip, x')" if "ue_ok x" "ip \<in> ue_free x" for x
    using Allocate_this [OF that(1) l] that(2) by auto
  then obtain p' q' where "UeIPPool_Allocate (Some ip) p1 = Some (Some ip, p')" "UeIPPool_Allocate (Some ip) q = Some (Some ip, q')"
    using ok q(3) free by blast
  then show ?thesis
    using assms(5) by (simp add: new_dnn_def p(1,2) q(1,2) exclude_from_def p1(1) del: gbind_Val_iff)
qed

definition ex_cidr :: "bytes \<Rightarrow> nat \<Rightarrow> string" where
  "ex_cidr ip n = v4_string ip @ CHR ''/'' # itoa n"

definition ex_net :: "bytes \<Rightarrow> nat \<Rightarrow> IPNet" where
  "ex_net ip n = \<lparr>net_IP = map2 (AND) ip (CIDRMask n 32), net_Mask = CIDRMask n 32\<rparr>"

lemma ex_parse: "length ip = 4 \<Longrightarrow> n \<le> 32 \<Longrightarrow> ParseCIDR (ex_cidr ip n) = Some (ex_net ip n) \<and> length (net_IP (ex_net ip n)) = 4"
  by (simp add: ex_cidr_def ex_net_def ParseCIDR_v4)

lemma ex_in_net:
  "[10, 60, 1, 0] \<in> net_addrs (ex_net [10, 60, 1, 0] 24)" "[10, 60, 1, 5] \<in> net_addrs (ex_net [10, 60, 1, 0] 24)"
  "[10, 60, 1, 9] \<in> net_addrs (ex_net [10, 60, 1, 0] 24)" "[10, 60, 1, 5] \<in> net_addrs (ex_net [10, 60, 0, 0] 16)"
  "\<not> IPNet_Contains (ex_net [10, 60, 1, 0] 24) (net_IP (ex_net [10, 60, 0, 0] 16))"
  by (simp_all add: net_addrs_def ex_net_def IPNet_Contains_def networkNumberAndMask_def To4_def CIDRMask_32 mask_byte_def upt_rec)

lemma ex_vals: "ip_val [10, 60, 1, 0] < ip_val [10, 60, 1, 5]" "ip_val [10, 60, 1, 5] < ip_val [10, 60, 1, 9]"
  by (simp_all add: ip_val_def of_be32_def)

theorem static_pool_not_excluded_witness:
  "\<exists>d p q p' q'. new_dnn True \<lparr>dc_Dnn = ''internet'', dc_DnaiList = [], dc_PduSessionTypes = [], dc_Pools = [ex_cidr [10, 60, 1, 0] 24],
      dc_StaticPools = [ex_cidr [10, 60, 0, 0] 16]\<rparr> [] = Val (d, [p, q])
    \<and> UeIPPool_Allocate (Some [10, 60, 1, 5]) p = Some (Some [10, 60, 1, 5], p')
    \<and> UeIPPool_Allocate (Some [10, 60, 1, 5]) q = Some (Some [10, 60, 1, 5], q')"
  using static_pool_not_excluded [of "ex_cidr [10, 60, 1, 0] 24" "ex_net [10, 60, 1, 0] 24" "ex_cidr [10, 60, 0, 0] 16" "ex_net [10, 60, 0, 0] 16"
      "[10, 60, 1, 5]" "[10, 60, 1, 0]" "[10, 60, 1, 9]" "''internet''"] ex_parse [of "[10, 60, 1, 0]" 24] ex_parse [of "[10, 60, 0, 0]" 16] ex_in_net ex_vals
  by auto

text \<open>C40: at start-up the lowest address of a pool, the network address, is reserved; a UPF that is added at run time hands it
  out.\<close>

theorem runtime_pool_network_address:
  assumes c: "ParseCIDR c = Some n" "length (net_IP n) = 4" and "x \<in> net_addrs n" "y \<in> net_addrs n" "ip_val x < ip_val y"
    and lowest: "lo \<in> net_addrs n" "\<forall>z\<in>net_addrs n. ip_val lo \<le> ip_val z"
  shows "\<exists>d p q. new_dnn True \<lparr>dc_Dnn = dnn, dc_DnaiList = [], dc_PduSessionTypes = [], dc_Pools = [c], dc_StaticPools = []\<rparr> [] = Val (d, [p])
    \<and> lo \<notin> ue_free p
    \<and> new_dnn False \<lparr>dc_Dnn = dnn, dc_DnaiList = [], dc_PduSessionTypes = [], dc_Pools = [c], dc_StaticPools = []\<rparr> [] = Val (d, [q])
    \<and> ue_free q = net_addrs n"
proof -
  obtain p where p: "NewUEIPPool c = Some (Some p)" "ueSubNet p = n" "ue_ok p" "ue_free p = net_addrs n" by (rule NewUEIPPool_ok [OF c])
  note r = new_pool_range [OF p(3,2) assms(3-5)]
  obtain p1 where p1: "reserve_edges 0 [p] = [p1]"
      "ue_free p1 = {ip \<in> ue_free p. ip_val ip \<noteq> p_first (ue_pool p) \<and> ip_val ip \<noteq> p_last (ue_pool p)}"
    using reserve_edges_free [OF p(3) r(1,2), of "[]" "[]"] by auto
  let ?f = "p_first (ue_pool p)"
  have f: "0 \<le> ?f" "?f < 2 ^ 32" using p(3) r(2) by (auto simp: ue_ok_def)
  have "uint32ToIP (of_int ?f) \<in> net_addrs n"
    using p(2,3) r(2) ip_of_val [OF f] ip_val_uint32ToIP(1) by (auto simp: ue_ok_def)
  then have "ip_val lo \<le> ?f" using lowest(2) ip_of_val [OF f] by fastforce
  moreover have "?f \<le> ip_val lo" using lowest(1) p(2,3) by (auto simp: ue_ok_def)
  ultimately have "lo \<notin> ue_free p1" using p1(2) by simp
  then show ?thesis using p(4) by (simp add: new_dnn_def p(1) p1(1) del: gbind_Val_iff)
qed

lemma ex_lowest: "\<forall>z\<in>net_addrs (ex_net [10, 60, 1, 0] 24). ip_val [10, 60, 1, 0] \<le> ip_val z"
proof
  fix z assume z: "z \<in> net_addrs (ex_net [10, 60, 1, 0] 24)"
  obtain a b c d where abcd: "z = [a, b, c, d]" using z by (auto simp: net_addrs_def elim: length_4E)
  have m: "(255 :: u8) = -1" by simp
  have "a = 10" "b = 60" "c = 1"
    using z by (simp_all add: abcd net_addrs_def ex_net_def IPNet_Contains_def networkNumberAndMask_def To4_def CIDRMask_32 mask_byte_def upt_rec m)
  then show "ip_val [10, 60, 1, 0] \<le> ip_val z"
    using le_word_or2 [of "of_be32 10 60 1 0" "ucast d"] by (simp add: abcd ip_val_def of_be32_def word_le_def flip: or.assoc)
qed

theorem runtime_pool_network_address_witness:
  "\<exists>d p q. new_dnn True \<lparr>dc_Dnn = ''internet'', dc_DnaiList = [], dc_PduSessionTypes = [], dc_Pools = [ex_cidr [10, 60, 1, 0] 24], dc_StaticPools = []\<rparr> []
      = Val (d, [p]) \<and> [10, 60, 1, 0] \<notin> ue_free p
    \<and> new_dnn False \<lparr>dc_Dnn = ''internet'', dc_DnaiList = [], dc_PduSessionTypes = [], dc_Pools = [ex_cidr [10, 60, 1, 0] 24], dc_StaticPools = []\<rparr> []
      = Val (d, [q]) \<and> [10, 60, 1, 0] \<in> ue_free q"
  using runtime_pool_network_address [of "ex_cidr [10, 60, 1, 0] 24" "ex_net [10, 60, 1, 0] 24" "[10, 60, 1, 0]" "[10, 60, 1, 5]" "[10, 60, 1, 0]" "''internet''"]
    ex_parse [of "[10, 60, 1, 0]" 24] ex_in_net(1,2) ex_vals(1) ex_lowest
  by auto

subsection \<open>Paths\<close>

lemma new_links_None:
  "l \<in> set ls \<Longrightarrow> l \<notin> set visited \<Longrightarrow> up_UPF (ns ! l) = None \<Longrightarrow> new_links ns sel visited ls = None"
  by (induction ls) (auto simp: MatchedSelection_def split: option.splits)

text \<open>C38: a UPF of the data network that is linked to a second access network makes every selection for that data network
  panic: the search asks every neighbour for its slices, and an access network has no UPF.\<close>

theorem second_access_network_panics:
  assumes "selectUPPathSource upi = Some source" and "source < length (upi_nodes upi)" and "up_Links (upi_nodes upi ! source) = [u]"
    and "u < length (upi_nodes upi)" "u \<noteq> source" and "MatchedSelection (upi_nodes upi ! u) (sel\<lparr>sel_Dnai := [], sel_PDUAddress := None\<rparr>) = Some True"
    and "l \<in> set (up_Links (upi_nodes upi ! u))" "l \<noteq> source" "l \<noteq> u" and "up_UPF (upi_nodes upi ! l) = None"
  shows "SelectUPFAndAllocUEIP res rnd sel upi = Panic"
proof -
  let ?ns = "upi_nodes upi" and ?selI = "sel\<lparr>sel_Dnai := [], sel_PDUAddress := None\<rparr>"
  have "new_links ?ns ?selI [u, source] (up_Links (?ns ! u)) = None" by (rule new_links_None) (use assms in auto)
  then have "anchor_loop ?ns sel ?selI [u] [source] [] = None" using assms(4,5) by (simp add: anchor_loop.simps)
  moreover have "up_Type (?ns ! source) = UPNODE_AN" by (rule source_is_AN [OF assms(1)])
  ultimately have "selectAnchorUPF ?ns source sel = None"
    unfolding selectAnchorUPF_alt using assms(2,3,5,6) by (simp add: anchor_loop.simps)
  then show ?thesis using assms(1) by (simp add: SelectUPFAndAllocUEIP_def)
qed

definition ex_two_an :: UserPlaneInformation where
  "ex_two_an = empty_upi\<lparr>upi_nodes := [ex_nodes ! 0, (ex_nodes ! 1)\<lparr>up_Links := [0, 2]\<rparr>, (ex_nodes ! 0)\<lparr>up_Name := ''gNB2''\<rparr>],
     AccessNetwork := [(''gNB1'', 0), (''gNB2'', 2)]\<rparr>"

theorem second_access_network_panics_witness: "SelectUPFAndAllocUEIP ex_res (\<lambda>_ _. 0) ex_sel ex_two_an = Panic"
  by (rule second_access_network_panics [where source = 0 and u = 1 and l = 2])
    (simp_all add: ex_two_an_def ex_nodes_def selectUPPathSource_def MatchedSelection_def ex_upf_def ex_sel_def SNssai_Equal_def EqualFold_def ContainsDNAI_def)

lemma UpNodeDelete_default: "DefaultUserPlanePath (UpNodeDelete name upi) = DefaultUserPlanePath upi"
  by (simp add: UpNodeDelete_def Let_def split: option.split)

lemma default_path_cached:
  assumes "GetDefaultUserPlanePathByDNN sel upi = Val (Some path, upi')"
  shows "map_of (DefaultUserPlanePath upi') (sel_String sel) = Some path"
  using assms by (auto simp: GetDefaultUserPlanePathByDNN_def split: option.splits if_splits)

text \<open>C39: \<open>UpNodeDelete\<close> leaves the table of default paths alone, so a default path that runs through the deleted UPF is still
  returned afterwards. (The table of paths to a UPF is cleared.)\<close>

theorem stale_default_path:
  assumes "GetDefaultUserPlanePathByDNN sel upi = Val (Some path, upi')" and "map_of (UPNodes upi') name = Some a" and "a \<in> set path"
  shows "GetDefaultUserPlanePathByDNN sel (UpNodeDelete name upi') = Val (Some path, UpNodeDelete name upi')
    \<and> map_of (UPNodes (UpNodeDelete name upi')) name = None"
proof -
  have "map_of (DefaultUserPlanePath (UpNodeDelete name upi')) (sel_String sel) = Some path"
    using default_path_cached [OF assms(1)] by (simp only: UpNodeDelete_default)
  then show ?thesis by (simp add: GetDefaultUserPlanePathByDNN_def UpNodeDelete_def assms(2) Let_def)
qed

theorem stale_default_path_witness:
  "\<exists>upi'. GetDefaultUserPlanePathByDNN ex_sel (empty_upi\<lparr>upi_nodes := ex_nodes, UPNodes := [(''gNB1'', 0), (''UPF'', 1)], UPFs := [(''UPF'', 1)],
      AccessNetwork := [(''gNB1'', 0)]\<rparr>) = Val (Some [1], upi')
    \<and> GetDefaultUserPlanePathByDNN ex_sel (UpNodeDelete ''UPF'' upi') = Val (Some [1], UpNodeDelete ''UPF'' upi')"
proof -
  let ?upi = "empty_upi\<lparr>upi_nodes := ex_nodes, UPNodes := [(''gNB1'', 0), (''UPF'', 1)], UPFs := [(''UPF'', 1)], AccessNetwork := [(''gNB1'', 0)]\<rparr>"
  have path: "getPathBetween ex_nodes 0 1 ex_sel = Val (Some [0, 1])"
    by (simp add: getPathBetween_def ex_nodes_def ex_upf_def ex_sel_def isSupportSnssai_def SNssai_Equal_def EqualFold_def ContainsDNAI_def numeral_eq_Suc)
  have m: "selectMatchUPF ex_sel ?upi = Some [1]"
    by (simp add: selectMatchUPF_def match_node_def ex_nodes_def ex_upf_def ex_sel_def SNssai_Equal_def EqualFold_def ContainsDNAI_def)
  have f: "first_path ex_nodes ex_sel 1 [(''gNB1'', 0)] = Val (Some [0, 1])" using path by (simp add: ex_nodes_def)
  have "strip_an ?upi [0, 1] = [1]" "DefaultUserPlanePath empty_upi = []" by (simp_all add: strip_an_def ex_nodes_def empty_upi_def)
  then have g: "GetDefaultUserPlanePathByDNN ex_sel ?upi = Val (Some [1], ?upi\<lparr>DefaultUserPlanePath := [(sel_String ex_sel, [1])]\<rparr>)"
    by (simp add: GetDefaultUserPlanePathByDNN_def GenerateDefaultPath_def m f del: gbind_Val_iff first_path.simps One_nat_def)
  from stale_default_path [OF g, of "''UPF''" 1] g show ?thesis by (auto simp: empty_upi_def)
qed

end
