(* ===== verification/Spec2Isabelle.thy ===== *)
theory Spec2Isabelle
  imports Upf_System Smf_Startup
begin

text \<open>
  A verification development of parts of free5GC: the user plane function (UPF, \<open>NFs/upf\<close>), which
  serves the PFCP protocol to the session management function, and the part of the session management
  function (SMF, \<open>NFs/smf\<close>) that knows the UPFs: pools of addresses, topology, path search and the
  choice of a UPF with an address for a session.

  \<^bold>\<open>The parts and how they interact.\<close> The UPF keeps one session per PDU session of a user. A session
  holds rules (PDR, FAR, QER, URR, BAR), which a forwarder (the \<open>Driver\<close>) installs in the data plane.
  The PFCP server receives requests, checks them, builds a plan, lets the forwarder execute it, updates
  the session and answers; the data plane reports usage and buffered packets, which the server turns
  into requests to the peer. Transactions retransmit requests and remember answers. The forwarder of the
  repository, the gtp5g driver, turns information elements into netlink attributes and sends them to a
  kernel module; the buffering server receives packets and reports from the kernel, and the periodic
  report server keeps the timers of the usage rules. \<open>Upf_System\<close> composes these parts.
  The SMF reads from its configuration the UPFs, the access networks, the links between them and the
  networks from which users get addresses. For a session it searches anchors from the access network, takes
  an address from a pool of an associated anchor, and later the path to the anchor. The pools are ranges of
  the lazy reuse pool. \<open>Smf_Startup\<close> composes these parts.

  \<^bold>\<open>Theories.\<close>
  \<^item> \<open>Go_Prelude\<close>: machine integers, Go maps (\<open>gomap\<close>, an association list; \<open>mput\<close>, \<open>mdel\<close>), loops, and
    the locale \<open>id_allocator\<close>, the contract of an allocator of identifiers.
  \<^item> \<open>Go_Std\<close>: what the sources use of \<open>strconv\<close>, \<open>fmt\<close> and \<open>net\<close>: decimal and hexadecimal numbers,
    IP addresses as text (\<open>ParseIP\<close>, \<open>ip_String\<close>).
  \<^item> \<open>Lazy_Reuse_Pool\<close>: \<open>smf/internal/context/pool/lazyReusePool.go\<close>. A pool is a list of segments of free
    values; each method is one definition. It interprets \<open>id_allocator\<close>.
  \<^item> \<open>Upf_Report\<close>: \<open>upf/internal/report/report.go\<close>: trigger words and the elements of a usage report.
  \<^item> \<open>Upf_Plan\<close>: \<open>forwarder/plan.go\<close>, \<open>driver.go\<close>, \<open>empty.go\<close>: plans and the \<open>Driver\<close> interface.
  \<^item> \<open>Upf_Plain_Driver\<close>: a small concrete forwarder and set of information elements, for examples.
  \<^item> \<open>Upf_Session\<close>: the \<open>Sess\<close> part of \<open>pfcp/node.go\<close>: validation and application of every rule
    operation, references of PDRs to URRs, packet queues, \<open>Close\<close>. It holds the locale
    \<open>bounded_fifo\<close>, interpreted by the packet queues.
  \<^item> \<open>Upf_Node\<close>: the \<open>LocalNode\<close> and \<open>RemoteNode\<close> parts of \<open>pfcp/node.go\<close>: the table of sessions by SEID
    and the nodes in an explicit heap, because a session points to its node. It interprets
    \<open>id_allocator\<close> by the SEIDs.
  \<^item> \<open>Upf_Transaction\<close>: \<open>pfcp/transaction.go\<close>, the messages, the server's state and its send functions.
  \<^item> \<open>Upf_Pfcp_Session\<close>: the handlers of \<open>pfcp/session.go\<close>, with the server's invariant \<open>server_inv\<close>.
  \<^item> \<open>Upf_Pfcp_Modify\<close>: what modification and deletion do.
  \<^item> \<open>Upf_Pfcp_Server\<close>: \<open>heartbeat.go\<close>, \<open>association.go\<close>, \<open>report.go\<close>, \<open>dispacher.go\<close> and the main loop of
    \<open>pfcp.go\<close>, as a step on one event.
  \<^item> \<open>Upf_Pfcp_Inv\<close>, \<open>Upf_Pfcp_Props\<close>: the invariant through every step of the server, the relation
    \<open>reachable\<close>, and the properties of the whole server.
  \<^item> \<open>Upf_Gtpv1\<close>: \<open>gtpv1/msg.go\<close>, the encoder of GTP-U messages.
  \<^item> \<open>Upf_Perio\<close>: \<open>forwarder/perio/server.go\<close>, the periodic report server: its loop on each event, and the
    loop, the tickers and the clients as the step relation \<open>perio_trans\<close> over the event channel.
  \<^item> \<open>Go_Text\<close>: what the sources use of \<open>strings\<close>, \<open>strconv\<close> and \<open>net\<close> to read text: fields, splitting,
    unsigned numbers with a bit size, networks in CIDR form.
  \<^item> \<open>Upf_Flow_Desc\<close>: \<open>forwarder/flowdesc.go\<close>, the parser of filter rules, with a printer of rules as its
    specification.
  \<^item> \<open>Upf_Gtp5g\<close>: the plan builders of \<open>forwarder/gtp5g.go\<close>, from information elements to attributes.
  \<^item> \<open>Upf_Gtp5g_Exec\<close>: the part of \<open>gtp5g.go\<close> that talks to the kernel: execution of plans, usage queries,
    delivery of buffered packets; \<open>gtp5g_driver\<close> collects both parts as a \<open>Driver\<close>.
  \<^item> \<open>Upf_Gtp5g_Props\<close>: the requests a plan stands for, and that executing it sends exactly these.
  \<^item> \<open>Upf_Buffnetlink\<close>: \<open>forwarder/buffnetlink/server.go\<close>, the receiver of kernel messages.
  \<^item> \<open>Upf_System\<close>: the path of a packet from the kernel to the peer, and the timers of executed plans in
    the periodic report server.

  \<^item> \<open>Smf_Ue_Ip_Pool\<close>: \<open>smf/internal/context/ue_ip_pool.go\<close>, pools of IPv4 addresses over the lazy reuse pool;
    the lemmas relate bytes, values and networks. It interprets \<open>id_allocator\<close> by the addresses.
  \<^item> \<open>Smf_Topology\<close>: the construction of the topology in \<open>user_plane_information.go\<close>
    (\<open>NewUserPlaneInformation\<close>, \<open>UpNodesFromConfiguration\<close>, \<open>LinksFromConfiguration\<close>, \<open>UpNodeDelete\<close>), with \<open>snssai.go\<close> and
    the UPF of \<open>upf.go\<close>.
  \<^item> \<open>Smf_Path\<close>: the searches \<open>getPathBetween\<close> and \<open>selectAnchorUPF\<close>, with their correctness.
  \<^item> \<open>Smf_User_Plane\<close>: default paths, \<open>SelectUPFAndAllocUEIP\<close> and \<open>ReleaseUEIP\<close>, and runs of sessions that take and
    give back addresses.
  \<^item> \<open>Smf_Startup\<close>: what start-up builds from a configuration, and the properties of the SMF part.

  \<^bold>\<open>State.\<close> A struct is a record with the fields of the source; prefixes separate equal field names. A
  Go map is an association list with distinct keys; its iteration order, which Go leaves open, is the
  list's order, and the theorems hold for every list. A pointer that is shared is an address in a
  heap; in the SMF nodes and pools live in two lists that only grow, and a pointer is an index. A panic is
  \<open>None\<close> (\<open>Panicked\<close> for a step of the server, \<open>Panic\<close> of \<open>gores\<close> where errors and panics both occur). Errors are sums. Integers have the
  width of the source where they wrap; SEIDs are natural numbers, since they count sessions.

  \<^bold>\<open>Parameters.\<close> Code that is not part of the repository is an argument: \<open>ie_api\<close> holds the accessors of
  the go-pfcp information elements, \<open>UpfEnv\<close> marshalling, parsing, writing to the socket and name
  resolution; \<open>pfcp_ies\<close> adds the accessors the driver uses, \<open>gtp5gnl\<close> holds the operations of the kernel
  module on a state of any type, and \<open>nl_codec\<close> the netlink decoders. The session and server theories take
  the forwarder as a \<open>Driver\<close> record, as the code does, so their theorems hold for the gtp5g driver and
  for the \<open>Empty\<close> driver. Where a theorem needs a law of a parameter it is a named hypothesis, such as
  \<open>remove_plans_ok\<close>, \<open>kernel_applies\<close> or \<open>layout_ok\<close>; \<open>gtp5g_close_cleans_kernel\<close> shows that the gtp5g
  driver has the first. A driver that delivers buffered packets takes them from the queues of the
  session; the model passes it the queues and it returns the PDRs whose queues it emptied. In the SMF
  \<open>res\<close> is the resolution of a Node ID to an address as text, \<open>newid\<close> the source of identifiers of UPFs and \<open>rnd\<close> the
  random numbers of a selection; the theorems hold for all of them.

  \<^bold>\<open>What is shown.\<close> The pool conserves its values, and each method does what it promises. SEIDs are
  conserved. Establishment is all or nothing; modification changes one session by exactly its plan;
  deletion removes one session. The conflict check is characterised exactly, and validated plans refer
  to existing rules only. References of PDRs to URRs are counted right as long as PDRs are not updated,
  and closing a session releases everything. Packet queues are bounded FIFO queues.
  Retransmission is bounded. Every reachable state of the server is consistent, and the one way a step
  can panic is characterised. The plan builders of the driver never panic; a filter rule given as text
  becomes the filter it describes; executing a plan sends the kernel exactly the requests of the plan in
  a fixed order, and establishment stops at the first failure. A packet buffered by the kernel reaches
  the queue of its PDR and raises a report. The periodic report server refines a set of rules with
  periods. In the SMF both searches end, without a panic when there is one access network, and find
  exactly what is reachable; a selection hands out a free address of a reachable, associated UPF; after
  start-up no two sessions ever hold the same address; the removal of a node removes its links and the
  cached paths to a UPF through it. Some theorems state faults of the code, each with a concrete instance.

  \<^bold>\<open>Fuel and termination.\<close> The loops of the modelled code are recursion on a list or on the text that is
  left, with termination proved. The recursion of \<open>getPathBetween\<close> has fuel, the number of nodes: each call
  marks a node, so it is enough, and \<open>getPathBetween_correct\<close> includes that it returns. The search for anchors is a
  function with a termination proof: no node is queued after it was visited. The loop over netlink attributes need not end on a
  header with length zero: it is the partial function \<open>decode_loop\<close>, and \<open>downlink_packet_end_to_end\<close>
  includes that it returns. The main loop of the server runs for ever and is modelled by its step.

  \<^bold>\<open>Not modelled.\<close> Sockets, goroutine start-up, logging and configuration files; opening and closing the
  kernel device (\<open>OpenGtp5g\<close>, the version check, \<open>gtp5glink.go\<close>), which are calls of the netlink library;
  the kernel module itself; in the SMF the session contexts and procedures, which run over HTTP, NAS, NGAP
  and PFCP libraries, and the rule tables of a UPF; the other network functions and the web console, which mostly pass messages
  between HTTP, NGAP, NAS and database libraries outside the repository.
\<close>

end
